theory Spec2Isabelle
  imports Complex_Main "HOL-Library.AList" "HOL-Library.Multiset"
begin

section \<open>Values shared by the engine\<close>

text \<open>
  The match engine is JavaScript. Its numbers are IEEE 754 doubles. The model keeps a
  finite double as the rational number it denotes (\<^typ>\<open>rat\<close>), and an arithmetic
  operation of the code is the exact operation followed by the rounding \<open>fl\<close> of the next
  subsection. Where the operands are whole numbers far below \<open>2^53\<close> (list lengths,
  counters, trust scores and their fixed steps, the resources 0 and 10, the bonuses of
  the map) the exact result is a double and \<open>fl\<close> is left out. \<open>Math.floor\<close> is
  \<^const>\<open>floor\<close> and \<open>Math.round\<close> rounds half up, both without error. \<open>NaN\<close> is kept as a
  value of its own where the code inspects the type of a field; infinite doubles, and
  with them results of magnitude \<open>2^1024\<close> and above, are outside the model.

  A JavaScript \<open>Map\<close> keeps its keys in insertion order, so it is an association list:
  \<^const>\<open>map_of\<close> is \<open>get\<close>, \<^const>\<open>AList.update\<close> is \<open>set\<close> (in place when the key
  exists, appended otherwise) and \<^const>\<open>AList.delete\<close> is \<open>delete\<close>.
  \<open>Date.now()\<close>, \<open>Math.random()\<close> and the SHA-256 digest are parameters of the
  functions that call them.
\<close>

datatype jsval = JUndefined | JNull | JBool bool | JNum rat | JNaN | JStr string

fun typeof_number :: "jsval \<Rightarrow> bool" where
  "typeof_number (JNum _) = True"
| "typeof_number JNaN = True"
| "typeof_number _ = False"

text \<open>\<open>v < 1\<close> for a value whose type is number: every comparison with \<open>NaN\<close> is false.\<close>

fun js_less_than_one :: "jsval \<Rightarrow> bool" where
  "js_less_than_one (JNum r) = (r < 1)"
| "js_less_than_one _ = False"

text \<open>\<open>!x\<close> for a string-valued optional field: absent and the empty string are falsy.\<close>

fun falsy_str :: "string option \<Rightarrow> bool" where
  "falsy_str None = True"
| "falsy_str (Some x) = (x = [])"

subsection \<open>Doubles\<close>

text \<open>
  A double has 53 significant bits. \<open>exponent x\<close> is the binary exponent of \<open>x\<close>, found by
  halving or doubling and kept between \<open>-1022\<close>, below which the doubles are equally
  spaced (gradual underflow), and \<open>1023\<close>; the doubles around \<open>x\<close> are the multiples of
  \<open>2^(exponent x - 52)\<close>, and \<open>fl x\<close> is the nearest of them, the one with the even
  multiplier when two are equally near. A decimal literal of the code, such as \<open>0.7\<close>,
  denotes \<open>fl (7 / 10)\<close>.
\<close>

definition roundHalfEven :: "rat \<Rightarrow> int" where
  "roundHalfEven x =
     (let n = \<lfloor>x\<rfloor>; r = x - of_int n
      in if r < 1 / 2 then n else if 1 / 2 < r then n + 1 else if even n then n else n + 1)"

fun up :: "nat \<Rightarrow> rat \<Rightarrow> int \<Rightarrow> int" where
  "up 0 x e = e"
| "up (Suc n) x e = (if 2 \<le> x then up n (x / 2) (e + 1) else e)"

fun down :: "nat \<Rightarrow> rat \<Rightarrow> int \<Rightarrow> int" where
  "down 0 x e = e"
| "down (Suc n) x e = (if x < 1 then down n (2 * x) (e - 1) else e)"

definition exponent :: "rat \<Rightarrow> int" where
  "exponent x = (if 1 \<le> \<bar>x\<bar> then up 1023 \<bar>x\<bar> 0 else down 1022 \<bar>x\<bar> 0)"

definition fl :: "rat \<Rightarrow> rat" where
  "fl x = (if x = 0 then 0
           else let u = 2 powi (exponent x - 52) in of_int (roundHalfEven (x / u)) * u)"

subsection \<open>Other values\<close>

definition js_floor :: "rat \<Rightarrow> rat" where
  "js_floor x = of_int \<lfloor>x\<rfloor>"

definition js_round :: "rat \<Rightarrow> rat" where
  "js_round x = of_int \<lfloor>x + 1 / 2\<rfloor>"

datatype phase = Lobby | Negotiation | Commit | Resolve | Ended

datatype error =
    MaxAgents
  | NotInCommitPhase
  | InvalidMoveStructure
  | NotInResolvePhase
  | TypeError
  | DealNotFound
  | NotAuthorized

section \<open>GameState\<close>

record territory =
  t_id :: string
  t_name :: string
  t_region :: string
  t_owner :: "string option"
  t_armies :: rat
  t_resources :: rat
  t_neighbors :: "string list"
  t_continent :: string

record agent =
  a_id :: string
  a_name :: string
  a_color :: string
  a_personality :: "string option"
  a_territories :: "string list"
  a_armies :: rat
  a_resources :: rat
  a_eliminated :: bool
  a_joinTime :: nat

record continent =
  c_name :: string
  c_bonus :: rat
  c_territories :: "string list"

text \<open>
  A move payload. \<open>mv_type\<close> is the \<open>type\<close> field, an absent or non-string type being the
  empty string (falsy, and none of the five kinds); \<open>mv_from\<close> and \<open>mv_to\<close> are \<open>None\<close>
  when the field is absent (a value that is no string is the key of no territory, like
  a string that is no territory id); \<open>mv_armies\<close> is \<open>JUndefined\<close> when the field is
  absent. Fields that the engine never reads (\<open>distributions\<close>, \<open>note\<close>) are left out.
\<close>

record move =
  mv_type :: string
  mv_from :: "string option"
  mv_to :: "string option"
  mv_armies :: jsval

record commitment =
  cm_agentId :: string
  cm_move :: move
  cm_signature :: string
  cm_timestamp :: nat
  cm_hash :: string

record revealed_move = commitment +
  rv_revealedAt :: nat

record conversation =
  cv_id :: string
  cv_agentId :: string
  cv_message :: string
  cv_type :: string
  cv_turn :: nat
  cv_phase :: phase
  cv_timestamp :: nat

record battle_result =
  br_territory :: string
  br_defender :: "string option"
  br_attackers :: "string list"
  br_winner :: "string option"
  br_remainingArmies :: rat
  br_attackRoll :: rat
  br_defenseRoll :: rat

text \<open>The events the state emits to its listeners, in the order of emission.\<close>

datatype event =
    AgentJoined string
  | AgentLeft string
  | TerritoriesDistributed
  | PhaseChange phase phase nat
  | MoveCommitted string string
  | AllMovesCommitted
  | MovesRevealed "revealed_move list"
  | BattlesResolved "battle_result list"
  | ConversationLogged conversation
  | TurnEnd nat

record game_state =
  gameId :: string
  phase :: phase
  turn :: nat
  maxTurns :: nat
  agents :: "(string \<times> agent) list"
  territories :: "(string \<times> territory) list"
  continents :: "(string \<times> continent) list option"
  conversations :: "conversation list"
  moves :: "(string \<times> commitment) list"
  revealedMoves :: "(string \<times> revealed_move) list"
  history :: "(nat \<times> phase \<times> nat) list"
  winner :: "string option"
  phaseStartTime :: "nat option"
  lastActivity :: nat
  events :: "event list"

definition emit :: "event \<Rightarrow> game_state \<Rightarrow> game_state" where
  "emit e s = s\<lparr>events := events s @ [e]\<rparr>"

fun phaseDuration :: "phase \<Rightarrow> nat option" where
  "phaseDuration Negotiation = Some 15000"
| "phaseDuration Commit = Some 10000"
| "phaseDuration Resolve = Some 8000"
| "phaseDuration _ = None"

definition getActiveAgents :: "game_state \<Rightarrow> agent list" where
  "getActiveAgents s = filter (\<lambda>a. \<not> a_eliminated a) (map snd (agents s))"

definition setPhase :: "nat \<Rightarrow> phase \<Rightarrow> game_state \<Rightarrow> game_state" where
  "setPhase now p s =
     (let oldPhase = phase s;
          s1 = s\<lparr>phase := p, phaseStartTime := Some now\<rparr>;
          s2 = s1\<lparr>history := history s1 @ [(turn s1, p, now)]\<rparr>
      in emit (PhaseChange oldPhase p (turn s2)) s2)"

subsection \<open>Move validation and commitment\<close>

definition hasTerritory :: "game_state \<Rightarrow> string option \<Rightarrow> bool" where
  "hasTerritory s k = (case k of None \<Rightarrow> False | Some tid \<Rightarrow> map_of (territories s) tid \<noteq> None)"

definition validateMove :: "game_state \<Rightarrow> move \<Rightarrow> bool" where
  "validateMove s m =
     (if mv_type m = [] \<or> mv_type m \<notin> set [''attack'', ''defend'', ''support'', ''move'', ''none'']
      then False
      else if (mv_type m = ''attack'' \<or> mv_type m = ''move'')
            \<and> (falsy_str (mv_from m) \<or> falsy_str (mv_to m))
      then False
      else if (mv_type m = ''attack'' \<or> mv_type m = ''move'')
            \<and> (\<not> hasTerritory s (mv_from m) \<or> \<not> hasTerritory s (mv_to m))
      then False
      else if mv_armies m \<noteq> JUndefined
            \<and> (\<not> typeof_number (mv_armies m) \<or> js_less_than_one (mv_armies m))
      then False
      else True)"

text \<open>
  \<open>commitMove\<close> throws before it touches anything, so the state returned beside an error
  is the state it was called on. \<open>sha\<close> is the digest of the serialised move.
\<close>

definition commitMove ::
  "(move \<Rightarrow> string) \<Rightarrow> nat \<Rightarrow> string \<Rightarrow> move \<Rightarrow> string \<Rightarrow> game_state
     \<Rightarrow> (error + commitment) \<times> game_state" where
  "commitMove sha now agentId m signature s =
     (if phase s \<noteq> Commit then (Inl NotInCommitPhase, s)
      else if \<not> validateMove s m then (Inl InvalidMoveStructure, s)
      else
        let c = \<lparr>cm_agentId = agentId, cm_move = m, cm_signature = signature,
                 cm_timestamp = now, cm_hash = sha m\<rparr>;
            s1 = s\<lparr>moves := AList.update agentId c (moves s)\<rparr>;
            s2 = emit (MoveCommitted agentId (cm_hash c)) s1;
            s3 = (if length (moves s2) = length (getActiveAgents s2)
                  then emit AllMovesCommitted s2 else s2)
        in (Inr c, s3))"

subsection \<open>Reinforcements\<close>

definition ownsAll :: "game_state \<Rightarrow> string \<Rightarrow> continent \<Rightarrow> bool" where
  "ownsAll s agentId c =
     list_all (\<lambda>tid. case map_of (territories s) tid of
                        None \<Rightarrow> False
                      | Some t \<Rightarrow> t_owner t = Some agentId)
              (c_territories c)"

definition addContinentBonuses ::
  "game_state \<Rightarrow> string \<Rightarrow> rat \<Rightarrow> (string \<times> continent) list \<Rightarrow> rat" where
  "addContinentBonuses s agentId r cs =
     foldl (\<lambda>acc (cid, c). if ownsAll s agentId c then acc + c_bonus c else acc) r cs"

text \<open>
  \<open>continents\<close> is set by \<open>initializeMap\<close> only; on a state that never ran it,
  \<open>Object.entries(undefined)\<close> throws.
\<close>

definition calculateReinforcements ::
  "string \<Rightarrow> game_state \<Rightarrow> (error + rat) \<times> game_state" where
  "calculateReinforcements agentId s =
     (case map_of (agents s) agentId of
        None \<Rightarrow> (Inr 0, s)
      | Some a \<Rightarrow>
          if a_eliminated a then (Inr 0, s)
          else (case continents s of
                  None \<Rightarrow> (Inl TypeError, s)
                | Some cs \<Rightarrow>
                    let base = max 3 (js_floor (of_nat (length (a_territories a)) / 3));
                        withBonus = addContinentBonuses s agentId base cs;
                        resourceBonus = js_floor (a_resources a / 5);
                        reinforcements = withBonus + resourceBonus;
                        a' = a\<lparr>a_resources := a_resources a - resourceBonus * 5\<rparr>
                    in (Inr reinforcements,
                        s\<lparr>agents := AList.update agentId a' (agents s)\<rparr>)))"


subsection \<open>Set-up: map, participants, initial placement\<close>

record map_definition =
  md_territories :: "territory list"
  md_continents :: "(string \<times> continent) list"

definition newGameState :: "string \<Rightarrow> nat \<Rightarrow> game_state" where
  "newGameState gid now =
     \<lparr>gameId = gid, phase = Lobby, turn = 1, maxTurns = 10, agents = [], territories = [],
      continents = None, conversations = [], moves = [], revealedMoves = [], history = [],
      winner = None, phaseStartTime = None, lastActivity = now, events = []\<rparr>"

text \<open>
  \<open>initializeMap\<close> looks the map type up in a table; \<open>md\<close> is the result of that lookup,
  \<open>None\<close> for an unknown type, on which \<open>map.territories\<close> throws. Every territory starts
  unowned with no armies; a resource value of 0 is replaced by 1.
\<close>

definition initializeMap :: "map_definition option \<Rightarrow> game_state \<Rightarrow> (error + unit) \<times> game_state" where
  "initializeMap md s =
     (case md of
        None \<Rightarrow> (Inl TypeError, s)
      | Some m \<Rightarrow>
          (Inr (),
           s\<lparr>territories :=
                foldl (\<lambda>ts t. AList.update (t_id t)
                                 (t\<lparr>t_owner := None, t_armies := 0,
                                    t_resources := (if t_resources t = 0 then 1 else t_resources t)\<rparr>)
                                 ts)
                      (territories s) (md_territories m),
              continents := Some (md_continents m)\<rparr>))"

record agent_input =
  ai_id :: string
  ai_name :: string
  ai_color :: string
  ai_personality :: "string option"

definition addAgent :: "nat \<Rightarrow> agent_input \<Rightarrow> game_state \<Rightarrow> (error + unit) \<times> game_state" where
  "addAgent now ag s =
     (if length (agents s) \<ge> 7 then (Inl MaxAgents, s)
      else
        let a = \<lparr>a_id = ai_id ag, a_name = ai_name ag, a_color = ai_color ag,
                 a_personality = ai_personality ag, a_territories = [], a_armies = 0,
                 a_resources = 0, a_eliminated = False, a_joinTime = now\<rparr>
        in (Inr (), emit (AgentJoined (ai_id ag))
                      (s\<lparr>agents := AList.update (ai_id ag) a (agents s)\<rparr>)))"

definition neutralise :: "string \<Rightarrow> (string \<times> territory) list \<Rightarrow> (string \<times> territory) list" where
  "neutralise tid ts = AList.map_entry tid (\<lambda>t. t\<lparr>t_owner := None, t_armies := 0\<rparr>) ts"

definition removeAgent :: "string \<Rightarrow> game_state \<Rightarrow> game_state" where
  "removeAgent agentId s =
     (case map_of (agents s) agentId of
        None \<Rightarrow> s
      | Some a \<Rightarrow>
          emit (AgentLeft (a_id a))
            (s\<lparr>territories := foldl (\<lambda>ts tid. neutralise tid ts) (territories s) (a_territories a),
               agents := AList.delete agentId (agents s)\<rparr>))"

text \<open>
  The Fisher-Yates loop \<open>for (i = n - 1; i > 0; i--)\<close> with \<open>j = floor(random() * (i + 1))\<close>.
  \<open>rnd k\<close> is the result of the \<open>k\<close>-th call of \<open>Math.random()\<close>, a number in \<open>[0, 1)\<close>, so
  that \<open>j \<le> i\<close>: the theorems assume it of \<open>rnd\<close>. The index is taken from the exact
  product; the rounded product gives an index between 0 and \<open>i\<close> as well, and what is
  proved of the shuffle holds for every choice of these indices.
\<close>

definition swap :: "nat \<Rightarrow> nat \<Rightarrow> 'a list \<Rightarrow> 'a list" where
  "swap i j xs = xs[i := xs ! j, j := xs ! i]"

fun shuffle :: "(nat \<Rightarrow> rat) \<Rightarrow> nat \<Rightarrow> nat \<Rightarrow> 'a list \<Rightarrow> 'a list" where
  "shuffle rnd k 0 xs = xs"
| "shuffle rnd k (Suc i) xs =
     shuffle rnd (Suc k) i (swap (Suc i) (nat \<lfloor>rnd k * (of_nat (Suc i) + 1)\<rfloor>) xs)"

text \<open>
  The round-robin \<open>forEach((tid, index) => ...)\<close>. With no participant,
  \<open>agentIds[index % 0]\<close> is undefined: the first territory is written (its owner is no
  participant) and \<open>agent.territories\<close> throws.
\<close>

fun assignTerritories ::
  "string list \<Rightarrow> nat \<Rightarrow> string list \<Rightarrow> game_state \<Rightarrow> (error + unit) \<times> game_state" where
  "assignTerritories agentIds index [] s = (Inr (), s)"
| "assignTerritories agentIds index (tid # tids) s =
     (if agentIds = [] then
        (Inl TypeError,
         s\<lparr>territories := AList.map_entry tid (\<lambda>t. t\<lparr>t_owner := None, t_armies := 3\<rparr>)
                              (territories s)\<rparr>)
      else
        let agentId = agentIds ! (index mod length agentIds);
            s1 = s\<lparr>territories :=
                      AList.map_entry tid (\<lambda>t. t\<lparr>t_owner := Some agentId, t_armies := 3\<rparr>)
                        (territories s)\<rparr>;
            s2 = s1\<lparr>agents :=
                       AList.map_entry agentId
                         (\<lambda>a. a\<lparr>a_territories := a_territories a @ [tid],
                                 a_armies := fl (a_armies a + 3)\<rparr>)
                         (agents s1)\<rparr>
        in assignTerritories agentIds (Suc index) tids s2)"

definition giveInitialResources :: "string list \<Rightarrow> game_state \<Rightarrow> game_state" where
  "giveInitialResources agentIds s =
     s\<lparr>agents := foldl (\<lambda>ags aid. AList.map_entry aid (\<lambda>a. a\<lparr>a_resources := 10\<rparr>) ags)
                        (agents s) agentIds\<rparr>"

definition distributeTerritories ::
  "(nat \<Rightarrow> rat) \<Rightarrow> game_state \<Rightarrow> (error + unit) \<times> game_state" where
  "distributeTerritories rnd s =
     (let territoryIds = map fst (territories s);
          agentIds = map fst (agents s);
          shuffled = shuffle rnd 0 (length territoryIds - 1) territoryIds
      in case assignTerritories agentIds 0 shuffled s of
           (Inl e, s1) \<Rightarrow> (Inl e, s1)
         | (Inr _, s1) \<Rightarrow> (Inr (), emit TerritoriesDistributed (giveInitialResources agentIds s1)))"

subsection \<open>Reveal and battle resolution\<close>

definition revealMoves :: "nat \<Rightarrow> game_state \<Rightarrow> (error + revealed_move list) \<times> game_state" where
  "revealMoves now s =
     (if phase s \<noteq> Resolve then (Inl NotInResolvePhase, s)
      else
        let rm = foldl (\<lambda>acc (agentId, c).
                          AList.update agentId (commitment.extend c \<lparr>rv_revealedAt = now\<rparr>) acc)
                       [] (moves s);
            s1 = s\<lparr>revealedMoves := rm\<rparr>
        in (Inr (map snd rm), emit (MovesRevealed (map snd rm)) s1))"

record attacker =
  at_agentId :: string
  at_from :: "string option"
  at_armies :: rat

text \<open>
  \<open>move.armies || 1\<close>: every falsy value gives 1. A stored commitment has passed
  \<open>validateMove\<close>, so its \<open>armies\<close> is absent or a number; \<open>true\<close> counts as 1 in a sum
  of numbers, and a non-empty string, which would turn the sum into a string, is given 1.
\<close>

fun armiesOrOne :: "jsval \<Rightarrow> rat" where
  "armiesOrOne (JNum r) = (if r = 0 then 1 else r)"
| "armiesOrOne _ = 1"

text \<open>
  The battles are a \<open>Map\<close> from the target (\<open>move.to\<close>, possibly undefined) to the list of
  its attackers, in the order in which the targets are first attacked.
\<close>

definition addAttacker ::
  "string option \<Rightarrow> attacker \<Rightarrow> (string option \<times> attacker list) list
     \<Rightarrow> (string option \<times> attacker list) list" where
  "addAttacker target att battles =
     (case map_of battles target of
        None \<Rightarrow> AList.update target [att] battles
      | Some _ \<Rightarrow> AList.map_entry target (\<lambda>atts. atts @ [att]) battles)"

definition groupAttacks ::
  "(string \<times> revealed_move) list \<Rightarrow> (string option \<times> attacker list) list" where
  "groupAttacks rms =
     foldl (\<lambda>battles (agentId, c).
              let m = cm_move c in
              if mv_type m = ''attack''
              then addAttacker (mv_to m)
                     \<lparr>at_agentId = agentId, at_from = mv_from m,
                      at_armies = armiesOrOne (mv_armies m)\<rparr> battles
              else battles)
           [] rms"

text \<open>
  \<open>attackerForces[id] = (attackerForces[id] || 0) + att.armies\<close> and
  \<open>totalAttack += att.armies\<close>, each sum rounded.
\<close>

definition addForce :: "attacker \<Rightarrow> (string \<times> rat) list \<Rightarrow> (string \<times> rat) list" where
  "addForce att forces =
     AList.update (at_agentId att)
       (fl ((case map_of forces (at_agentId att) of None \<Rightarrow> 0 | Some f \<Rightarrow> f) + at_armies att))
       forces"

definition attackerForces :: "attacker list \<Rightarrow> (string \<times> rat) list" where
  "attackerForces atts = foldl (\<lambda>forces att. addForce att forces) [] atts"

definition totalAttack :: "attacker list \<Rightarrow> rat" where
  "totalAttack atts = foldl (\<lambda>t att. fl (t + at_armies att)) 0 atts"

text \<open>
  \<open>attackerForces\<close> is a plain object, and \<open>Object.entries\<close> lists the keys of an object
  that are array indices (the decimal numerals of 0 to \<open>2^32 - 2\<close>, without leading
  zeros) first, in ascending numeric order, and the other keys after them in insertion
  order. Participant ids that name a property of \<open>Object.prototype\<close> (\<open>constructor\<close>,
  \<open>__proto__\<close>, ...), for which \<open>attackerForces[id]\<close> is no number, are outside the model.
\<close>

definition isDigit :: "char \<Rightarrow> bool" where
  "isDigit c = (48 \<le> (of_char c :: int) \<and> (of_char c :: int) \<le> 57)"

definition digitsValue :: "string \<Rightarrow> int" where
  "digitsValue k = foldl (\<lambda>n c. 10 * n + ((of_char c :: int) - 48)) 0 k"

definition isArrayIndex :: "string \<Rightarrow> bool" where
  "isArrayIndex k =
     (k \<noteq> [] \<and> list_all isDigit k \<and> (if hd k = CHR ''0'' then length k = 1 else True)
      \<and> digitsValue k \<le> 4294967294)"

definition objectEntries :: "(string \<times> 'a) list \<Rightarrow> (string \<times> 'a) list" where
  "objectEntries kvs =
     sort_key (\<lambda>p. digitsValue (fst p)) (filter (\<lambda>p. isArrayIndex (fst p)) kvs)
     @ filter (\<lambda>p. \<not> isArrayIndex (fst p)) kvs"

text \<open>
  \<open>Object.entries(attackerForces).sort((a, b) => b[1] - a[1])\<close>: the entries sorted by
  descending force; the sort is stable, and the difference of two doubles has the sign
  of their exact difference.
\<close>

definition sortByForce :: "(string \<times> rat) list \<Rightarrow> (string \<times> rat) list" where
  "sortByForce forces = sort_key (\<lambda>p. - snd p) forces"

text \<open>
  The first entry of the sorted list, \<open>[0][0]\<close>; with no entry at all, \<open>undefined[0]\<close>
  throws.
\<close>

definition strongestAttacker :: "attacker list \<Rightarrow> string option" where
  "strongestAttacker atts =
     (case sortByForce (objectEntries (attackerForces atts)) of
        [] \<Rightarrow> None
      | best # _ \<Rightarrow> Some (fst best))"

text \<open>\<open>Math.round(roll * 100) / 100\<close>, the roll as the result reports it.\<close>

definition roundedRoll :: "rat \<Rightarrow> rat" where
  "roundedRoll x = fl (js_round (fl (x * 100)) / 100)"

text \<open>
  \<open>r1\<close> and \<open>r2\<close> are the two results of \<open>Math.random()\<close>, in the order of the calls.
  \<open>Math.random() * defenderArmies * 1.5\<close> is two products, each rounded; 1.5 is a double.
\<close>

definition resolveBattle ::
  "rat \<Rightarrow> rat \<Rightarrow> territory \<Rightarrow> attacker list \<Rightarrow> error + battle_result" where
  "resolveBattle r1 r2 t atts =
     (let defender = t_owner t;
          defenderArmies = t_armies t;
          total = totalAttack atts;
          attackRoll = fl (r1 * total);
          defenseRoll = fl (fl (r2 * defenderArmies) * (3 / 2))
      in if attackRoll > defenseRoll then
           (case strongestAttacker atts of
              None \<Rightarrow> Inl TypeError
            | Some w \<Rightarrow>
                Inr \<lparr>br_territory = t_id t, br_defender = defender,
                     br_attackers = map at_agentId atts, br_winner = Some w,
                     br_remainingArmies = max 1 (js_floor (fl (total * fl (6 / 10)))),
                     br_attackRoll = roundedRoll attackRoll,
                     br_defenseRoll = roundedRoll defenseRoll\<rparr>)
         else
           Inr \<lparr>br_territory = t_id t, br_defender = defender,
                br_attackers = map at_agentId atts, br_winner = defender,
                br_remainingArmies = max 1 (js_floor (fl (defenderArmies * fl (7 / 10)))),
                br_attackRoll = roundedRoll attackRoll,
                br_defenseRoll = roundedRoll defenseRoll\<rparr>)"

text \<open>
  The body of the loop over the battles, after \<open>resolveBattle\<close>. The old owner is written
  before the new owner is read, so when the winner is no registered participant the
  exception leaves the old owner's list already filtered.
\<close>

definition applyResult ::
  "string \<Rightarrow> territory \<Rightarrow> battle_result \<Rightarrow> game_state \<Rightarrow> error option \<times> game_state" where
  "applyResult territoryId t r s =
     (if br_winner r \<noteq> t_owner t then
        let s1 = (case t_owner t of
                    None \<Rightarrow> s
                  | Some old \<Rightarrow>
                      s\<lparr>agents :=
                          AList.map_entry old
                            (\<lambda>a. a\<lparr>a_territories := filter (\<lambda>x. x \<noteq> territoryId) (a_territories a),
                                    a_armies := fl (a_armies a - t_armies t)\<rparr>)
                            (agents s)\<rparr>)
        in (case br_winner r of
              None \<Rightarrow> (Some TypeError, s1)
            | Some w \<Rightarrow>
                (case map_of (agents s1) w of
                   None \<Rightarrow> (Some TypeError, s1)
                 | Some _ \<Rightarrow>
                     let s2 = s1\<lparr>agents :=
                                   AList.map_entry w
                                     (\<lambda>a. a\<lparr>a_territories := a_territories a @ [territoryId]\<rparr>)
                                     (agents s1)\<rparr>;
                         s3 = s2\<lparr>territories :=
                                   AList.map_entry territoryId
                                     (\<lambda>x. x\<lparr>t_owner := Some w,
                                             t_armies := br_remainingArmies r\<rparr>)
                                     (territories s2)\<rparr>;
                         s4 = s3\<lparr>agents :=
                                   AList.map_entry w
                                     (\<lambda>a. a\<lparr>a_armies := fl (a_armies a + br_remainingArmies r)\<rparr>)
                                     (agents s3)\<rparr>
                     in (None, s4)))
      else
        (None,
         s\<lparr>territories :=
             AList.map_entry territoryId (\<lambda>x. x\<lparr>t_armies := br_remainingArmies r\<rparr>)
               (territories s)\<rparr>))"

text \<open>
  The loop over the battles; \<open>k\<close> counts the calls of \<open>Math.random()\<close> made so far,
  two for each battle.
\<close>

fun resolveLoop ::
  "(nat \<Rightarrow> rat) \<Rightarrow> nat \<Rightarrow> (string option \<times> attacker list) list \<Rightarrow> battle_result list
     \<Rightarrow> game_state \<Rightarrow> (error + battle_result list) \<times> game_state" where
  "resolveLoop rnd k [] results s = (Inr results, s)"
| "resolveLoop rnd k ((target, atts) # battles) results s =
     (case target of
        None \<Rightarrow> (Inl TypeError, s)
      | Some tid \<Rightarrow>
          (case map_of (territories s) tid of
             None \<Rightarrow> (Inl TypeError, s)
           | Some t \<Rightarrow>
               (case resolveBattle (rnd k) (rnd (Suc k)) t atts of
                  Inl e \<Rightarrow> (Inl e, s)
                | Inr r \<Rightarrow>
                    (case applyResult tid t r s of
                       (Some e, s1) \<Rightarrow> (Inl e, s1)
                     | (None, s1) \<Rightarrow> resolveLoop rnd (Suc (Suc k)) battles (results @ [r]) s1))))"

definition resolveBattles ::
  "(nat \<Rightarrow> rat) \<Rightarrow> game_state \<Rightarrow> (error + battle_result list) \<times> game_state" where
  "resolveBattles rnd s =
     (case resolveLoop rnd 0 (groupAttacks (revealedMoves s)) [] s of
        (Inl e, s1) \<Rightarrow> (Inl e, s1)
      | (Inr results, s1) \<Rightarrow> (Inr results, emit (BattlesResolved results) s1))"

subsection \<open>Win conditions and turn end\<close>

datatype win_type = Elimination | Domination | Turns

text \<open>
  \<open>agent.territories.length / totalTerritories >= 0.6\<close>. With no territory at all the
  quotient is \<open>Infinity\<close> for a positive count and \<open>NaN\<close> for 0. Otherwise the quotient
  of the two counts, rounded to a double, is compared with the double 0.6; on a map of
  no more than \<open>2^51\<close> territories this is the comparison of the exact quotient with
  6/10 (lemma \<open>share_in_doubles\<close> below), which is what the model writes.
\<close>

definition dominates :: "nat \<Rightarrow> agent \<Rightarrow> bool" where
  "dominates totalTerritories a =
     (if totalTerritories = 0 then length (a_territories a) \<noteq> 0
      else (of_nat (length (a_territories a)) :: rat) / of_nat totalTerritories \<ge> 6 / 10)"

definition sortByTerritories :: "agent list \<Rightarrow> agent list" where
  "sortByTerritories as = sort_key (\<lambda>a. - int (length (a_territories a))) as"

definition declareWinner :: "nat \<Rightarrow> win_type \<Rightarrow> agent \<Rightarrow> game_state
    \<Rightarrow> (error + (win_type \<times> string) option) \<times> game_state" where
  "declareWinner now wt a s =
     (let s1 = setPhase now Ended (s\<lparr>winner := Some (a_id a)\<rparr>)
      in (Inr (Some (wt, a_id a)), s1))"

definition checkWinCondition ::
  "nat \<Rightarrow> game_state \<Rightarrow> (error + (win_type \<times> string) option) \<times> game_state" where
  "checkWinCondition now s =
     (let activeAgents = getActiveAgents s in
      case activeAgents of
        [a] \<Rightarrow> declareWinner now Elimination a s
      | _ \<Rightarrow>
        (case find (dominates (length (territories s))) activeAgents of
           Some a \<Rightarrow> declareWinner now Domination a s
         | None \<Rightarrow>
             if turn s \<ge> maxTurns s then
               (case sortByTerritories activeAgents of
                  [] \<Rightarrow> (Inl TypeError, s)
                | w # _ \<Rightarrow> declareWinner now Turns w s)
             else (Inr None, s)))"

definition endTurn :: "nat \<Rightarrow> game_state \<Rightarrow> game_state" where
  "endTurn now s =
     (let s1 = s\<lparr>turn := turn s + 1, moves := [], revealedMoves := [], lastActivity := now\<rparr>
      in emit (TurnEnd (turn s1)) s1)"

definition logConversation ::
  "string \<Rightarrow> nat \<Rightarrow> string \<Rightarrow> string \<Rightarrow> string \<Rightarrow> game_state \<Rightarrow> conversation \<times> game_state" where
  "logConversation uuid now agentId message ty s =
     (let entry = \<lparr>cv_id = uuid, cv_agentId = agentId, cv_message = message, cv_type = ty,
                     cv_turn = turn s, cv_phase = phase s, cv_timestamp = now\<rparr>
      in (entry, emit (ConversationLogged entry) (s\<lparr>conversations := conversations s @ [entry]\<rparr>)))"

subsection \<open>Saved matches\<close>

text \<open>
  \<open>GameState.fromJSON\<close> builds a match from saved data: a new state whose phase, turn
  counter, participants, territories, conversations, history and winner are the saved
  ones. \<open>new Map(entries)\<close> sets the entries one after the other. The participant records
  are taken as they are saved, the \<open>eliminated\<close> flag included.
\<close>

record saved_game =
  sg_gameId :: string
  sg_phase :: phase
  sg_turn :: nat
  sg_maxTurns :: nat
  sg_agents :: "(string \<times> agent) list"
  sg_territories :: "(string \<times> territory) list"
  sg_conversations :: "conversation list"
  sg_history :: "(nat \<times> phase \<times> nat) list"
  sg_winner :: "string option"
  sg_lastActivity :: nat

definition newMap :: "('k \<times> 'v) list \<Rightarrow> ('k \<times> 'v) list" where
  "newMap entries = foldl (\<lambda>m (k, v). AList.update k v m) [] entries"

definition fromJSON :: "nat \<Rightarrow> saved_game \<Rightarrow> game_state" where
  "fromJSON now d =
     (newGameState (sg_gameId d) now)
       \<lparr>phase := sg_phase d, turn := sg_turn d, maxTurns := sg_maxTurns d,
        agents := newMap (sg_agents d), territories := newMap (sg_territories d),
        conversations := sg_conversations d, history := sg_history d,
        winner := sg_winner d, lastActivity := sg_lastActivity d\<rparr>"

subsection \<open>Snapshots\<close>

record public_agent =
  pa_id :: string
  pa_name :: string
  pa_color :: string
  pa_territories :: nat
  pa_armies :: rat
  pa_resources :: rat
  pa_eliminated :: bool
  pa_personality :: "string option"

record public_territory =
  pt_id :: string
  pt_name :: string
  pt_owner :: "string option"
  pt_armies :: rat
  pt_region :: string
  pt_continent :: string
  pt_neighbors :: "string list"

record public_state =
  ps_gameId :: string
  ps_phase :: phase
  ps_turn :: nat
  ps_maxTurns :: nat
  ps_agents :: "public_agent list"
  ps_territories :: "public_territory list"
  ps_conversations :: "conversation list"
  ps_winner :: "string option"
  ps_phaseStartTime :: "nat option"
  ps_phaseDuration :: "nat option"

record agent_state = public_state +
  as_myTerritories :: "string list"
  as_myResources :: rat
  as_myCommitment :: "string option"
  as_revealedMoves :: "revealed_move list"

definition getPublicState :: "game_state \<Rightarrow> public_state" where
  "getPublicState s =
     \<lparr>ps_gameId = gameId s, ps_phase = phase s, ps_turn = turn s, ps_maxTurns = maxTurns s,
      ps_agents =
        map (\<lambda>a. \<lparr>pa_id = a_id a, pa_name = a_name a, pa_color = a_color a,
                    pa_territories = length (a_territories a), pa_armies = a_armies a,
                    pa_resources = a_resources a, pa_eliminated = a_eliminated a,
                    pa_personality = a_personality a\<rparr>)
            (map snd (agents s)),
      ps_territories =
        map (\<lambda>t. \<lparr>pt_id = t_id t, pt_name = t_name t, pt_owner = t_owner t,
                    pt_armies = t_armies t, pt_region = t_region t,
                    pt_continent = t_continent t, pt_neighbors = t_neighbors t\<rparr>)
            (map snd (territories s)),
      ps_conversations = filter (\<lambda>c. cv_type c = ''public'') (conversations s),
      ps_winner = winner s, ps_phaseStartTime = phaseStartTime s,
      ps_phaseDuration = phaseDuration (phase s)\<rparr>"

text \<open>
  \<open>this.moves.get(agentId)?.hash || null\<close>: no commitment, or an empty hash, gives null.
  The result is null (\<open>None\<close>) for an id that is no participant.
\<close>

definition getAgentState :: "string \<Rightarrow> game_state \<Rightarrow> agent_state option" where
  "getAgentState agentId s =
     (case map_of (agents s) agentId of
        None \<Rightarrow> None
      | Some a \<Rightarrow>
          Some (public_state.extend (getPublicState s)
                  \<lparr>as_myTerritories = a_territories a,
                   as_myResources = a_resources a,
                   as_myCommitment =
                     (case map_of (moves s) agentId of
                        None \<Rightarrow> None
                      | Some c \<Rightarrow> if cm_hash c = [] then None else Some (cm_hash c)),
                   as_revealedMoves =
                     filter (\<lambda>m. phase s = Resolve \<or> cm_agentId m = agentId)
                            (map snd (revealedMoves s))\<rparr>))"

section \<open>ReputationEngine\<close>

text \<open>
  The ledger of reputations, deals and alliances. Its maps are association lists as
  above; a \<open>Set\<close> of member ids is a duplicate-free list in insertion order. The events it
  emits reach listeners outside the ledger and change nothing in it; they are left out,
  and so are the fields that are stored and never read again (the \<open>phase\<close> of a deal, the
  \<open>terms\<close> of an alliance, the \<open>context\<close> of a history entry). Statuses are the strings of
  the source, as an enumeration.
\<close>

datatype status = Pending | Active | Completed | Broken | Expired | Dissolved

text \<open>
  An entry of a \<open>betrayals\<close> list names the victim, one of a \<open>betrayedBy\<close> list the
  betrayer. Its \<open>turn\<close> field copies \<open>this.currentTurn\<close>, which nothing assigns.
\<close>

record betrayal =
  bt_party :: string
  bt_type :: string
  bt_timestamp :: nat

record history_entry =
  he_type :: string
  he_target :: "string option"
  he_timestamp :: nat

record reputation =
  r_agentId :: string
  r_name :: string
  trustScore :: rat
  dealsMade :: nat
  dealsKept :: nat
  dealsBroken :: nat
  alliancesHonored :: nat
  alliancesBroken :: nat
  betrayals :: "betrayal list"
  betrayedBy :: "betrayal list"
  consistencyScore :: rat
  aggressionScore :: rat
  diplomacyScore :: rat
  r_history :: "history_entry list"
  lastUpdated :: nat

record deal =
  d_id :: string
  d_turn :: nat
  d_proposer :: string
  d_acceptor :: string
  d_terms :: string
  d_type :: string
  d_status :: status
  d_createdAt :: nat
  d_expiresAt :: "nat option"
  d_fulfilled :: "(string \<times> bool) list"
  d_brokenBy :: "string option"
  d_brokenAt :: "nat option"
  d_breakReason :: "string option"
  d_acceptedAt :: "nat option"
  d_completedAt :: "nat option"

record alliance =
  al_id :: string
  al_name :: string
  al_members :: "string list"
  al_type :: string
  al_formedAt :: nat
  al_expiresAt :: "nat option"
  al_status :: status
  al_brokenBy :: "string option"
  al_brokenAt :: "nat option"
  al_breakReason :: "string option"

record rep_engine =
  agentReputations :: "(string \<times> reputation) list"
  deals :: "(string \<times> deal) list"
  alliances :: "(string \<times> alliance) list"

definition newReputationEngine :: rep_engine where
  "newReputationEngine = \<lparr>agentReputations = [], deals = [], alliances = []\<rparr>"

definition initializeAgent :: "nat \<Rightarrow> string \<Rightarrow> string \<Rightarrow> rep_engine \<Rightarrow> rep_engine" where
  "initializeAgent now agentId name e =
     e\<lparr>agentReputations :=
         AList.update agentId
           \<lparr>r_agentId = agentId, r_name = name, trustScore = 50, dealsMade = 0, dealsKept = 0,
            dealsBroken = 0, alliancesHonored = 0, alliancesBroken = 0, betrayals = [],
            betrayedBy = [], consistencyScore = 50, aggressionScore = 50, diplomacyScore = 50,
            r_history = [], lastUpdated = now\<rparr>
           (agentReputations e)\<rparr>"

subsection \<open>Counters and the trust blend\<close>

datatype deal_count = Made | Kept | BrokenCount

fun bumpDealCount :: "deal_count \<Rightarrow> reputation \<Rightarrow> reputation" where
  "bumpDealCount Made r = r\<lparr>dealsMade := dealsMade r + 1\<rparr>"
| "bumpDealCount Kept r = r\<lparr>dealsKept := dealsKept r + 1\<rparr>"
| "bumpDealCount BrokenCount r = r\<lparr>dealsBroken := dealsBroken r + 1\<rparr>"

text \<open>
  \<open>Math.round((rep.trustScore * 0.3) + (baseTrust * 0.7))\<close> with
  \<open>baseTrust = (rep.dealsKept / totalCompleted) * 100\<close>: a quotient, three products and a
  sum, each rounded to a double.
\<close>

definition recalculateTrust :: "reputation \<Rightarrow> reputation" where
  "recalculateTrust r =
     (let totalCompleted = dealsKept r + dealsBroken r in
      if totalCompleted > 0 then
        let baseTrust = fl (fl (of_nat (dealsKept r) / of_nat totalCompleted) * 100)
        in r\<lparr>trustScore :=
               js_round (fl (fl (trustScore r * fl (3 / 10)) + fl (baseTrust * fl (7 / 10))))\<rparr>
      else r)"

definition updateDealCounts :: "string \<Rightarrow> deal_count \<Rightarrow> rep_engine \<Rightarrow> rep_engine" where
  "updateDealCounts agentId kind e =
     e\<lparr>agentReputations :=
         AList.map_entry agentId (\<lambda>r. recalculateTrust (bumpDealCount kind r))
           (agentReputations e)\<rparr>"

datatype alliance_count = Formed | Honored | BrokenAlliance

fun bumpAllianceCount :: "alliance_count \<Rightarrow> reputation \<Rightarrow> reputation" where
  "bumpAllianceCount Formed r = r"
| "bumpAllianceCount Honored r = r\<lparr>alliancesHonored := alliancesHonored r + 1\<rparr>"
| "bumpAllianceCount BrokenAlliance r = r\<lparr>alliancesBroken := alliancesBroken r + 1\<rparr>"

definition updateAllianceCounts :: "string \<Rightarrow> alliance_count \<Rightarrow> rep_engine \<Rightarrow> rep_engine" where
  "updateAllianceCounts agentId kind e =
     e\<lparr>agentReputations := AList.map_entry agentId (bumpAllianceCount kind) (agentReputations e)\<rparr>"

subsection \<open>Betrayals and deals\<close>

definition recordBetrayal :: "nat \<Rightarrow> string \<Rightarrow> string \<Rightarrow> string \<Rightarrow> rep_engine \<Rightarrow> rep_engine" where
  "recordBetrayal now betrayerId victimId ty e =
     (let e1 = e\<lparr>agentReputations :=
                   AList.map_entry betrayerId
                     (\<lambda>r. r\<lparr>betrayals := betrayals r @
                                 [\<lparr>bt_party = victimId, bt_type = ty, bt_timestamp = now\<rparr>],
                             trustScore := max 0 (trustScore r - 10)\<rparr>)
                     (agentReputations e)\<rparr>
      in e1\<lparr>agentReputations :=
              AList.map_entry victimId
                (\<lambda>r. r\<lparr>betrayedBy := betrayedBy r @
                            [\<lparr>bt_party = betrayerId, bt_type = ty, bt_timestamp = now\<rparr>]\<rparr>)
                (agentReputations e1)\<rparr>)"

record deal_input =
  di_id :: "string option"
  di_turn :: nat
  di_proposer :: string
  di_acceptor :: string
  di_terms :: string
  di_type :: string
  di_expiresAt :: "nat option"

text \<open>\<open>gen\<close> is the result of \<open>generateId()\<close>, used when the input carries no id.\<close>

definition recordDeal :: "string \<Rightarrow> nat \<Rightarrow> deal_input \<Rightarrow> rep_engine \<Rightarrow> deal \<times> rep_engine" where
  "recordDeal gen now d e =
     (let dealData =
            \<lparr>d_id = (case di_id d of None \<Rightarrow> gen | Some i \<Rightarrow> if i = [] then gen else i),
             d_turn = di_turn d, d_proposer = di_proposer d, d_acceptor = di_acceptor d,
             d_terms = di_terms d, d_type = di_type d, d_status = Pending, d_createdAt = now,
             d_expiresAt = (case di_expiresAt d of None \<Rightarrow> None
                            | Some x \<Rightarrow> if x = 0 then None else Some x),
             d_fulfilled = AList.update (di_acceptor d) False
                             (AList.update (di_proposer d) False []),
             d_brokenBy = None, d_brokenAt = None, d_breakReason = None,
             d_acceptedAt = None, d_completedAt = None\<rparr>;
          e1 = e\<lparr>deals := AList.update (d_id dealData) dealData (deals e)\<rparr>;
          e2 = updateDealCounts (di_proposer d) Made e1;
          e3 = updateDealCounts (di_acceptor d) Made e2
      in (dealData, e3))"

definition acceptDeal :: "nat \<Rightarrow> string \<Rightarrow> string \<Rightarrow> rep_engine \<Rightarrow> (error + deal) \<times> rep_engine" where
  "acceptDeal now dealId acceptorId e =
     (case map_of (deals e) dealId of
        None \<Rightarrow> (Inl DealNotFound, e)
      | Some d \<Rightarrow>
          if d_acceptor d \<noteq> acceptorId then (Inl NotAuthorized, e)
          else
            let d' = d\<lparr>d_status := Active, d_acceptedAt := Some now\<rparr>
            in (Inr d', e\<lparr>deals := AList.update dealId d' (deals e)\<rparr>))"

definition fulfillDeal :: "nat \<Rightarrow> string \<Rightarrow> string \<Rightarrow> rep_engine \<Rightarrow> bool \<times> rep_engine" where
  "fulfillDeal now dealId agentId e =
     (case map_of (deals e) dealId of
        None \<Rightarrow> (False, e)
      | Some d \<Rightarrow>
          if d_status d \<noteq> Active then (False, e)
          else
            let d1 = d\<lparr>d_fulfilled := AList.update agentId True (d_fulfilled d)\<rparr>
            in if list_all (\<lambda>p. snd p) (d_fulfilled d1) then
                 let d2 = d1\<lparr>d_status := Completed, d_completedAt := Some now\<rparr>;
                     e1 = e\<lparr>deals := AList.update dealId d2 (deals e)\<rparr>;
                     e2 = updateDealCounts (d_proposer d2) Kept e1;
                     e3 = updateDealCounts (d_acceptor d2) Kept e2
                 in (True, e3)
               else (True, e\<lparr>deals := AList.update dealId d1 (deals e)\<rparr>))"

text \<open>\<open>breakDeal\<close> returns \<open>false\<close> (\<open>None\<close>) or the broken deal.\<close>

definition breakDeal ::
  "nat \<Rightarrow> string \<Rightarrow> string \<Rightarrow> string \<Rightarrow> rep_engine \<Rightarrow> deal option \<times> rep_engine" where
  "breakDeal now dealId agentId reason e =
     (case map_of (deals e) dealId of
        None \<Rightarrow> (None, e)
      | Some d \<Rightarrow>
          if d_status d \<noteq> Active \<and> d_status d \<noteq> Pending then (None, e)
          else
            let d' = d\<lparr>d_status := Broken, d_brokenBy := Some agentId, d_brokenAt := Some now,
                       d_breakReason := Some reason\<rparr>;
                e1 = e\<lparr>deals := AList.update dealId d' (deals e)\<rparr>;
                otherParty = (if d_proposer d' = agentId then d_acceptor d' else d_proposer d');
                e2 = recordBetrayal now agentId otherParty (d_type d') e1;
                e3 = updateDealCounts agentId BrokenCount e2;
                e4 = updateDealCounts otherParty Kept e3
            in (Some d', e4))"

subsection \<open>Alliances\<close>

text \<open>\<open>new Set(members)\<close>: the first occurrence of each id, in order.\<close>

fun toSet :: "string list \<Rightarrow> string list" where
  "toSet [] = []"
| "toSet (x # xs) = x # filter (\<lambda>y. y \<noteq> x) (toSet xs)"

record alliance_input =
  ali_id :: "string option"
  ali_name :: "string option"
  ali_members :: "string list"
  ali_type :: "string option"
  ali_expiresAt :: "nat option"

text \<open>
  \<open>gen\<close> is the result of \<open>generateId()\<close> and \<open>dflt\<close> the default name built from the
  number of alliances. Forming an alliance changes no counter of its members.
\<close>

definition formAlliance ::
  "string \<Rightarrow> string \<Rightarrow> nat \<Rightarrow> alliance_input \<Rightarrow> rep_engine \<Rightarrow> alliance \<times> rep_engine" where
  "formAlliance gen dflt now a e =
     (let orElse = (\<lambda>x d. case x of None \<Rightarrow> d | Some v \<Rightarrow> if v = [] then d else v);
          allianceData =
            \<lparr>al_id = orElse (ali_id a) gen, al_name = orElse (ali_name a) dflt,
             al_members = toSet (ali_members a), al_type = orElse (ali_type a) ''defensive'',
             al_formedAt = now,
             al_expiresAt = (case ali_expiresAt a of None \<Rightarrow> None
                             | Some x \<Rightarrow> if x = 0 then None else Some x),
             al_status = Active, al_brokenBy = None, al_brokenAt = None,
             al_breakReason = None\<rparr>;
          e1 = e\<lparr>alliances := AList.update (al_id allianceData) allianceData (alliances e)\<rparr>;
          e2 = foldl (\<lambda>acc memberId. updateAllianceCounts memberId Formed acc) e1 (ali_members a)
      in (allianceData, e2))"

text \<open>\<open>breakAlliance\<close> returns \<open>false\<close> (\<open>None\<close>) or the broken alliance.\<close>

definition breakAlliance ::
  "nat \<Rightarrow> string \<Rightarrow> string \<Rightarrow> string \<Rightarrow> rep_engine \<Rightarrow> alliance option \<times> rep_engine" where
  "breakAlliance now allianceId agentId reason e =
     (case map_of (alliances e) allianceId of
        None \<Rightarrow> (None, e)
      | Some a \<Rightarrow>
          if agentId \<notin> set (al_members a) then (None, e)
          else
            let a' = a\<lparr>al_status := Broken, al_brokenBy := Some agentId, al_brokenAt := Some now,
                       al_breakReason := Some reason\<rparr>;
                e1 = e\<lparr>alliances := AList.update allianceId a' (alliances e)\<rparr>;
                e2 = foldl (\<lambda>acc memberId.
                              if memberId \<noteq> agentId
                              then updateAllianceCounts memberId Honored
                                     (recordBetrayal now agentId memberId ''alliance'' acc)
                              else acc)
                           e1 (al_members a');
                e3 = updateAllianceCounts agentId BrokenAlliance e2
            in (Some a', e3))"

definition leaveAlliance :: "string \<Rightarrow> string \<Rightarrow> rep_engine \<Rightarrow> bool \<times> rep_engine" where
  "leaveAlliance allianceId agentId e =
     (case map_of (alliances e) allianceId of
        None \<Rightarrow> (False, e)
      | Some a \<Rightarrow>
          let a1 = a\<lparr>al_members := filter (\<lambda>m. m \<noteq> agentId) (al_members a)\<rparr>;
              a2 = (if length (al_members a1) < 2 then a1\<lparr>al_status := Dissolved\<rparr> else a1)
          in (True, e\<lparr>alliances := AList.update allianceId a2 (alliances e)\<rparr>))"

definition isAlly :: "string \<Rightarrow> string \<Rightarrow> rep_engine \<Rightarrow> bool" where
  "isAlly agentId1 agentId2 e =
     list_ex (\<lambda>(k, a). al_status a = Active \<and> agentId1 \<in> set (al_members a)
                          \<and> agentId2 \<in> set (al_members a))
             (alliances e)"

subsection \<open>Action analysis\<close>

record action =
  ac_agentId :: string
  ac_type :: string
  ac_target :: "string option"

text \<open>
  The part of \<open>analyzeAction\<close> that a \<open>switch\<close> on the action type selects. An attack
  with no target names the undefined id, which is in no alliance.
\<close>

definition classifyAction :: "nat \<Rightarrow> action \<Rightarrow> rep_engine \<Rightarrow> rep_engine" where
  "classifyAction now act e =
     (let agentId = ac_agentId act;
          onRep = (\<lambda>f e0. e0\<lparr>agentReputations := AList.map_entry agentId f (agentReputations e0)\<rparr>)
      in if ac_type act = ''attack'' then
           let e1 = (case ac_target act of
                       None \<Rightarrow> e
                     | Some target \<Rightarrow>
                         if isAlly agentId target e
                         then recordBetrayal now agentId target ''attack-ally'' e else e)
           in onRep (\<lambda>r. r\<lparr>aggressionScore := min 100 (aggressionScore r + 2)\<rparr>) e1
         else if ac_type act = ''negotiate'' then
           onRep (\<lambda>r. r\<lparr>diplomacyScore := min 100 (diplomacyScore r + 1)\<rparr>) e
         else if ac_type act = ''propose-deal'' then
           onRep (\<lambda>r. r\<lparr>diplomacyScore := min 100 (diplomacyScore r + 2)\<rparr>) e
         else if ac_type act = ''break-deal'' then
           onRep (\<lambda>r. r\<lparr>trustScore := max 0 (trustScore r - 15)\<rparr>) e
         else if ac_type act = ''keep-deal'' then
           onRep (\<lambda>r. r\<lparr>trustScore := min 100 (trustScore r + 5),
                         consistencyScore := min 100 (consistencyScore r + 2)\<rparr>) e
         else e)"

definition analyzeAction :: "nat \<Rightarrow> action \<Rightarrow> rep_engine \<Rightarrow> rep_engine" where
  "analyzeAction now act e =
     (case map_of (agentReputations e) (ac_agentId act) of
        None \<Rightarrow> e
      | Some _ \<Rightarrow>
          let e1 = classifyAction now act e
          in e1\<lparr>agentReputations :=
                  AList.map_entry (ac_agentId act)
                    (\<lambda>r. let h = r_history r @
                                   [\<lparr>he_type = ac_type act, he_target = ac_target act,
                                     he_timestamp = now\<rparr>]
                         in r\<lparr>r_history := (if length h > 100 then drop (length h - 100) h else h),
                               lastUpdated := now\<rparr>)
                    (agentReputations e1)\<rparr>)"

subsection \<open>Sequences of calls\<close>

text \<open>
  Every method that writes to the ledger, as a value, so that a history of the ledger is
  a list of calls. A call that throws or returns \<open>false\<close> leaves the ledger as it was.
\<close>

datatype ledger_call =
    InitializeAgent nat string string
  | RecordDeal string nat deal_input
  | AcceptDeal nat string string
  | FulfillDeal nat string string
  | BreakDeal nat string string string
  | RecordBetrayal nat string string string
  | FormAlliance string string nat alliance_input
  | BreakAlliance nat string string string
  | LeaveAlliance string string
  | AnalyzeAction nat action
  | UpdateDealCounts string deal_count

fun call :: "ledger_call \<Rightarrow> rep_engine \<Rightarrow> rep_engine" where
  "call (InitializeAgent now a n) e = initializeAgent now a n e"
| "call (RecordDeal gen now d) e = snd (recordDeal gen now d e)"
| "call (AcceptDeal now d a) e = snd (acceptDeal now d a e)"
| "call (FulfillDeal now d a) e = snd (fulfillDeal now d a e)"
| "call (BreakDeal now d a r) e = snd (breakDeal now d a r e)"
| "call (RecordBetrayal now b v t) e = recordBetrayal now b v t e"
| "call (FormAlliance gen dflt now a) e = snd (formAlliance gen dflt now a e)"
| "call (BreakAlliance now al a r) e = snd (breakAlliance now al a r e)"
| "call (LeaveAlliance al a) e = snd (leaveAlliance al a e)"
| "call (AnalyzeAction now act) e = analyzeAction now act e"
| "call (UpdateDealCounts a k) e = updateDealCounts a k e"

definition calls :: "ledger_call list \<Rightarrow> rep_engine \<Rightarrow> rep_engine" where
  "calls cs e = foldl (\<lambda>acc c. call c acc) e cs"

definition trustInRange :: "rep_engine \<Rightarrow> bool" where
  "trustInRange e = list_all (\<lambda>(k, r). 0 \<le> trustScore r \<and> trustScore r \<le> 100) (agentReputations e)"

section \<open>Example states\<close>

text \<open>Concrete inputs on which the theorems below are instantiated.\<close>

definition lobbyGame :: game_state where
  "lobbyGame = newGameState ''game-1'' 0"

definition defendMove :: move where
  "defendMove = \<lparr>mv_type = ''defend'', mv_from = None, mv_to = None, mv_armies = JNum 3\<rparr>"

definition nineAgent :: agent where
  "nineAgent =
     \<lparr>a_id = ''agent-1'', a_name = ''Alexander'', a_color = ''#dc143c'', a_personality = None,
      a_territories = [''t1'', ''t2'', ''t3'', ''t4'', ''t5'', ''t6'', ''t7'', ''t8'', ''t9''],
      a_armies = 27, a_resources = 12, a_eliminated = False, a_joinTime = 0\<rparr>"

definition northAmerica :: continent where
  "northAmerica = \<lparr>c_name = ''North America'', c_bonus = 5, c_territories = [''na1'']\<rparr>"

definition reinforcementGame :: game_state where
  "reinforcementGame =
     (newGameState ''game-2'' 0)
       \<lparr>agents := [(''agent-1'', nineAgent)], continents := Some [(''na'', northAmerica)]\<rparr>"

text \<open>
  A map of four territories in two continents, \<open>t2\<close> and \<open>t4\<close> with bonus 5, \<open>t1\<close> and \<open>t3\<close>
  with bonus 2, set up for two participants and distributed (the definitions it uses
  follow below): \<open>agent-1\<close> receives \<open>t2\<close> and \<open>t4\<close>, \<open>agent-2\<close> the other two, and each 10
  resources.
\<close>

definition bonusContinents :: "(string \<times> continent) list" where
  "bonusContinents =
     [(''even'', \<lparr>c_name = ''Even'', c_bonus = 5, c_territories = [''t2'', ''t4'']\<rparr>),
      (''odd'', \<lparr>c_name = ''Odd'', c_bonus = 2, c_territories = [''t1'', ''t3'']\<rparr>)]"

definition bonusAgent :: agent where
  "bonusAgent =
     \<lparr>a_id = ''agent-1'', a_name = ''agent-1'', a_color = ''#000000'', a_personality = None,
      a_territories = [''t2'', ''t4''], a_armies = 6, a_resources = 10, a_eliminated = False,
      a_joinTime = 1\<rparr>"

text \<open>
  A toy map of four territories, each its own continent with no bonus, and three
  participants: \<open>agent-1\<close> holds \<open>t1\<close> (10 armies) and \<open>t4\<close>, \<open>agent-2\<close> holds \<open>t2\<close>
  (1 army), \<open>agent-3\<close> holds \<open>t3\<close>.
\<close>

definition mkTerritory :: "string \<Rightarrow> string option \<Rightarrow> rat \<Rightarrow> string list \<Rightarrow> territory" where
  "mkTerritory tid own n nbs =
     \<lparr>t_id = tid, t_name = tid, t_region = ''R'', t_owner = own, t_armies = n,
      t_resources = 1, t_neighbors = nbs, t_continent = tid\<rparr>"

definition mkAgent :: "string \<Rightarrow> string list \<Rightarrow> rat \<Rightarrow> bool \<Rightarrow> agent" where
  "mkAgent aid ts n el =
     \<lparr>a_id = aid, a_name = aid, a_color = ''#000000'', a_personality = None,
      a_territories = ts, a_armies = n, a_resources = 10, a_eliminated = el, a_joinTime = 0\<rparr>"

definition toyTerritories :: "(string \<times> territory) list" where
  "toyTerritories =
     [(''t1'', mkTerritory ''t1'' (Some ''agent-1'') 10 [''t2'', ''t4'']),
      (''t2'', mkTerritory ''t2'' (Some ''agent-2'') 1 [''t1'', ''t3'']),
      (''t3'', mkTerritory ''t3'' (Some ''agent-3'') 3 [''t2'', ''t4'']),
      (''t4'', mkTerritory ''t4'' (Some ''agent-1'') 3 [''t3'', ''t1''])]"

definition toyContinents :: "(string \<times> continent) list" where
  "toyContinents =
     map (\<lambda>tid. (tid, \<lparr>c_name = tid, c_bonus = 0, c_territories = [tid]\<rparr>))
         [''t1'', ''t2'', ''t3'', ''t4'']"

definition toyGame :: game_state where
  "toyGame =
     (newGameState ''toy'' 0)
       \<lparr>phase := Commit,
        agents := [(''agent-1'', mkAgent ''agent-1'' [''t1'', ''t4''] 13 False),
                   (''agent-2'', mkAgent ''agent-2'' [''t2''] 1 False),
                   (''agent-3'', mkAgent ''agent-3'' [''t3''] 3 False)],
        territories := toyTerritories,
        continents := Some toyContinents\<rparr>"

definition attackMove :: move where
  "attackMove = \<lparr>mv_type = ''attack'', mv_from = Some ''t1'', mv_to = Some ''t2'',
                  mv_armies = JNum 10\<rparr>"

definition fractionalMove :: move where
  "fractionalMove = \<lparr>mv_type = ''defend'', mv_from = None, mv_to = None,
                      mv_armies = JNum (5 / 2)\<rparr>"

text \<open>
  A ledger of three participants after one deal between \<open>agent-1\<close> and \<open>agent-2\<close> was
  proposed and accepted and the two formed an alliance.
\<close>

definition toyDeal :: deal_input where
  "toyDeal = \<lparr>di_id = Some ''deal-1'', di_turn = 1, di_proposer = ''agent-1'',
               di_acceptor = ''agent-2'', di_terms = ''peace'', di_type = ''non-aggression'',
               di_expiresAt = None\<rparr>"

definition toyAlliance :: alliance_input where
  "toyAlliance = \<lparr>ali_id = Some ''alliance-1'', ali_name = None,
                   ali_members = [''agent-1'', ''agent-2''], ali_type = None,
                   ali_expiresAt = None\<rparr>"

definition toyCalls :: "ledger_call list" where
  "toyCalls =
     [InitializeAgent 0 ''agent-1'' ''Alexander'',
      InitializeAgent 0 ''agent-2'' ''Bismarck'',
      InitializeAgent 0 ''agent-3'' ''Iago'',
      RecordDeal ''gen-1'' 1 toyDeal,
      AcceptDeal 2 ''deal-1'' ''agent-2'',
      FormAlliance ''gen-2'' ''Alliance 1'' 3 toyAlliance]"

definition toyLedger :: rep_engine where
  "toyLedger = calls toyCalls newReputationEngine"

definition freshReputation :: "string \<Rightarrow> string \<Rightarrow> nat \<Rightarrow> reputation" where
  "freshReputation aid name made =
     \<lparr>r_agentId = aid, r_name = name, trustScore = 50, dealsMade = made, dealsKept = 0,
      dealsBroken = 0, alliancesHonored = 0, alliancesBroken = 0, betrayals = [],
      betrayedBy = [], consistencyScore = 50, aggressionScore = 50, diplomacyScore = 50,
      r_history = [], lastUpdated = 0\<rparr>"

definition activeDeal :: deal where
  "activeDeal =
     \<lparr>d_id = ''deal-1'', d_turn = 1, d_proposer = ''agent-1'', d_acceptor = ''agent-2'',
      d_terms = ''peace'', d_type = ''non-aggression'', d_status = Active, d_createdAt = 1,
      d_expiresAt = None, d_fulfilled = [(''agent-1'', False), (''agent-2'', False)],
      d_brokenBy = None, d_brokenAt = None, d_breakReason = None, d_acceptedAt = Some 2,
      d_completedAt = None\<rparr>"

definition pairAlliance :: alliance where
  "pairAlliance =
     \<lparr>al_id = ''alliance-1'', al_name = ''Alliance 1'', al_members = [''agent-1'', ''agent-2''],
      al_type = ''defensive'', al_formedAt = 3, al_expiresAt = None, al_status = Active,
      al_brokenBy = None, al_brokenAt = None, al_breakReason = None\<rparr>"

text \<open>The reputation of \<open>agent-1\<close> after it broke the deal of the toy ledger.\<close>

definition brokenReputation :: reputation where
  "brokenReputation =
     (freshReputation ''agent-1'' ''Alexander'' 1)
       \<lparr>trustScore := 12, dealsBroken := 1,
        betrayals := [\<lparr>bt_party = ''agent-2'', bt_type = ''non-aggression'', bt_timestamp = 4\<rparr>]\<rparr>"

text \<open>The toy match with the commitments of \<open>agent-1\<close> and \<open>agent-2\<close> stored.\<close>

definition mkCommitment :: "string \<Rightarrow> move \<Rightarrow> string \<Rightarrow> commitment" where
  "mkCommitment aid m h =
     \<lparr>cm_agentId = aid, cm_move = m, cm_signature = ''sig'', cm_timestamp = 5, cm_hash = h\<rparr>"

definition committedGame :: game_state where
  "committedGame =
     toyGame\<lparr>moves := [(''agent-1'', mkCommitment ''agent-1'' defendMove ''h1''),
                       (''agent-2'', mkCommitment ''agent-2'' defendMove ''h2'')]\<rparr>"

definition otherMoves :: "(string \<times> commitment) list" where
  "otherMoves = [(''agent-1'', mkCommitment ''agent-1'' defendMove ''h1''),
                 (''agent-2'', mkCommitment ''agent-2'' attackMove ''h3'')]"

text \<open>
  Saved matches of five territories of which three are listed for \<open>agent-1\<close>, with the
  \<open>eliminated\<close> flags of \<open>agent-1\<close> and \<open>agent-3\<close> as given, and the matches that
  \<open>fromJSON\<close> makes of them: \<open>agent-1\<close> eliminated, \<open>agent-1\<close> and \<open>agent-3\<close> eliminated,
  nobody eliminated. In the last saved match \<open>agent-1\<close> lists four of seven territories.
\<close>

definition savedMatch :: "bool \<Rightarrow> bool \<Rightarrow> saved_game" where
  "savedMatch e1 e3 =
     \<lparr>sg_gameId = ''dominated'', sg_phase = Resolve, sg_turn = 1, sg_maxTurns = 10,
      sg_agents = [(''agent-1'', mkAgent ''agent-1'' [''t1'', ''t2'', ''t3''] 9 e1),
                   (''agent-2'', mkAgent ''agent-2'' [''t4''] 3 False),
                   (''agent-3'', mkAgent ''agent-3'' [''t5''] 3 e3)],
      sg_territories =
        [(''t1'', mkTerritory ''t1'' (Some ''agent-1'') 3 []),
         (''t2'', mkTerritory ''t2'' (Some ''agent-1'') 3 []),
         (''t3'', mkTerritory ''t3'' (Some ''agent-1'') 3 []),
         (''t4'', mkTerritory ''t4'' (Some ''agent-2'') 3 []),
         (''t5'', mkTerritory ''t5'' (Some ''agent-3'') 3 [])],
      sg_conversations = [], sg_history = [], sg_winner = None, sg_lastActivity = 0\<rparr>"

definition dominatedGame :: game_state where
  "dominatedGame = fromJSON 0 (savedMatch True False)"

definition survivorGame :: game_state where
  "survivorGame = fromJSON 0 (savedMatch True True)"

definition dominantGame :: game_state where
  "dominantGame = fromJSON 0 (savedMatch False False)"

definition closeMatch :: saved_game where
  "closeMatch =
     \<lparr>sg_gameId = ''close'', sg_phase = Resolve, sg_turn = 1, sg_maxTurns = 10,
      sg_agents = [(''agent-1'', mkAgent ''agent-1'' [''t1'', ''t2'', ''t3'', ''t4''] 12 False),
                   (''agent-2'', mkAgent ''agent-2'' [''t5'', ''t6'', ''t7''] 9 False)],
      sg_territories =
        map (\<lambda>tid. (tid, mkTerritory tid
                           (Some (if tid \<in> set [''t5'', ''t6'', ''t7''] then ''agent-2''
                                  else ''agent-1'')) 3 []))
            [''t1'', ''t2'', ''t3'', ''t4'', ''t5'', ''t6'', ''t7''],
      sg_conversations = [], sg_history = [], sg_winner = None, sg_lastActivity = 0\<rparr>"

definition closeGame :: game_state where
  "closeGame = fromJSON 0 closeMatch"

text \<open>
  Random sources: the first favours the attacker of the first battle, the second its
  defender. Their values are doubles.
\<close>

definition attackerLucky :: "nat \<Rightarrow> rat" where
  "attackerLucky k = (if k = 0 then 3 / 4 else 1 / 4)"

definition defenderLucky :: "nat \<Rightarrow> rat" where
  "defenderLucky k = (if k = 0 then 0 else 1 / 2)"

text \<open>
  The toy match as its set-up leaves it, then after one distribution, then after a
  second one with other random numbers.
\<close>

definition toyMap :: map_definition where
  "toyMap =
     \<lparr>md_territories =
        [mkTerritory ''t1'' None 0 [''t2'', ''t4''], mkTerritory ''t2'' None 0 [''t1'', ''t3''],
         mkTerritory ''t3'' None 0 [''t2'', ''t4''], mkTerritory ''t4'' None 0 [''t3'', ''t1'']],
      md_continents = toyContinents\<rparr>"

definition mkAgentInput :: "string \<Rightarrow> agent_input" where
  "mkAgentInput aid = \<lparr>ai_id = aid, ai_name = aid, ai_color = ''#000000'', ai_personality = None\<rparr>"

definition pristineToy :: game_state where
  "pristineToy =
     snd (addAgent 3 (mkAgentInput ''agent-3'')
       (snd (addAgent 2 (mkAgentInput ''agent-2'')
         (snd (addAgent 1 (mkAgentInput ''agent-1'')
           (snd (initializeMap (Some toyMap) (newGameState ''toy'' 0))))))))"

definition zeroRnd :: "nat \<Rightarrow> rat" where
  "zeroRnd k = 0"

definition halfRnd :: "nat \<Rightarrow> rat" where
  "halfRnd k = 1 / 2"

definition distributedToy :: game_state where
  "distributedToy = snd (distributeTerritories zeroRnd pristineToy)"

definition twiceToy :: game_state where
  "twiceToy = snd (distributeTerritories halfRnd distributedToy)"

text \<open>The toy match at its last turn.\<close>

definition lastTurnGame :: game_state where
  "lastTurnGame = toyGame\<lparr>turn := 10\<rparr>"

text \<open>The two-continent map after set-up and distribution.\<close>

definition bonusGame :: game_state where
  "bonusGame =
     snd (distributeTerritories zeroRnd
       (snd (addAgent 2 (mkAgentInput ''agent-2'')
         (snd (addAgent 1 (mkAgentInput ''agent-1'')
           (snd (initializeMap (Some (toyMap\<lparr>md_continents := bonusContinents\<rparr>))
                  (newGameState ''bonus'' 0))))))))"

text \<open>
  The distributed toy map in the resolve phase, with one revealed attack of \<open>agent-1\<close> from
  \<open>t1\<close> on \<open>t3\<close>.
\<close>

definition battleToy :: game_state where
  "battleToy =
     distributedToy\<lparr>phase := Resolve,
                    revealedMoves :=
                      [(''agent-1'',
                        commitment.extend
                          (mkCommitment ''agent-1''
                             \<lparr>mv_type = ''attack'', mv_from = Some ''t1'', mv_to = Some ''t3'',
                              mv_armies = JNum 3\<rparr> ''h1'')
                          \<lparr>rv_revealedAt = 6\<rparr>)]\<rparr>"

text \<open>
  One turn of a match in which a single participant commits a move: commit, reveal,
  resolve, end of turn. In the first turn after the distribution of the toy map
  \<open>agent-1\<close> attacks \<open>t3\<close>, which \<open>agent-2\<close> holds with 3 armies, with 150 armies and wins;
  in the second turn \<open>agent-2\<close> attacks \<open>t3\<close> with 1 army and loses.
\<close>

definition playTurn :: "string \<Rightarrow> move \<Rightarrow> (nat \<Rightarrow> rat) \<Rightarrow> game_state \<Rightarrow> game_state" where
  "playTurn agentId m rnd s =
     (let s1 = setPhase 10 Commit s;
          s2 = snd (commitMove (\<lambda>_. ''h'') 11 agentId m ''sig'' s1);
          s3 = setPhase 12 Resolve s2;
          s4 = snd (revealMoves 13 s3);
          s5 = snd (resolveBattles rnd s4)
      in endTurn 14 s5)"

definition bigAttack :: move where
  "bigAttack = \<lparr>mv_type = ''attack'', mv_from = Some ''t1'', mv_to = Some ''t3'',
                 mv_armies = JNum 150\<rparr>"

definition counterAttack :: move where
  "counterAttack = \<lparr>mv_type = ''attack'', mv_from = Some ''t4'', mv_to = Some ''t3'',
                     mv_armies = JNum 1\<rparr>"

definition conqueredToy :: game_state where
  "conqueredToy = playTurn ''agent-1'' bigAttack attackerLucky distributedToy"

definition repelledToy :: game_state where
  "repelledToy = playTurn ''agent-2'' counterAttack defenderLucky conqueredToy"

text \<open>
  The toy ledger after \<open>agent-1\<close> broke the deal, and after \<open>agent-2\<close> accepted the broken
  deal once more.
\<close>

definition brokenLedger :: rep_engine where
  "brokenLedger = snd (breakDeal 4 ''deal-1'' ''agent-1'' ''betrayal'' toyLedger)"

definition reacceptedLedger :: rep_engine where
  "reacceptedLedger = snd (acceptDeal 5 ''deal-1'' ''agent-2'' brokenLedger)"

section \<open>Auxiliary predicates\<close>

definition inRange :: "reputation \<Rightarrow> bool" where
  "inRange r = (0 \<le> trustScore r \<and> trustScore r \<le> 100)"

text \<open>
  The words of the claims on the data of a state. A participant fully owns a continent
  when every territory id of the continent is a territory whose owner field names the
  participant. A participant holds at least 60% of the territories when ten times the
  number it lists is no less than six times the number of territories, and it lists at
  least one (which says something only on a map without territories).
\<close>

definition fullyOwned :: "game_state \<Rightarrow> string \<Rightarrow> continent \<Rightarrow> bool" where
  "fullyOwned s p c =
     (\<forall>tid \<in> set (c_territories c). \<exists>t. map_of (territories s) tid = Some t \<and> t_owner t = Some p)"

definition holdsSixtyPercent :: "game_state \<Rightarrow> agent \<Rightarrow> bool" where
  "holdsSixtyPercent s a =
     (0 < length (a_territories a)
      \<and> 6 * length (territories s) \<le> 10 * length (a_territories a))"

definition nonEmptyTerritory :: "game_state \<Rightarrow> string option \<Rightarrow> bool" where
  "nonEmptyTerritory s k = (\<exists>tid. k = Some tid \<and> tid \<noteq> [] \<and> tid \<in> fst ` set (territories s))"

text \<open>
  The partition invariant, stated on two views of the state: the owner of each territory
  id (\<open>None\<close> for an id that is no territory, \<open>Some None\<close> for an unowned territory) and
  the territory list of each participant id. Every owner is a registered participant, and
  a participant's list is duplicate-free and holds exactly the territories whose owner
  field names that participant. \<open>pristine\<close> is the state of a match that was set up and
  not yet distributed.
\<close>

definition ownerOf :: "game_state \<Rightarrow> string \<Rightarrow> string option option" where
  "ownerOf s tid = map_option t_owner (map_of (territories s) tid)"

definition listOf :: "game_state \<Rightarrow> string \<Rightarrow> string list option" where
  "listOf s aid = map_option a_territories (map_of (agents s) aid)"

definition consistent ::
  "(string \<Rightarrow> string option option) \<Rightarrow> (string \<Rightarrow> string list option) \<Rightarrow> bool" where
  "consistent own lst =
     ((\<forall>tid a. own tid = Some (Some a) \<longrightarrow> lst a \<noteq> None)
      \<and> (\<forall>aid ts. lst aid = Some ts \<longrightarrow>
            distinct ts \<and> (\<forall>tid. tid \<in> set ts \<longleftrightarrow> own tid = Some (Some aid))))"

definition partitionInvariant :: "game_state \<Rightarrow> bool" where
  "partitionInvariant s =
     (distinct (map fst (territories s)) \<and> distinct (map fst (agents s))
      \<and> consistent (ownerOf s) (listOf s))"

definition unowned :: "game_state \<Rightarrow> string list" where
  "unowned s = map fst (filter (\<lambda>(tid, t). t_owner t = None) (territories s))"

definition ownedLists :: "game_state \<Rightarrow> string list" where
  "ownedLists s = concat (map (\<lambda>(aid, a). a_territories a) (agents s))"

definition pristine :: "game_state \<Rightarrow> bool" where
  "pristine s =
     (distinct (map fst (territories s)) \<and> distinct (map fst (agents s))
      \<and> list_all (\<lambda>(tid, t). t_owner t = None) (territories s)
      \<and> list_all (\<lambda>(aid, a). a_territories a = []) (agents s))"

definition unitInterval :: "(nat \<Rightarrow> rat) \<Rightarrow> bool" where
  "unitInterval rnd = (\<forall>k. 0 \<le> rnd k \<and> rnd k < 1)"

section \<open>Association lists and sorting\<close>

lemma map_of_map_entry_if:
  "map_of (AList.map_entry k f xs) k' =
     (if k' = k then map_option f (map_of xs k) else map_of xs k')"
  by (induction xs) auto

lemma keys_map_entry [simp]: "map fst (AList.map_entry k f xs) = map fst xs"
  by (induction xs) auto

lemma map_of_keys: "(\<exists>v. map_of xs k = Some v) = (k \<in> set (map fst xs))"
  using map_of_eq_None_iff [of xs k] by auto

lemma sort_key_head:
  assumes "sort_key f xs = w # ws"
  shows "w \<in> set xs \<and> (\<forall>a \<in> set xs. f w \<le> f a)"
proof -
  have "sorted (map f (w # ws))" using assms sorted_sort_key [of f xs] by simp
  moreover have "set (w # ws) = set xs" using assms set_sort [of f xs] by simp
  ultimately show ?thesis by auto
qed

lemma sort_key_nonempty: "xs \<noteq> [] \<Longrightarrow> sort_key f xs \<noteq> []"
  using length_sort [of f xs] by (metis length_0_conv)

lemma set_map_entry_subset:
  "(k', v') \<in> set (AList.map_entry k f xs) \<Longrightarrow> (k', v') \<in> set xs \<or> (\<exists>v. (k, v) \<in> set xs \<and> v' = f v)"
  by (induction xs) (auto split: if_splits)

lemma set_update_subset:
  "(k', v') \<in> set (AList.update k v xs) \<Longrightarrow> (k', v') \<in> set xs \<or> v' = v"
  by (induction xs) (auto split: if_splits)

section \<open>Rounding to doubles\<close>

text \<open>
  The exponent grows with the magnitude, so a double above a number is a multiple of the
  spacing at that number: rounding never crosses a double. Rounding keeps the sign.
\<close>

lemma up_ge: "e \<le> up n x e"
proof (induction n arbitrary: x e)
  case 0 then show ?case by simp
next
  case (Suc n)
  have "e + 1 \<le> up n (x / 2) (e + 1)" by (rule Suc.IH)
  then show ?case by simp
qed

lemma down_le: "down n x e \<le> e"
proof (induction n arbitrary: x e)
  case 0 then show ?case by simp
next
  case (Suc n)
  have "down n (2 * x) (e - 1) \<le> e - 1" by (rule Suc.IH)
  then show ?case by simp
qed

lemma up_mono: "x \<le> y \<Longrightarrow> up n x e \<le> up n y e"
proof (induction n arbitrary: x y e)
  case 0 then show ?case by simp
next
  case (Suc n)
  show ?case
  proof (cases "2 \<le> x")
    case True
    with Suc.prems have "2 \<le> y" by simp
    moreover have "up n (x / 2) (e + 1) \<le> up n (y / 2) (e + 1)"
      using Suc.prems by (intro Suc.IH) simp
    ultimately show ?thesis using True by simp
  next
    case False
    have "e \<le> up (Suc n) y e" by (rule up_ge)
    with False show ?thesis by simp
  qed
qed

lemma down_mono: "x \<le> y \<Longrightarrow> down n x e \<le> down n y e"
proof (induction n arbitrary: x y e)
  case 0 then show ?case by simp
next
  case (Suc n)
  show ?case
  proof (cases "y < 1")
    case True
    with Suc.prems have "x < 1" by simp
    moreover have "down n (2 * x) (e - 1) \<le> down n (2 * y) (e - 1)"
      using Suc.prems by (intro Suc.IH) simp
    ultimately show ?thesis using True by simp
  next
    case False
    have "down (Suc n) x e \<le> e" by (rule down_le)
    with False show ?thesis by simp
  qed
qed

lemma exponent_mono:
  assumes "0 \<le> x" and "x \<le> y"
  shows "exponent x \<le> exponent y"
proof (cases "1 \<le> x")
  case True
  with assms have "1 \<le> y" by simp
  with True assms show ?thesis by (simp add: exponent_def up_mono)
next
  case False
  show ?thesis
  proof (cases "1 \<le> y")
    case True
    have "down 1022 x 0 \<le> 0" by (rule down_le)
    also have "0 \<le> up 1023 y 0" by (rule up_ge)
    finally show ?thesis using False True assms by (simp add: exponent_def)
  next
    case n: False
    with False assms show ?thesis by (simp add: exponent_def down_mono)
  qed
qed

lemma roundHalfEven_le:
  assumes "x \<le> of_int m"
  shows "roundHalfEven x \<le> m"
proof -
  have below: "\<lfloor>x\<rfloor> \<le> m" using assms by (simp add: floor_le_iff)
  show ?thesis
  proof (cases "\<lfloor>x\<rfloor> = m")
    case True
    then have "x - of_int \<lfloor>x\<rfloor> \<le> 0" using assms by simp
    then show ?thesis using True by (simp add: roundHalfEven_def Let_def)
  next
    case False
    with below have "\<lfloor>x\<rfloor> + 1 \<le> m" by simp
    then show ?thesis by (simp add: roundHalfEven_def Let_def)
  qed
qed

lemma roundHalfEven_nonneg: "0 \<le> x \<Longrightarrow> 0 \<le> roundHalfEven x"
  by (simp add: roundHalfEven_def Let_def)

lemma fl_nonneg: "0 \<le> x \<Longrightarrow> 0 \<le> fl x"
  by (simp add: fl_def Let_def roundHalfEven_nonneg)

lemma fl_le_double:
  assumes x: "0 \<le> x" and le: "x \<le> c" and c: "fl c = c"
  shows "fl x \<le> c"
proof (cases "x = 0")
  case True
  with x le show ?thesis by (simp add: fl_def)
next
  case False
  with x le have c0: "c \<noteq> 0" by auto
  define ux :: rat where "ux = 2 powi (exponent x - 52)"
  define uc :: rat where "uc = 2 powi (exponent c - 52)"
  define k where "k = nat (exponent c - exponent x)"
  define m where "m = roundHalfEven (c / uc) * 2 ^ k"
  have ux: "0 < ux" by (simp add: ux_def)
  have "exponent x \<le> exponent c" using x le by (rule exponent_mono)
  then have "exponent c - 52 = (exponent x - 52) + int k" by (simp add: k_def)
  then have "uc = 2 powi ((exponent x - 52) + int k)" by (simp only: uc_def)
  also have "\<dots> = ux * 2 powi (int k)"
    unfolding ux_def by (rule power_int_add) simp
  finally have uc: "uc = ux * 2 ^ k" by simp
  have "c = of_int (roundHalfEven (c / uc)) * uc"
    using c c0 by (simp add: fl_def Let_def uc_def)
  also have "\<dots> = of_int (roundHalfEven (c / uc)) * (2 ^ k * ux)"
    by (simp only: uc mult.commute)
  also have "\<dots> = of_int m * ux" by (simp add: m_def)
  finally have cm: "c = of_int m * ux" .
  then have "x / ux \<le> of_int m" using le ux by (simp add: divide_le_eq)
  then have "roundHalfEven (x / ux) \<le> m" by (rule roundHalfEven_le)
  then have "of_int (roundHalfEven (x / ux)) * ux \<le> of_int m * ux"
    using ux by (simp add: mult_right_mono)
  then show ?thesis using False cm by (simp add: fl_def Let_def ux_def)
qed

lemma roundHalfEven_ge:
  assumes "of_int m \<le> x"
  shows "m \<le> roundHalfEven x"
proof -
  have "m \<le> \<lfloor>x\<rfloor>" using assms by (simp add: le_floor_iff)
  then show ?thesis by (simp add: roundHalfEven_def Let_def)
qed

lemma roundHalfEven_below:
  assumes "x < of_int m - 1 / 2"
  shows "roundHalfEven x \<le> m - 1"
proof -
  have "x < of_int m" using assms by simp
  then have below: "\<lfloor>x\<rfloor> \<le> m - 1" by (simp add: floor_less_iff)
  show ?thesis
  proof (cases "\<lfloor>x\<rfloor> = m - 1")
    case True
    then have "x - of_int \<lfloor>x\<rfloor> < 1 / 2" using assms by simp
    then show ?thesis using True by (simp add: roundHalfEven_def Let_def)
  next
    case False
    with below have "\<lfloor>x\<rfloor> + 1 \<le> m - 1" by simp
    then show ?thesis by (simp add: roundHalfEven_def Let_def)
  qed
qed

lemma up_lower: "1 \<le> x \<Longrightarrow> 2 powi (up n x e - e) \<le> x"
proof (induction n arbitrary: x e)
  case 0 then show ?case by simp
next
  case (Suc n)
  show ?case
  proof (cases "2 \<le> x")
    case True
    then have "1 \<le> x / 2" by simp
    from Suc.IH [OF this, of "e + 1"] have "2 powi (up n (x / 2) (e + 1) - (e + 1)) \<le> x / 2" .
    moreover have "(2::rat) powi (up n (x / 2) (e + 1) - e) = 2 powi (up n (x / 2) (e + 1) - (e + 1)) * 2"
      using power_int_add [of "2::rat" "up n (x / 2) (e + 1) - (e + 1)" 1] by simp
    ultimately show ?thesis using True by simp
  next
    case False
    with Suc.prems show ?thesis by simp
  qed
qed

lemma fl_ge_one:
  assumes "1 \<le> x"
  shows "1 \<le> fl x"
proof -
  define e where "e = exponent x"
  define u :: rat where "u = 2 powi (e - 52)"
  have e: "e = up 1023 x 0" using assms by (simp add: e_def exponent_def)
  have e0: "0 \<le> e" unfolding e by (rule up_ge)
  have u: "0 < u" by (simp add: u_def)
  have p: "2 powi e \<le> x" using up_lower [OF assms, of 1023 0] by (simp add: e)
  have "(2::rat) powi e = 2 powi (e - 52) * 2 powi 52"
    using power_int_add [of "2::rat" "e - 52" 52] by simp
  then have pe: "(2::rat) powi e = of_int (2 ^ 52) * u" by (simp add: u_def)
  then have "of_int (2 ^ 52) \<le> x / u" using p u by (simp add: le_divide_eq)
  then have "2 ^ 52 \<le> roundHalfEven (x / u)" by (rule roundHalfEven_ge)
  then have "(of_int (2 ^ 52) :: rat) \<le> of_int (roundHalfEven (x / u))" by (simp only: of_int_le_iff)
  then have "of_int (2 ^ 52) * u \<le> of_int (roundHalfEven (x / u)) * u"
    using u by (simp only: mult_le_cancel_right_pos)
  then have "2 powi e \<le> fl x" using assms unfolding pe by (simp add: fl_def Let_def u_def e_def)
  moreover have "(1::rat) \<le> 2 powi e" using e0 by (simp add: one_le_power_int)
  ultimately show ?thesis by simp
qed

lemma exponent_half:
  assumes "1 / 2 \<le> x" and "x < 1"
  shows "exponent x = - 1"
proof -
  have c: "x < 1" "\<not> 2 * x < 1" using assms by simp_all
  have "down (Suc (Suc 1020)) x 0 = 0 - 1" by (simp only: down.simps c if_True if_False)
  then have "down (Suc (Suc 1020)) x 0 = - 1" by (simp only: diff_0)
  moreover have "(1022::nat) = Suc (Suc 1020)" by simp
  ultimately have "down 1022 x 0 = - 1" by (simp only:)
  moreover have "\<not> 1 \<le> \<bar>x\<bar>" "\<bar>x\<bar> = x" using assms by simp_all
  ultimately show ?thesis by (simp only: exponent_def if_False)
qed

lemma fl_half:
  assumes "1 / 2 \<le> x" and "x < 1"
  shows "fl x = of_int (roundHalfEven (x * 9007199254740992)) / 9007199254740992"
proof -
  have "(2::rat) powi (- 53) = 1 / 2 ^ 53" by (simp add: power_int_minus field_simps)
  also have "\<dots> = 1 / 9007199254740992" by simp
  finally have "(2::rat) powi (- 53) = 1 / 9007199254740992" .
  then show ?thesis using assms by (simp add: fl_def exponent_half Let_def)
qed

lemma fl_sixty:
  "fl (6 / 10) = 5404319552844595 / 9007199254740992"
  "fl (3 / 5) = 5404319552844595 / 9007199254740992"
  "fl (1 / 2) = 1 / 2"
  by code_simp+

text \<open>
  The domination test in doubles, \<open>length / total >= 0.6\<close>, decides whether the exact
  share is at least 6/10 on every map of no more than \<open>2^51\<close> territories.
\<close>

lemma share_in_doubles:
  fixes k n :: nat
  assumes n: "0 < n" "n \<le> 2 ^ 51"
  shows "(fl (6 / 10) \<le> fl (of_nat k / of_nat n)) = ((6::rat) / 10 \<le> of_nat k / of_nat n)"
proof -
  define x :: rat where "x = of_nat k / of_nat n"
  have x0: "0 \<le> x" by (simp add: x_def)
  show ?thesis
  proof (cases "6 / 10 \<le> x")
    case True
    have "fl (6 / 10) \<le> fl x"
    proof (cases "1 \<le> x")
      case True
      then have "1 \<le> fl x" by (rule fl_ge_one)
      then show ?thesis by (simp add: fl_sixty)
    next
      case False
      with True have h: "1 / 2 \<le> x" "x < 1" by simp_all
      have "of_int 5404319552844595 \<le> x * 9007199254740992" using True by simp
      then have "5404319552844595 \<le> roundHalfEven (x * 9007199254740992)"
        by (rule roundHalfEven_ge)
      then have "(of_int 5404319552844595 :: rat) \<le> of_int (roundHalfEven (x * 9007199254740992))"
        by (simp only: of_int_le_iff)
      then show ?thesis by (simp add: fl_half [OF h] fl_sixty divide_le_cancel)
    qed
    with True show ?thesis unfolding x_def by simp
  next
    case False
    then have "(of_nat k :: rat) / of_nat n < 6 / 10" by (simp add: x_def)
    then have "(10::rat) * of_nat k < 6 * of_nat n" using n by (simp add: field_simps)
    then have "(of_nat (10 * k) :: rat) < of_nat (6 * n)" by simp
    then have "10 * k < 6 * n" by (simp only: of_nat_less_iff)
    then have "5 * k + 1 \<le> 3 * n" by simp
    then have "(of_nat (5 * k + 1) :: rat) \<le> of_nat (3 * n)" by (simp only: of_nat_le_iff)
    then have kn: "5 * (of_nat k :: rat) + 1 \<le> 3 * of_nat n" by simp
    have "fl x < fl (6 / 10)"
    proof (cases "1 / 2 \<le> x")
      case f: False
      then have "x \<le> 1 / 2" by simp
      with x0 have "fl x \<le> 1 / 2" by (rule fl_le_double) (rule fl_sixty(3))
      then show ?thesis by (simp add: fl_sixty)
    next
      case True
      with False have h: "1 / 2 \<le> x" "x < 1" by simp_all
      have nn: "(of_nat n :: rat) \<le> 2251799813685248"
        using n(2) of_nat_le_iff [of n "2 ^ 51", where ?'a = rat] by simp
      have n0: "(0::rat) < of_nat n" using n by simp
      have "x * (5 * of_nat n) \<le> 3 * of_nat n - 1"
        using kn n0 by (simp add: x_def)
      then have "x * (5 * of_nat n) * 9007199254740992 \<le> (3 * of_nat n - 1) * 9007199254740992"
        by simp
      moreover have "(3 * of_nat n - 1) * 9007199254740992
                       < (5404319552844595 - 1 / 2) * (5 * (of_nat n :: rat))"
        using nn n0 by simp
      ultimately have "x * 9007199254740992 * (5 * of_nat n)
                        < (5404319552844595 - 1 / 2) * (5 * (of_nat n :: rat))"
        by (simp add: mult.commute mult.left_commute)
      then have "x * 9007199254740992 < of_int 5404319552844595 - 1 / 2"
        using n0 by simp
      then have "roundHalfEven (x * 9007199254740992) \<le> 5404319552844595 - 1"
        by (rule roundHalfEven_below)
      then have "roundHalfEven (x * 9007199254740992) \<le> 5404319552844594" by simp
      then have "(of_int (roundHalfEven (x * 9007199254740992)) :: rat) \<le> of_int 5404319552844594"
        by (simp only: of_int_le_iff)
      then show ?thesis by (simp add: fl_half [OF h] fl_sixty divide_less_cancel)
    qed
    with False show ?thesis unfolding x_def by simp
  qed
qed

lemma fl_whole: "fl 1 = 1" "fl 30 = 30" "fl 70 = 70" "fl 100 = 100"
  by code_simp+

lemma fl_tenths:
  "0 \<le> fl (3 / 10)" "fl (3 / 10) \<le> 3 / 10" "0 \<le> fl (7 / 10)" "fl (7 / 10) \<le> 7 / 10"
  by code_simp+

section \<open>Properties of GameState\<close>

subsection \<open>Commitments outside the commit phase\<close>

text \<open>
  Claim C2. For every participant id, move and signature, \<open>commitMove\<close> in any phase
  other than commit fails with the error "Not in commit phase" and returns the match
  state it was given: the commitments, and with them the content hashes, are as before,
  and the event log has gained neither a commitment event nor the all-committed signal.
\<close>

theorem commitMove_outside_commit_phase:
  assumes "phase s \<noteq> Commit"
  shows "commitMove sha now agentId m signature s = (Inl NotInCommitPhase, s)"
  using assms by (simp add: commitMove_def)

theorem commitMove_outside_commit_phase_witness:
  "phase lobbyGame \<noteq> Commit
   \<and> commitMove (\<lambda>_. ''h'') 1 ''agent-1'' defendMove ''sig'' lobbyGame
       = (Inl NotInCommitPhase, lobbyGame)"
  using commitMove_outside_commit_phase
          [of lobbyGame "\<lambda>_. ''h''" 1 "''agent-1''" defendMove "''sig''"]
  by (simp add: lobbyGame_def newGameState_def)

subsection \<open>Reinforcements\<close>

lemma ownsAll_iff: "ownsAll s p c = fullyOwned s p c"
  by (auto simp: ownsAll_def fullyOwned_def list_all_iff split: option.splits)

lemma addContinentBonuses_sum:
  "addContinentBonuses s p r cs =
     r + sum_list (map (\<lambda>(cid, c). if fullyOwned s p c then c_bonus c else 0) cs)"
  unfolding addContinentBonuses_def ownsAll_iff
  by (induction cs arbitrary: r) (auto simp: case_prod_beta)

lemma no_continent_no_bonus:
  assumes "\<forall>(cid, c) \<in> set cs. \<not> fullyOwned s p c"
  shows "sum_list (map (\<lambda>(cid, c). if fullyOwned s p c then c_bonus c else 0) cs) = 0"
  using assms by (induction cs) auto

lemma bonusGame_value:
  "map_of (agents bonusGame) ''agent-1'' = Some bonusAgent"
  "continents bonusGame = Some bonusContinents"
  "map (\<lambda>(tid, t). (tid, t_owner t)) (territories bonusGame)
     = [(''t1'', Some ''agent-2''), (''t2'', Some ''agent-1''), (''t3'', Some ''agent-2''),
        (''t4'', Some ''agent-1'')]"
  by code_simp+

lemma bonusGame_owner:
  "map_of (territories bonusGame) tid = Some t \<Longrightarrow>
     t_owner t = (if tid = ''t2'' \<or> tid = ''t4'' then Some ''agent-1'' else Some ''agent-2'')"
proof -
  assume a: "map_of (territories bonusGame) tid = Some t"
  then have "(tid, t) \<in> set (territories bonusGame)" by (rule map_of_SomeD)
  then have "(tid, t_owner t) \<in> set (map (\<lambda>(tid, t). (tid, t_owner t)) (territories bonusGame))"
    by force
  then show ?thesis unfolding bonusGame_value by auto
qed

lemma bonusGame_has:
  "tid \<in> set [''t1'', ''t2'', ''t3'', ''t4''] \<Longrightarrow> \<exists>t. map_of (territories bonusGame) tid = Some t"
proof -
  assume "tid \<in> set [''t1'', ''t2'', ''t3'', ''t4'']"
  moreover have "map fst (territories bonusGame) = [''t1'', ''t2'', ''t3'', ''t4'']" by code_simp
  ultimately have "tid \<in> set (map fst (territories bonusGame))" by simp
  then show ?thesis unfolding map_of_keys [symmetric] .
qed

lemma bonusGame_fullyOwned:
  "fullyOwned bonusGame ''agent-1'' \<lparr>c_name = ''Even'', c_bonus = 5, c_territories = [''t2'', ''t4'']\<rparr>"
  "\<not> fullyOwned bonusGame ''agent-1'' \<lparr>c_name = ''Odd'', c_bonus = 2, c_territories = [''t1'', ''t3'']\<rparr>"
proof -
  show "fullyOwned bonusGame ''agent-1'' \<lparr>c_name = ''Even'', c_bonus = 5, c_territories = [''t2'', ''t4'']\<rparr>"
    unfolding fullyOwned_def
  proof
    fix tid assume t: "tid \<in> set (c_territories \<lparr>c_name = ''Even'', c_bonus = 5, c_territories = [''t2'', ''t4'']\<rparr>)"
    then have "tid \<in> set [''t1'', ''t2'', ''t3'', ''t4'']" by auto
    from bonusGame_has [OF this] obtain t0 where t0: "map_of (territories bonusGame) tid = Some t0" ..
    from bonusGame_owner [OF t0] t have "t_owner t0 = Some ''agent-1''" by auto
    with t0 show "\<exists>t. map_of (territories bonusGame) tid = Some t \<and> t_owner t = Some ''agent-1''"
      by blast
  qed
  have "''t1'' \<in> set [''t1'', ''t2'', ''t3'', ''t4'']" by simp
  from bonusGame_has [OF this] obtain t1 where t1: "map_of (territories bonusGame) ''t1'' = Some t1" ..
  from bonusGame_owner [OF t1] have "t_owner t1 = Some ''agent-2''" by simp
  with t1 show "\<not> fullyOwned bonusGame ''agent-1'' \<lparr>c_name = ''Odd'', c_bonus = 2, c_territories = [''t1'', ''t3'']\<rparr>"
    by (auto simp: fullyOwned_def)
qed

text \<open>
  Claim C4. For a registered, non-eliminated participant with \<open>T\<close> listed territories and
  resource pool \<open>R\<close>, \<open>calculateReinforcements\<close> returns
  \<open>max(3, floor(T/3))\<close>, plus the bonus of every continent of the map that the participant
  fully owns (each territory id of the continent is a territory whose owner is the
  participant), plus \<open>floor(R/5)\<close>, and takes \<open>5 * floor(R/5)\<close> from the pool, changing
  nothing else. With 9 territories, 12 resources and no continent fully owned the result
  is 5 and 2 resources are left.
\<close>

theorem calculateReinforcements_formula:
  assumes "map_of (agents s) p = Some a" and "\<not> a_eliminated a" and "continents s = Some cs"
  shows "calculateReinforcements p s =
           (Inr (max 3 (of_int \<lfloor>(of_nat (length (a_territories a)) :: rat) / 3\<rfloor>)
                 + sum_list (map (\<lambda>(cid, c). if fullyOwned s p c then c_bonus c else 0) cs)
                 + of_int \<lfloor>a_resources a / 5\<rfloor>),
            s\<lparr>agents := AList.update p
                 (a\<lparr>a_resources := a_resources a - 5 * of_int \<lfloor>a_resources a / 5\<rfloor>\<rparr>) (agents s)\<rparr>)
         \<and> (length (a_territories a) = 9 \<and> a_resources a = 12
              \<and> (\<forall>(cid, c) \<in> set cs. \<not> fullyOwned s p c)
            \<longrightarrow> fst (calculateReinforcements p s) = Inr 5
                \<and> map_of (agents (snd (calculateReinforcements p s))) p
                    = Some (a\<lparr>a_resources := 2\<rparr>))"
proof -
  have main: "calculateReinforcements p s =
           (Inr (max 3 (of_int \<lfloor>(of_nat (length (a_territories a)) :: rat) / 3\<rfloor>)
                 + sum_list (map (\<lambda>(cid, c). if fullyOwned s p c then c_bonus c else 0) cs)
                 + of_int \<lfloor>a_resources a / 5\<rfloor>),
            s\<lparr>agents := AList.update p
                 (a\<lparr>a_resources := a_resources a - 5 * of_int \<lfloor>a_resources a / 5\<rfloor>\<rparr>) (agents s)\<rparr>)"
    using assms
    by (simp add: calculateReinforcements_def Let_def addContinentBonuses_sum js_floor_def
          mult.commute)
  have twelve: "\<lfloor>(12::rat) / 5\<rfloor> = 2" by (simp add: floor_eq_iff)
  show ?thesis
    unfolding main
    by (auto simp: twelve update_conv' no_continent_no_bonus)
qed

theorem calculateReinforcements_formula_witness:
  "map_of (agents bonusGame) ''agent-1'' = Some bonusAgent
   \<and> \<not> a_eliminated bonusAgent
   \<and> continents bonusGame = Some bonusContinents
   \<and> a_territories bonusAgent = [''t2'', ''t4''] \<and> a_resources bonusAgent = 10
   \<and> map (\<lambda>(tid, t). (tid, t_owner t)) (territories bonusGame)
       = [(''t1'', Some ''agent-2''), (''t2'', Some ''agent-1''), (''t3'', Some ''agent-2''),
          (''t4'', Some ''agent-1'')]
   \<and> fst (calculateReinforcements ''agent-1'' bonusGame) = Inr 10
   \<and> map_of (agents (snd (calculateReinforcements ''agent-1'' bonusGame))) ''agent-1''
       = Some (bonusAgent\<lparr>a_resources := 0\<rparr>)
   \<and> map_of (agents reinforcementGame) ''agent-1'' = Some nineAgent
   \<and> \<not> a_eliminated nineAgent
   \<and> continents reinforcementGame = Some [(''na'', northAmerica)]
   \<and> length (a_territories nineAgent) = 9 \<and> a_resources nineAgent = 12
   \<and> fst (calculateReinforcements ''agent-1'' reinforcementGame) = Inr 5
   \<and> map_of (agents (snd (calculateReinforcements ''agent-1'' reinforcementGame))) ''agent-1''
       = Some (nineAgent\<lparr>a_resources := 2\<rparr>)"
proof -
  have b: "\<not> a_eliminated bonusAgent" "a_territories bonusAgent = [''t2'', ''t4'']"
          "a_resources bonusAgent = 10"
    by (simp_all add: bonusAgent_def)
  have two: "\<lfloor>(2::rat) / 3\<rfloor> = 0" by (simp add: floor_eq_iff)
  have "calculateReinforcements ''agent-1'' bonusGame =
          (Inr 10, bonusGame\<lparr>agents := AList.update ''agent-1'' (bonusAgent\<lparr>a_resources := 0\<rparr>)
                                         (agents bonusGame)\<rparr>)"
    using calculateReinforcements_formula
            [OF bonusGame_value(1) b(1) bonusGame_value(2), THEN conjunct1]
    by (simp add: b two bonusContinents_def bonusGame_fullyOwned)
  then have r1: "fst (calculateReinforcements ''agent-1'' bonusGame) = Inr 10"
    and r2: "map_of (agents (snd (calculateReinforcements ''agent-1'' bonusGame))) ''agent-1''
       = Some (bonusAgent\<lparr>a_resources := 0\<rparr>)"
    by (simp_all add: update_conv')
  have n: "map_of (agents reinforcementGame) ''agent-1'' = Some nineAgent"
          "\<not> a_eliminated nineAgent"
          "continents reinforcementGame = Some [(''na'', northAmerica)]"
          "length (a_territories nineAgent) = 9" "a_resources nineAgent = 12"
    by (simp_all add: reinforcementGame_def newGameState_def nineAgent_def)
  have "\<not> fullyOwned reinforcementGame ''agent-1'' northAmerica"
    by (simp add: fullyOwned_def northAmerica_def reinforcementGame_def newGameState_def)
  then have "\<forall>(cid, c) \<in> set [(''na'', northAmerica)]. \<not> fullyOwned reinforcementGame ''agent-1'' c"
    by simp
  with calculateReinforcements_formula [OF n(1) n(2) n(3), THEN conjunct2] n(4) n(5)
  have r3: "fst (calculateReinforcements ''agent-1'' reinforcementGame) = Inr 5"
    and r4: "map_of (agents (snd (calculateReinforcements ''agent-1'' reinforcementGame))) ''agent-1''
       = Some (nineAgent\<lparr>a_resources := 2\<rparr>)"
    by blast+
  show ?thesis
    using bonusGame_value(1) b(1) bonusGame_value(2) b(2) b(3) bonusGame_value(3) r1 r2 n r3 r4
    by (intro conjI)
qed

subsection \<open>Move validation\<close>

lemma falsy_has: "(\<not> falsy_str k \<and> hasTerritory s k) = nonEmptyTerritory s k"
  by (cases k) (auto simp: hasTerritory_def nonEmptyTerritory_def map_of_eq_None_iff)

lemma five_halves_not_int: "(5 / 2 :: rat) \<notin> \<int>"
proof
  assume "(5 / 2 :: rat) \<in> \<int>"
  then obtain z :: int where "(5 / 2 :: rat) = of_int z" by (auto elim: Ints_cases)
  then have "(of_int (2 * z) :: rat) = of_int 5" by simp
  then have "2 * z = 5" by (simp only: of_int_eq_iff)
  then show False by presburger
qed

text \<open>
  Claim C9 (as the code has it). \<open>validateMove\<close> accepts a move exactly when its type is
  one of attack, defend, support, move, none; for attack and move both \<open>from\<close> and \<open>to\<close>
  are non-empty ids of existing territories; and \<open>armies\<close>, when present, is a number
  that is not less than 1. A number need not be an integer, and \<open>NaN\<close>, of which no
  comparison holds, is let through.
\<close>

theorem validateMove_iff:
  "validateMove s m \<longleftrightarrow>
     mv_type m \<in> {''attack'', ''defend'', ''support'', ''move'', ''none''}
     \<and> (mv_type m \<in> {''attack'', ''move''}
          \<longrightarrow> (\<exists>f t. mv_from m = Some f \<and> mv_to m = Some t \<and> f \<noteq> [] \<and> t \<noteq> []
                    \<and> f \<in> fst ` set (territories s) \<and> t \<in> fst ` set (territories s)))
     \<and> (mv_armies m = JUndefined \<or> mv_armies m = JNaN \<or> (\<exists>r\<ge>1. mv_armies m = JNum r))"
proof -
  have arm: "(mv_armies m \<noteq> JUndefined \<and> (\<not> typeof_number (mv_armies m) \<or> js_less_than_one (mv_armies m)))
             = (\<not> (mv_armies m = JUndefined \<or> mv_armies m = JNaN \<or> (\<exists>r\<ge>1. mv_armies m = JNum r)))"
    by (cases "mv_armies m") auto
  have terr: "(\<exists>f t. mv_from m = Some f \<and> mv_to m = Some t \<and> f \<noteq> [] \<and> t \<noteq> []
                    \<and> f \<in> fst ` set (territories s) \<and> t \<in> fst ` set (territories s))
             = (nonEmptyTerritory s (mv_from m) \<and> nonEmptyTerritory s (mv_to m))"
    by (auto simp: nonEmptyTerritory_def)
  show ?thesis
    unfolding terr falsy_has[symmetric] validateMove_def arm
    by auto
qed


theorem validateMove_iff_witness:
  "validateMove toyGame attackMove \<and> mv_type attackMove \<in> {''attack'', ''move''}
   \<and> mv_from attackMove = Some ''t1'' \<and> mv_to attackMove = Some ''t2''
   \<and> ''t1'' \<in> fst ` set (territories toyGame) \<and> ''t2'' \<in> fst ` set (territories toyGame)
   \<and> mv_armies attackMove = JNum 10"
  using validateMove_iff [of toyGame attackMove]
  by (simp add: toyGame_def attackMove_def toyTerritories_def newGameState_def)

text \<open>
  A defend move with 2.5 armies is accepted, although 2.5 is no integer: the claim that
  every move with a non-integer \<open>armies\<close> is rejected fails.
\<close>

theorem validateMove_fractional_armies:
  "validateMove lobbyGame fractionalMove
   \<and> mv_armies fractionalMove = JNum (5 / 2) \<and> (5 / 2 :: rat) \<notin> \<int>"
  using five_halves_not_int
  by (simp add: validateMove_def fractionalMove_def)

subsection \<open>Private snapshots\<close>

text \<open>
  Claim C7. Outside the resolve phase the snapshot \<open>getAgentState p\<close> is the same on two
  states that differ only in what other participants have committed (the \<open>moves\<close> map
  away from \<open>p\<close>) and in the revealed entries of other participants: it shows the hash
  of \<open>p\<close>'s own commitment and \<open>p\<close>'s own revealed moves only.
\<close>

theorem getAgentState_hides_other_commitments:
  assumes "phase s \<noteq> Resolve"
      and "map_of ms p = map_of (moves s) p"
      and "filter (\<lambda>m. cm_agentId m = p) (map snd rs)
           = filter (\<lambda>m. cm_agentId m = p) (map snd (revealedMoves s))"
  shows "getAgentState p (s\<lparr>moves := ms, revealedMoves := rs\<rparr>) = getAgentState p s"
  using assms
  by (simp add: getAgentState_def getPublicState_def split: option.splits)

theorem getAgentState_hides_other_commitments_witness:
  "phase committedGame \<noteq> Resolve
   \<and> map_of otherMoves ''agent-1'' = map_of (moves committedGame) ''agent-1''
   \<and> otherMoves \<noteq> moves committedGame
   \<and> getAgentState ''agent-1'' (committedGame\<lparr>moves := otherMoves, revealedMoves := []\<rparr>)
       = getAgentState ''agent-1'' committedGame"
  using getAgentState_hides_other_commitments [of committedGame otherMoves "''agent-1''" "[]"]
  by (simp add: committedGame_def otherMoves_def toyGame_def newGameState_def mkCommitment_def
                defendMove_def attackMove_def)

subsection \<open>Battle resolution\<close>

lemma applyResult_keys:
  assumes "applyResult tid t r s = (e, s')"
  shows "map fst (agents s') = map fst (agents s)"
    and "map fst (territories s') = map fst (territories s)"
  using assms
  by (auto simp: applyResult_def Let_def split: if_splits option.splits)

lemma strongestAttacker_order:
  "strongestAttacker [\<lparr>at_agentId = ''b'', at_from = None, at_armies = 5\<rparr>,
                      \<lparr>at_agentId = ''a'', at_from = None, at_armies = 5\<rparr>] = Some ''b''"
  "strongestAttacker [\<lparr>at_agentId = ''2'', at_from = None, at_armies = 5\<rparr>,
                      \<lparr>at_agentId = ''1'', at_from = None, at_armies = 5\<rparr>] = Some ''1''"
  "strongestAttacker [\<lparr>at_agentId = ''b'', at_from = None, at_armies = 5\<rparr>,
                      \<lparr>at_agentId = ''10'', at_from = None, at_armies = 5\<rparr>,
                      \<lparr>at_agentId = ''9'', at_from = None, at_armies = 5\<rparr>,
                      \<lparr>at_agentId = ''07'', at_from = None, at_armies = 7\<rparr>] = Some ''07''"
  "strongestAttacker [\<lparr>at_agentId = ''b'', at_from = None, at_armies = 5\<rparr>,
                      \<lparr>at_agentId = ''10'', at_from = None, at_armies = 5\<rparr>,
                      \<lparr>at_agentId = ''9'', at_from = None, at_armies = 5\<rparr>] = Some ''9''"
  by code_simp+

lemma toy_turns:
  "(let s0 = distributedToy;
        s1 = playTurn ''agent-1'' bigAttack attackerLucky s0;
        s2 = playTurn ''agent-2'' counterAttack defenderLucky s1
    in (map_option (\<lambda>t. (t_owner t, t_armies t)) (map_of (territories s0) ''t3''),
        map_option (\<lambda>t. (t_owner t, t_armies t)) (map_of (territories s1) ''t3''),
        map_option (\<lambda>t. (t_owner t, t_armies t)) (map_of (territories s2) ''t3'')))
   = (Some (Some ''agent-2'', 3), Some (Some ''agent-1'', 90), Some (Some ''agent-1'', 62))"
  by code_simp

lemma conqueredToy_t3:
  "map_option (\<lambda>t. (t_owner t, t_armies t)) (map_of (territories distributedToy) ''t3'')
     = Some (Some ''agent-2'', 3)"
  "map_option (\<lambda>t. (t_owner t, t_armies t)) (map_of (territories conqueredToy) ''t3'')
     = Some (Some ''agent-1'', 90)"
  "map_option (\<lambda>t. (t_owner t, t_armies t)) (map_of (territories repelledToy) ''t3'')
     = Some (Some ''agent-1'', 62)"
  using toy_turns
  unfolding Let_def conqueredToy_def [symmetric] repelledToy_def [symmetric] prod.inject
  by blast+

lemma resolveBattle_90:
  "resolveBattle 0 (1 / 2) (mkTerritory ''t3'' (Some ''agent-1'') 90 [''t2'', ''t4''])
     [\<lparr>at_agentId = ''agent-2'', at_from = Some ''t4'', at_armies = 1\<rparr>]
   = Inr \<lparr>br_territory = ''t3'', br_defender = Some ''agent-1'', br_attackers = [''agent-2''],
          br_winner = Some ''agent-1'', br_remainingArmies = 62, br_attackRoll = 0,
          br_defenseRoll = 135 / 2\<rparr>"
  by code_simp

lemma seventy_percent_of_90: "max 1 (of_int \<lfloor>(7 / 10) * (90::rat)\<rfloor>) = (63::rat)"
  by simp

text \<open>
  Claim C1, where the code departs from it. On a defender win the claim leaves the
  territory \<open>max(1, floor(0.7 * armies))\<close> armies, which is 63 for 90 armies. The code
  computes \<open>Math.floor(defenderArmies * 0.7)\<close> in doubles: the literal is the double just
  below 0.7, the product \<open>90 * 0.7\<close> is rounded to the double just below 63, and the floor
  is 62. The territory \<open>t3\<close>, held with 3 armies after the distribution, is taken by an
  attack with 150 armies, which leaves it \<open>floor(150 * 0.6) = 90\<close> armies as the claim says;
  the next turn it repels an attack and keeps 62 armies.
\<close>

theorem resolveBattles_defender_win_at_90_armies:
  "map_option (\<lambda>t. (t_owner t, t_armies t)) (map_of (territories distributedToy) ''t3'')
     = Some (Some ''agent-2'', 3)
   \<and> map_option (\<lambda>t. (t_owner t, t_armies t)) (map_of (territories conqueredToy) ''t3'')
       = Some (Some ''agent-1'', 90)
   \<and> resolveBattle 0 (1 / 2) (mkTerritory ''t3'' (Some ''agent-1'') 90 [''t2'', ''t4''])
         [\<lparr>at_agentId = ''agent-2'', at_from = Some ''t4'', at_armies = 1\<rparr>]
       = Inr \<lparr>br_territory = ''t3'', br_defender = Some ''agent-1'', br_attackers = [''agent-2''],
              br_winner = Some ''agent-1'', br_remainingArmies = 62, br_attackRoll = 0,
              br_defenseRoll = 135 / 2\<rparr>
   \<and> map_option (\<lambda>t. (t_owner t, t_armies t)) (map_of (territories repelledToy) ''t3'')
       = Some (Some ''agent-1'', 62)
   \<and> max 1 (of_int \<lfloor>(7 / 10) * (90::rat)\<rfloor>) = (63::rat)"
  using conqueredToy_t3(1,2) resolveBattle_90 conqueredToy_t3(3) seventy_percent_of_90
  by (intro conjI)

subsection \<open>The partition of the territories\<close>

lemma consistent_assign:
  assumes "consistent own lst" and "own tid = Some None" and "lst a = Some ts"
  shows "consistent (own(tid := Some (Some a))) (lst(a := Some (ts @ [tid])))"
  using assms unfolding consistent_def
  by (auto split: if_splits)


lemma consistent_release:
  assumes "consistent own lst" and "own tid = Some (Some old)" and "lst old = Some ts"
  shows "consistent (own(tid := Some None)) (lst(old := Some (filter (\<lambda>x. x \<noteq> tid) ts)))"
  using assms unfolding consistent_def
  by (auto split: if_splits)

lemma consistent_remove:
  assumes "consistent own lst"
  shows "consistent (\<lambda>tid. if own tid = Some (Some a) then Some None else own tid) (lst(a := None))"
  using assms unfolding consistent_def
  by (auto split: if_splits)

lemma consistent_transfer:
  assumes c: "consistent own lst" and o: "own tid = Some ow" and ne: "ow \<noteq> Some w"
      and w: "lst w = Some tw"
  shows "consistent (own(tid := Some (Some w)))
           (\<lambda>k. if k = w then Some (tw @ [tid])
                else if Some k = ow then map_option (filter (\<lambda>x. x \<noteq> tid)) (lst k)
                else lst k)"
proof (cases ow)
  case None
  have "(\<lambda>k. if k = w then Some (tw @ [tid])
                else if Some k = ow then map_option (filter (\<lambda>x. x \<noteq> tid)) (lst k)
                else lst k) = lst(w := Some (tw @ [tid]))"
    by (auto simp: None fun_eq_iff)
  with consistent_assign [OF c o [unfolded None] w]
  show ?thesis by simp
next
  case (Some old)
  with c o have "lst old \<noteq> None" by (auto simp: consistent_def)
  then obtain ts where ts: "lst old = Some ts" by auto
  from ne Some have neq: "old \<noteq> w" by auto
  let ?own1 = "own(tid := Some None)" and ?lst1 = "lst(old := Some (filter (\<lambda>x. x \<noteq> tid) ts))"
  have c1: "consistent ?own1 ?lst1" using c o [unfolded Some] ts by (rule consistent_release)
  have "consistent (?own1(tid := Some (Some w))) (?lst1(w := Some (tw @ [tid])))"
    by (rule consistent_assign [OF c1]) (use w neq in auto)
  moreover have "?own1(tid := Some (Some w)) = own(tid := Some (Some w))" by simp
  moreover have "?lst1(w := Some (tw @ [tid]))
      = (\<lambda>k. if k = w then Some (tw @ [tid])
                else if Some k = ow then map_option (filter (\<lambda>x. x \<noteq> tid)) (lst k)
                else lst k)"
    using ts neq by (auto simp: Some fun_eq_iff)
  ultimately show ?thesis by simp
qed

lemma ownerOf_Some: "map_of (territories s) tid = Some t \<Longrightarrow> ownerOf s tid = Some (t_owner t)"
  by (simp add: ownerOf_def)

lemma listOf_None_iff: "(listOf s a = None) = (a \<notin> set (map fst (agents s)))"
  using map_of_keys [of "agents s" a] by (auto simp: listOf_def)

lemma applyResult_abstract:
  assumes t: "map_of (territories s) tid = Some t" and a: "applyResult tid t r s = (None, s')"
  shows "(br_winner r = t_owner t \<and> ownerOf s' = ownerOf s \<and> listOf s' = listOf s)
       \<or> (\<exists>w tw. br_winner r = Some w \<and> Some w \<noteq> t_owner t \<and> listOf s w = Some tw
            \<and> ownerOf s' = (ownerOf s)(tid := Some (Some w))
            \<and> listOf s' = (\<lambda>k. if k = w then Some (tw @ [tid])
                             else if Some k = t_owner t
                                  then map_option (filter (\<lambda>x. x \<noteq> tid)) (listOf s k)
                             else listOf s k))"
proof (cases "br_winner r = t_owner t")
  case True
  with a have "s' = s\<lparr>territories :=
             AList.map_entry tid (\<lambda>x. x\<lparr>t_armies := br_remainingArmies r\<rparr>) (territories s)\<rparr>"
    by (simp add: applyResult_def)
  then have "ownerOf s' = ownerOf s" "listOf s' = listOf s"
    by (auto simp: ownerOf_def listOf_def fun_eq_iff map_of_map_entry_if option.map_comp o_def)
  with True show ?thesis by simp
next
  case False
  define s1 where "s1 = (case t_owner t of
                    None \<Rightarrow> s
                  | Some old \<Rightarrow>
                      s\<lparr>agents :=
                          AList.map_entry old
                            (\<lambda>a. a\<lparr>a_territories := filter (\<lambda>x. x \<noteq> tid) (a_territories a),
                                    a_armies := fl (a_armies a - t_armies t)\<rparr>)
                            (agents s)\<rparr>)"
  have l1: "listOf s1 k = (if Some k = t_owner t
                           then map_option (filter (\<lambda>x. x \<noteq> tid)) (listOf s k) else listOf s k)" for k
    by (auto simp: s1_def listOf_def map_of_map_entry_if option.map_comp o_def split: option.splits)
  have t1: "territories s1 = territories s" by (auto simp: s1_def split: option.splits)
  from a False obtain w aw where w: "br_winner r = Some w" and aw: "map_of (agents s1) w = Some aw"
    by (auto simp: applyResult_def Let_def s1_def [symmetric] split: option.splits)
  from w False have neq: "Some w \<noteq> t_owner t" by auto
  then have lw: "listOf s w = Some (a_territories aw)"
    using aw l1 [of w] by (simp add: listOf_def)
  have s': "s' = s1\<lparr>agents :=
                     AList.map_entry w (\<lambda>a. a\<lparr>a_armies := fl (a_armies a + br_remainingArmies r)\<rparr>)
                       (AList.map_entry w (\<lambda>a. a\<lparr>a_territories := a_territories a @ [tid]\<rparr>)
                          (agents s1)),
                   territories :=
                     AList.map_entry tid (\<lambda>x. x\<lparr>t_owner := Some w, t_armies := br_remainingArmies r\<rparr>)
                       (territories s1)\<rparr>"
    using a False w aw by (auto simp: applyResult_def Let_def s1_def [symmetric])
  have o': "ownerOf s' = (ownerOf s)(tid := Some (Some w))"
    using t by (auto simp: s' t1 ownerOf_def fun_eq_iff map_of_map_entry_if)
  have l': "listOf s' k = (if k = w then Some (a_territories aw @ [tid])
                             else if Some k = t_owner t
                                  then map_option (filter (\<lambda>x. x \<noteq> tid)) (listOf s k)
                             else listOf s k)" for k
    using aw l1 [of k] by (auto simp: s' listOf_def map_of_map_entry_if option.map_comp o_def)
  show ?thesis using w neq lw o' l' by (intro disjI2 exI [of _ w] exI [of _ "a_territories aw"]) auto
qed

lemma applyResult_invariant:
  assumes inv: "partitionInvariant s" and t: "map_of (territories s) tid = Some t"
      and a: "applyResult tid t r s = (None, s')"
  shows "partitionInvariant s'"
proof -
  from applyResult_keys [OF a] inv
  have keys: "distinct (map fst (territories s'))" "distinct (map fst (agents s'))"
    by (simp_all add: partitionInvariant_def)
  from inv have c: "consistent (ownerOf s) (listOf s)" by (simp add: partitionInvariant_def)
  from applyResult_abstract [OF t a] have "consistent (ownerOf s') (listOf s')"
  proof (elim disjE exE conjE)
    assume "ownerOf s' = ownerOf s" "listOf s' = listOf s"
    with c show ?thesis by simp
  next
    fix w tw
    assume w: "Some w \<noteq> t_owner t" "listOf s w = Some tw"
      and eq: "ownerOf s' = (ownerOf s)(tid := Some (Some w))"
        "listOf s' = (\<lambda>k. if k = w then Some (tw @ [tid])
                             else if Some k = t_owner t
                                  then map_option (filter (\<lambda>x. x \<noteq> tid)) (listOf s k)
                             else listOf s k)"
    from w(1) have "t_owner t \<noteq> Some w" by auto
    from consistent_transfer [OF c ownerOf_Some [OF t] this w(2)]
    show ?thesis unfolding eq .
  qed
  with keys show ?thesis by (simp add: partitionInvariant_def)
qed


lemma resolveLoop_invariant:
  assumes "partitionInvariant s" and "resolveLoop rnd k bs rs0 s = (Inr rs, s')"
  shows "partitionInvariant s'"
  using assms
proof (induction bs arbitrary: k rs0 s)
  case Nil
  then show ?case by simp
next
  case (Cons b bs)
  obtain target atts where b: "b = (target, atts)" by (cases b)
  from Cons.prems(2) obtain tid t r s1 where
    t: "map_of (territories s) tid = Some t"
    and a: "applyResult tid t r s = (None, s1)"
    and rest: "resolveLoop rnd (Suc (Suc k)) bs (rs0 @ [r]) s1 = (Inr rs, s')"
    by (auto simp: b split: option.splits sum.splits prod.splits)
  from applyResult_invariant [OF Cons.prems(1) t a] have "partitionInvariant s1" .
  from Cons.IH [OF this rest] show ?case .
qed

lemma emit_abstract [simp]: "ownerOf (emit e s) = ownerOf s" "listOf (emit e s) = listOf s"
  by (simp_all add: fun_eq_iff emit_def ownerOf_def listOf_def)

lemma emit_invariant [simp]: "partitionInvariant (emit e s) = partitionInvariant s"
  by (simp add: partitionInvariant_def) (simp add: emit_def)

lemma resolveBattles_invariant:
  assumes "partitionInvariant s" and "resolveBattles rnd s = (Inr rs, s')"
  shows "partitionInvariant s'"
proof -
  from assms(2) obtain s1 where "resolveLoop rnd 0 (groupAttacks (revealedMoves s)) [] s = (Inr rs, s1)"
    and "s' = emit (BattlesResolved rs) s1"
    by (auto simp: resolveBattles_def split: prod.splits sum.splits)
  with resolveLoop_invariant [OF assms(1)] show ?thesis by simp
qed

lemma ownerOf_neutralise:
  "map_option t_owner (map_of (foldl (\<lambda>ts tid. neutralise tid ts) ts0 tids) x) =
     (if x \<in> set tids then map_option (\<lambda>_. None) (map_of ts0 x)
      else map_option t_owner (map_of ts0 x))"
proof (induction tids arbitrary: ts0)
  case Nil then show ?case by simp
next
  case (Cons tid tids)
  show ?case
    unfolding foldl_Cons Cons.IH
    by (auto simp: neutralise_def map_of_map_entry_if option.map_comp o_def)
qed

lemma keys_neutralise [simp]:
  "map fst (foldl (\<lambda>ts tid. neutralise tid ts) ts0 tids) = map fst ts0"
  by (induction tids arbitrary: ts0) (simp_all add: neutralise_def)

lemma removeAgent_invariant:
  assumes inv: "partitionInvariant s"
  shows "partitionInvariant (removeAgent aid s)"
proof (cases "map_of (agents s) aid")
  case None
  with inv show ?thesis by (simp add: removeAgent_def)
next
  case (Some a)
  let ?s' = "s\<lparr>territories := foldl (\<lambda>ts tid. neutralise tid ts) (territories s) (a_territories a),
               agents := AList.delete aid (agents s)\<rparr>"
  from inv have c: "consistent (ownerOf s) (listOf s)" by (simp add: partitionInvariant_def)
  have la: "listOf s aid = Some (a_territories a)" using Some by (simp add: listOf_def)
  with c have mem: "\<And>tid. tid \<in> set (a_territories a) \<longleftrightarrow> ownerOf s tid = Some (Some aid)"
    by (auto simp: consistent_def)
  have own: "ownerOf ?s' = (\<lambda>tid. if ownerOf s tid = Some (Some aid) then Some None else ownerOf s tid)"
    by (auto simp: fun_eq_iff ownerOf_def ownerOf_neutralise mem [unfolded ownerOf_def]
             split: option.splits)
  have lst: "listOf ?s' = (listOf s)(aid := None)"
    by (auto simp: fun_eq_iff listOf_def delete_conv')
  have "consistent (ownerOf ?s') (listOf ?s')"
    unfolding own lst using c by (rule consistent_remove)
  moreover have "distinct (map fst (territories ?s'))" "distinct (map fst (agents ?s'))"
    using inv by (simp_all add: partitionInvariant_def distinct_delete)
  ultimately have "partitionInvariant ?s'" by (simp add: partitionInvariant_def)
  then show ?thesis using Some by (simp add: removeAgent_def)
qed

lemma distinct_concat_owned:
  assumes "distinct (map fst ags)"
      and "\<forall>(aid, a) \<in> set ags. distinct (a_territories a) \<and> (\<forall>x \<in> set (a_territories a). P x aid)"
      and "\<And>x a b. P x a \<Longrightarrow> P x b \<Longrightarrow> a = b"
  shows "distinct (concat (map (\<lambda>(aid, a). a_territories a) ags))"
  using assms(1,2)
proof (induction ags)
  case Nil then show ?case by simp
next
  case (Cons p ags)
  obtain aid a where p: "p = (aid, a)" by (cases p)
  have "set (a_territories a) \<inter> set (concat (map (\<lambda>(aid, a). a_territories a) ags)) = {}"
  proof (rule ccontr)
    assume "\<not> ?thesis"
    then obtain x aid' a' where x: "x \<in> set (a_territories a)" "(aid', a') \<in> set ags"
        "x \<in> set (a_territories a')" by auto
    with Cons.prems(2) have "P x aid" "P x aid'" by (auto simp: p)
    then have "aid = aid'" by (rule assms(3))
    with x(2) Cons.prems(1) show False by (force simp: p)
  qed
  with Cons show ?case by (auto simp: p)
qed

lemma partition_of_invariant:
  assumes inv: "partitionInvariant s"
  shows "mset (ownedLists s @ unowned s) = mset (map fst (territories s))"
proof -
  from inv have dt: "distinct (map fst (territories s))" and da: "distinct (map fst (agents s))"
    and c: "consistent (ownerOf s) (listOf s)" by (simp_all add: partitionInvariant_def)
  have lists: "(aid, a) \<in> set (agents s) \<Longrightarrow> listOf s aid = Some (a_territories a)" for aid a
    using da by (simp add: listOf_def)
  have terr: "(tid, t) \<in> set (territories s) \<Longrightarrow> ownerOf s tid = Some (t_owner t)" for tid t
    using dt by (simp add: ownerOf_def)
  have d1: "distinct (ownedLists s)"
    unfolding ownedLists_def
  proof (rule distinct_concat_owned [OF da, where P = "\<lambda>x aid. ownerOf s x = Some (Some aid)"])
    show "\<forall>(aid, a) \<in> set (agents s).
            distinct (a_territories a) \<and> (\<forall>x \<in> set (a_territories a). ownerOf s x = Some (Some aid))"
      using c lists by (fastforce simp: consistent_def)
  qed auto
  have d2: "distinct (unowned s)"
    unfolding unowned_def using dt by (simp add: distinct_map_filter)
  have owned_set: "x \<in> set (ownedLists s) \<longleftrightarrow> (\<exists>aid. ownerOf s x = Some (Some aid))" for x
  proof
    assume "x \<in> set (ownedLists s)"
    then obtain aid a where "(aid, a) \<in> set (agents s)" "x \<in> set (a_territories a)"
      by (auto simp: ownedLists_def)
    with c lists show "\<exists>aid. ownerOf s x = Some (Some aid)" by (fastforce simp: consistent_def)
  next
    assume "\<exists>aid. ownerOf s x = Some (Some aid)"
    then obtain aid where o: "ownerOf s x = Some (Some aid)" ..
    with c have "listOf s aid \<noteq> None" by (auto simp: consistent_def)
    then obtain a where a: "map_of (agents s) aid = Some a" by (auto simp: listOf_def)
    then have "(aid, a) \<in> set (agents s)" by (rule map_of_SomeD)
    moreover have "listOf s aid = Some (a_territories a)" using a by (simp add: listOf_def)
    with c o have "x \<in> set (a_territories a)" unfolding consistent_def by blast
    ultimately show "x \<in> set (ownedLists s)" by (force simp: ownedLists_def)
  qed
  have unowned_set: "x \<in> set (unowned s) \<longleftrightarrow> ownerOf s x = Some None" for x
  proof
    assume "x \<in> set (unowned s)"
    then obtain t where "(x, t) \<in> set (territories s)" "t_owner t = None"
      by (auto simp: unowned_def)
    with terr show "ownerOf s x = Some None" by fastforce
  next
    assume "ownerOf s x = Some None"
    then obtain t where "map_of (territories s) x = Some t" "t_owner t = None"
      by (auto simp: ownerOf_def)
    then have "(x, t) \<in> set (territories s)" "t_owner t = None" by (auto dest: map_of_SomeD)
    then show "x \<in> set (unowned s)" by (force simp: unowned_def)
  qed
  have keys_set: "x \<in> set (map fst (territories s)) \<longleftrightarrow> ownerOf s x \<noteq> None" for x
    using map_of_keys [of "territories s" x] by (auto simp: ownerOf_def)
  have "distinct (ownedLists s @ unowned s)"
    using d1 d2 owned_set unowned_set by auto
  moreover have "set (ownedLists s @ unowned s) = set (map fst (territories s))"
  proof (intro set_eqI iffI)
    fix x assume "x \<in> set (ownedLists s @ unowned s)"
    then show "x \<in> set (map fst (territories s))"
      unfolding keys_set using owned_set unowned_set by auto
  next
    fix x assume "x \<in> set (map fst (territories s))"
    then have "ownerOf s x \<noteq> None" unfolding keys_set .
    then obtain ow where "ownerOf s x = Some ow" by auto
    then show "x \<in> set (ownedLists s @ unowned s)"
      using owned_set unowned_set by (cases ow) auto
  qed
  ultimately show ?thesis using dt by (simp only: set_eq_iff_mset_eq_distinct [symmetric])
qed

lemma shuffle_index_bound:
  fixes r :: rat
  assumes "0 \<le> r" and "r < 1"
  shows "nat \<lfloor>r * (of_nat (Suc i) + 1)\<rfloor> \<le> Suc i"
proof -
  have "r * (of_nat (Suc i) + 1) < 1 * (of_nat (Suc i) + 1)"
    using assms by (intro mult_strict_right_mono) auto
  then have "r * (of_nat (Suc i) + 1) < of_int (int (Suc i) + 1)" by simp
  then have "\<lfloor>r * (of_nat (Suc i) + 1)\<rfloor> < int (Suc i) + 1"
    by (simp only: floor_less_iff)
  then show ?thesis by simp
qed

lemma swap_mset:
  assumes "i < length xs" and "j < length xs"
  shows "mset (swap i j xs) = mset xs" and "length (swap i j xs) = length xs"
  using assms mset_swap [of j xs i] by (simp_all add: swap_def)

lemma shuffle_mset:
  assumes "unitInterval rnd" and "i < length xs"
  shows "mset (shuffle rnd k i xs) = mset xs"
  using assms(2)
proof (induction i arbitrary: k xs)
  case 0
  then show ?case by simp
next
  case (Suc i)
  let ?j = "nat \<lfloor>rnd k * (of_nat (Suc i) + 1)\<rfloor>"
  from assms(1) have "?j \<le> Suc i"
    by (intro shuffle_index_bound) (auto simp: unitInterval_def)
  with Suc.prems have j: "?j < length xs" by simp
  from swap_mset [OF Suc.prems j]
  have m: "mset (swap (Suc i) ?j xs) = mset xs" and l: "length (swap (Suc i) ?j xs) = length xs"
    by auto
  from Suc.prems l have "i < length (swap (Suc i) ?j xs)" by simp
  from Suc.IH [OF this, of "Suc k"] m show ?case by simp
qed

lemma shuffle_keys:
  assumes "unitInterval rnd"
  shows "mset (shuffle rnd 0 (length xs - 1) xs) = mset xs"
proof (cases xs)
  case Nil
  then show ?thesis by simp
next
  case (Cons x ys)
  then have "length xs - 1 < length xs" by simp
  from shuffle_mset [OF assms this] show ?thesis .
qed

lemma assign_step_abstract:
  assumes t: "ownerOf s tid = Some None" and a: "listOf s aid = Some ts"
  defines "s' \<equiv> s\<lparr>territories :=
                      AList.map_entry tid (\<lambda>t. t\<lparr>t_owner := Some aid, t_armies := 3\<rparr>)
                        (territories s),
                   agents :=
                       AList.map_entry aid
                         (\<lambda>a. a\<lparr>a_territories := a_territories a @ [tid],
                                 a_armies := fl (a_armies a + 3)\<rparr>)
                         (agents s)\<rparr>"
  shows "ownerOf s' = (ownerOf s)(tid := Some (Some aid))"
    and "listOf s' = (listOf s)(aid := Some (ts @ [tid]))"
  using t a
  by (auto simp: s'_def ownerOf_def listOf_def fun_eq_iff map_of_map_entry_if)

lemma assignTerritories_invariant:
  assumes "partitionInvariant s" and "distinct tids"
      and "\<forall>tid \<in> set tids. ownerOf s tid = Some None"
      and "agentIds \<noteq> []" and "set agentIds \<subseteq> set (map fst (agents s))"
  shows "\<exists>s'. assignTerritories agentIds index tids s = (Inr (), s')
           \<and> partitionInvariant s'
           \<and> map fst (territories s') = map fst (territories s)
           \<and> map fst (agents s') = map fst (agents s)
           \<and> (\<forall>x. x \<notin> set tids \<longrightarrow> ownerOf s' x = ownerOf s x)
           \<and> (\<forall>tid \<in> set tids. \<exists>a. ownerOf s' tid = Some (Some a))"
  using assms(1,2,3,5)
proof (induction tids arbitrary: index s)
  case Nil
  then show ?case by simp
next
  case (Cons tid tids)
  let ?aid = "agentIds ! (index mod length agentIds)"
  let ?s2 = "s\<lparr>territories :=
                      AList.map_entry tid (\<lambda>t. t\<lparr>t_owner := Some ?aid, t_armies := 3\<rparr>)
                        (territories s),
                   agents :=
                       AList.map_entry ?aid
                         (\<lambda>a. a\<lparr>a_territories := a_territories a @ [tid],
                                 a_armies := fl (a_armies a + 3)\<rparr>)
                         (agents s)\<rparr>"
  have "?aid \<in> set agentIds" using assms(4) by simp
  with Cons.prems(4) have reg: "?aid \<in> set (map fst (agents s))" by blast
  then obtain ts where ts: "listOf s ?aid = Some ts"
    using listOf_None_iff [of s ?aid] by auto
  from Cons.prems(3) have un: "ownerOf s tid = Some None" by simp
  note abs = assign_step_abstract [OF un ts]
  from Cons.prems(1) have c: "consistent (ownerOf s) (listOf s)"
    and d: "distinct (map fst (territories s))" "distinct (map fst (agents s))"
    by (simp_all add: partitionInvariant_def)
  have "consistent (ownerOf ?s2) (listOf ?s2)"
    unfolding abs using c un ts by (rule consistent_assign)
  with d have inv2: "partitionInvariant ?s2" by (simp add: partitionInvariant_def)
  from Cons.prems(2) have dist: "distinct tids" and notin: "tid \<notin> set tids" by auto
  have rest: "\<forall>x \<in> set tids. ownerOf ?s2 x = Some None"
    using Cons.prems(3) notin unfolding abs by auto
  have keys: "set agentIds \<subseteq> set (map fst (agents ?s2))" using Cons.prems(4) by simp
  from Cons.IH [OF inv2 dist rest keys, of "Suc index"] obtain s' where
    s': "assignTerritories agentIds (Suc index) tids ?s2 = (Inr (), s')"
    and inv': "partitionInvariant s'"
    and k': "map fst (territories s') = map fst (territories ?s2)"
            "map fst (agents s') = map fst (agents ?s2)"
    and same': "\<forall>x. x \<notin> set tids \<longrightarrow> ownerOf s' x = ownerOf ?s2 x"
    and own': "\<forall>x \<in> set tids. \<exists>a. ownerOf s' x = Some (Some a)"
    by blast
  have step: "assignTerritories agentIds index (tid # tids) s = (Inr (), s')"
    using assms(4) s' by (simp add: Let_def)
  have head: "ownerOf s' tid = Some (Some ?aid)"
    using same' notin unfolding abs by simp
  have same: "\<forall>x. x \<notin> set (tid # tids) \<longrightarrow> ownerOf s' x = ownerOf s x"
    using same' unfolding abs by simp
  show ?case
    using step inv' k' own' head same by auto
qed

lemma giveInitialResources_abstract:
  "ownerOf (giveInitialResources ids s) = ownerOf s"
  "listOf (giveInitialResources ids s) = listOf s"
  "map fst (agents (giveInitialResources ids s)) = map fst (agents s)"
  "territories (giveInitialResources ids s) = territories s"
proof -
  have l: "map_option a_territories
             (map_of (foldl (\<lambda>ags aid. AList.map_entry aid (\<lambda>a. a\<lparr>a_resources := 10\<rparr>) ags) ags0 ids) k)
           = map_option a_territories (map_of ags0 k)" for ags0 k
    by (induction ids arbitrary: ags0) (auto simp: map_of_map_entry_if option.map_comp o_def)
  have k: "map fst (foldl (\<lambda>ags aid. AList.map_entry aid (\<lambda>a. a\<lparr>a_resources := 10\<rparr>) ags) ags0 ids)
           = map fst ags0" for ags0
    by (induction ids arbitrary: ags0) simp_all
  show "ownerOf (giveInitialResources ids s) = ownerOf s"
    by (simp add: fun_eq_iff ownerOf_def giveInitialResources_def)
  show "listOf (giveInitialResources ids s) = listOf s"
    by (simp add: fun_eq_iff listOf_def giveInitialResources_def l)
  show "map fst (agents (giveInitialResources ids s)) = map fst (agents s)"
    by (simp add: giveInitialResources_def k)
  show "territories (giveInitialResources ids s) = territories s"
    by (simp add: giveInitialResources_def)
qed

lemma pristine_invariant:
  assumes "pristine s"
  shows "partitionInvariant s" and "\<forall>tid \<in> set (map fst (territories s)). ownerOf s tid = Some None"
proof -
  from assms have dt: "distinct (map fst (territories s))" and da: "distinct (map fst (agents s))"
    and un: "\<forall>(tid, t) \<in> set (territories s). t_owner t = None"
    and em: "\<forall>(aid, a) \<in> set (agents s). a_territories a = []"
    by (simp_all add: pristine_def list_all_iff)
  have own: "ownerOf s tid = Some ow \<Longrightarrow> ow = None" for tid ow
    using un by (auto simp: ownerOf_def dest!: map_of_SomeD)
  have lst: "listOf s aid = Some ts \<Longrightarrow> ts = []" for aid ts
    using em by (auto simp: listOf_def dest!: map_of_SomeD)
  have "consistent (ownerOf s) (listOf s)"
    unfolding consistent_def using own lst by fastforce
  with dt da show "partitionInvariant s" by (simp add: partitionInvariant_def)
  show "\<forall>tid \<in> set (map fst (territories s)). ownerOf s tid = Some None"
  proof
    fix tid assume "tid \<in> set (map fst (territories s))"
    then obtain t where "map_of (territories s) tid = Some t"
      unfolding map_of_keys [symmetric] by blast
    then have "ownerOf s tid = Some (t_owner t)" by (simp add: ownerOf_def)
    with own [of tid "t_owner t"] show "ownerOf s tid = Some None" by simp
  qed
qed

lemma distributeTerritories_invariant:
  assumes p: "pristine s" and ag: "agents s \<noteq> []" and r: "unitInterval rnd"
  shows "\<exists>s'. distributeTerritories rnd s = (Inr (), s') \<and> partitionInvariant s'
           \<and> map fst (territories s') = map fst (territories s)
           \<and> unowned s' = []"
proof -
  let ?ids = "map fst (territories s)"
  let ?sh = "shuffle rnd 0 (length ?ids - 1) ?ids"
  have m: "mset ?sh = mset ?ids" using r by (rule shuffle_keys)
  from p have dt: "distinct ?ids" by (simp add: pristine_def)
  with m have d: "distinct ?sh" by (metis mset_eq_imp_distinct_iff)
  from m have set_eq: "set ?sh = set ?ids" by (rule mset_eq_setD)
  note pi = pristine_invariant [OF p]
  have un: "\<forall>tid \<in> set ?sh. ownerOf s tid = Some None" using pi(2) set_eq by simp
  have ne: "map fst (agents s) \<noteq> []" using ag by simp
  from assignTerritories_invariant [OF pi(1) d un ne subset_refl, of 0]
  obtain s1 where a: "assignTerritories (map fst (agents s)) 0 ?sh s = (Inr (), s1)"
    and inv1: "partitionInvariant s1"
    and k1: "map fst (territories s1) = ?ids" "map fst (agents s1) = map fst (agents s)"
    and own1: "\<forall>tid \<in> set ?sh. \<exists>a. ownerOf s1 tid = Some (Some a)"
    by blast
  let ?s' = "emit TerritoriesDistributed (giveInitialResources (map fst (agents s)) s1)"
  have res: "distributeTerritories rnd s = (Inr (), ?s')"
    using a by (simp add: distributeTerritories_def Let_def)
  have abs: "ownerOf ?s' = ownerOf s1" "listOf ?s' = listOf s1"
    by (simp_all add: giveInitialResources_abstract)
  have keys: "map fst (territories ?s') = ?ids" "map fst (agents ?s') = map fst (agents s1)"
    by (simp_all add: emit_def giveInitialResources_abstract k1)
  have inv': "partitionInvariant ?s'"
    using inv1 unfolding partitionInvariant_def abs keys k1 by simp
  have "unowned ?s' = []"
  proof (rule ccontr)
    assume "unowned ?s' \<noteq> []"
    then obtain tid t where tt: "(tid, t) \<in> set (territories ?s')" "t_owner t = None"
      by (auto simp: unowned_def filter_empty_conv)
    then have "tid \<in> set ?ids" using keys(1) by (metis fst_conv image_eqI set_map)
    with own1 set_eq obtain a where "ownerOf s1 tid = Some (Some a)" by auto
    moreover have d': "distinct (map fst (territories ?s'))"
      using inv' by (simp only: partitionInvariant_def)
    from map_of_is_SomeI [OF d' tt(1)] have "ownerOf ?s' tid = Some None"
      using tt(2) by (simp only: ownerOf_def option.map)
    ultimately show False by (simp add: giveInitialResources_abstract)
  qed
  with res inv' keys show ?thesis by blast
qed

lemma pristineToy_parts:
  "map fst (territories pristineToy) = [''t1'', ''t2'', ''t3'', ''t4'']"
  "map fst (agents pristineToy) = [''agent-1'', ''agent-2'', ''agent-3'']"
  "pristine pristineToy"
  by code_simp+

lemma distributedToy_lists:
  "map fst (territories distributedToy) = [''t1'', ''t2'', ''t3'', ''t4'']"
  "ownedLists distributedToy = [''t2'', ''t1'', ''t3'', ''t4'']"
  "unowned distributedToy = []"
  by code_simp+

lemma twiceToy_lists:
  "fst (distributeTerritories halfRnd distributedToy) = Inr ()"
  "map fst (territories twiceToy) = [''t1'', ''t2'', ''t3'', ''t4'']"
  "ownedLists twiceToy = [''t2'', ''t1'', ''t1'', ''t3'', ''t3'', ''t4'', ''t4'', ''t2'']"
  "unowned twiceToy = []"
  by code_simp+

lemma pristine_newGameState: "pristine (newGameState gid now)"
  by (simp add: pristine_def newGameState_def)

lemma pristine_initializeMap:
  assumes "pristine s"
  shows "pristine (snd (initializeMap md s))"
proof (cases md)
  case None
  with assms show ?thesis by (simp add: initializeMap_def)
next
  case (Some m)
  let ?f = "\<lambda>ts t. AList.update (t_id t)
                     (t\<lparr>t_owner := None, t_armies := 0,
                        t_resources := (if t_resources t = 0 then 1 else t_resources t)\<rparr>) ts"
  have "distinct (map fst ts0) \<and> (\<forall>(tid, t) \<in> set ts0. t_owner t = None)
        \<Longrightarrow> distinct (map fst (foldl ?f ts0 xs))
            \<and> (\<forall>(tid, t) \<in> set (foldl ?f ts0 xs). t_owner t = None)" for ts0 xs
  proof (induction xs arbitrary: ts0)
    case Nil then show ?case by simp
  next
    case (Cons x xs)
    have "distinct (map fst (?f ts0 x)) \<and> (\<forall>(tid, t) \<in> set (?f ts0 x). t_owner t = None)"
      using Cons.prems by (auto simp: distinct_update dest!: set_update_subset)
    from Cons.IH [OF this] show ?case by simp
  qed
  from this [of "territories s" "md_territories m"] assms show ?thesis
    by (simp add: initializeMap_def Some pristine_def list_all_iff)
qed

lemma pristine_addAgent:
  assumes "pristine s"
  shows "pristine (snd (addAgent now ag s))"
  using assms
  by (auto simp: addAgent_def pristine_def emit_def Let_def list_all_iff distinct_update
           dest!: set_update_subset)

lemma resolveLoop_keys:
  "resolveLoop rnd k bs rs0 s = (x, s') \<Longrightarrow> map fst (territories s') = map fst (territories s)"
proof (induction bs arbitrary: k rs0 s)
  case Nil
  then show ?case by simp
next
  case (Cons b bs)
  obtain target atts where b: "b = (target, atts)" by (cases b)
  show ?case
  proof (cases "\<exists>tid t r s1. target = Some tid \<and> map_of (territories s) tid = Some t
                  \<and> resolveBattle (rnd k) (rnd (Suc k)) t atts = Inr r
                  \<and> applyResult tid t r s = (None, s1)")
    case True
    then obtain tid t r s1 where h: "target = Some tid" "map_of (territories s) tid = Some t"
        "resolveBattle (rnd k) (rnd (Suc k)) t atts = Inr r" "applyResult tid t r s = (None, s1)"
      by blast
    with Cons.prems have "resolveLoop rnd (Suc (Suc k)) bs (rs0 @ [r]) s1 = (x, s')"
      by (simp add: b)
    from Cons.IH [OF this] applyResult_keys(2) [OF h(4)] show ?thesis by simp
  next
    case False
    with Cons.prems show ?thesis
      by (auto simp: b split: option.splits sum.splits prod.splits dest: applyResult_keys(2))
  qed
qed

lemma resolveBattles_keys:
  "resolveBattles rnd s = (x, s') \<Longrightarrow> map fst (territories s') = map fst (territories s)"
  by (auto simp: resolveBattles_def emit_def split: prod.splits sum.splits dest: resolveLoop_keys)

lemma removeAgent_keys: "map fst (territories (removeAgent aid s)) = map fst (territories s)"
  by (simp add: removeAgent_def emit_def split: option.splits)

lemma zeroRnd_unit: "unitInterval zeroRnd"
  by (simp add: unitInterval_def zeroRnd_def)

lemma invariant_only_map:
  assumes "territories s' = territories s" and "agents s' = agents s"
  shows "partitionInvariant s' = partitionInvariant s"
proof -
  have "ownerOf s' = ownerOf s" "listOf s' = listOf s"
    using assms by (simp_all add: fun_eq_iff ownerOf_def listOf_def)
  with assms show ?thesis by (simp add: partitionInvariant_def)
qed

lemma battleToy_run:
  "isl (fst (resolveBattles attackerLucky battleToy)) = False"
  "ownedLists (snd (resolveBattles attackerLucky battleToy)) = [''t2'', ''t1'', ''t3'', ''t4'']"
  "ownedLists (removeAgent ''agent-1'' distributedToy) = [''t3'', ''t4'']"
  "unowned (removeAgent ''agent-1'' distributedToy) = [''t1'', ''t2'']"
  by code_simp+

text \<open>
  Claim C5 (as the code has it). A match that was set up (\<open>newGameState\<close>,
  \<open>initializeMap\<close>, \<open>addAgent\<close>) is pristine. On a pristine match with at least one
  participant \<open>distributeTerritories\<close> returns and establishes the invariant: every
  territory's owner is null or a registered participant, and each participant's list
  holds, once each, exactly the territories whose owner field names it. \<open>removeAgent\<close>
  preserves the invariant, and so does every call of \<open>resolveBattles\<close> that returns. In
  each case the participants' lists together with the unowned territories are a
  rearrangement of the territory ids of the map, none of them twice.
\<close>

theorem partition_invariant_maintained:
  "pristine (newGameState gid now)
   \<and> (pristine s \<longrightarrow> pristine (snd (initializeMap md s)) \<and> pristine (snd (addAgent now ag s)))
   \<and> (pristine s \<and> agents s \<noteq> [] \<and> unitInterval rnd \<longrightarrow>
        (\<exists>s'. distributeTerritories rnd s = (Inr (), s') \<and> partitionInvariant s'
              \<and> mset (ownedLists s' @ unowned s') = mset (map fst (territories s))))
   \<and> (partitionInvariant s \<longrightarrow>
        partitionInvariant (removeAgent aid s)
        \<and> mset (ownedLists (removeAgent aid s) @ unowned (removeAgent aid s))
            = mset (map fst (territories s)))
   \<and> (partitionInvariant s \<and> resolveBattles rnd s = (Inr rs, s1) \<longrightarrow>
        partitionInvariant s1
        \<and> mset (ownedLists s1 @ unowned s1) = mset (map fst (territories s)))"
proof (intro conjI impI)
  show "pristine (newGameState gid now)" by (rule pristine_newGameState)
next
  assume "pristine s"
  then show "pristine (snd (initializeMap md s))" by (rule pristine_initializeMap)
next
  assume "pristine s"
  then show "pristine (snd (addAgent now ag s))" by (rule pristine_addAgent)
next
  assume "pristine s \<and> agents s \<noteq> [] \<and> unitInterval rnd"
  then obtain s' where d: "distributeTerritories rnd s = (Inr (), s')" "partitionInvariant s'"
      "map fst (territories s') = map fst (territories s)"
    using distributeTerritories_invariant [of s rnd] by blast
  from partition_of_invariant [OF d(2)] d
  show "\<exists>s'. distributeTerritories rnd s = (Inr (), s') \<and> partitionInvariant s'
              \<and> mset (ownedLists s' @ unowned s') = mset (map fst (territories s))"
    by auto
next
  assume "partitionInvariant s"
  then show "partitionInvariant (removeAgent aid s)" by (rule removeAgent_invariant)
  from partition_of_invariant [OF this]
  show "mset (ownedLists (removeAgent aid s) @ unowned (removeAgent aid s))
            = mset (map fst (territories s))"
    by (simp add: removeAgent_keys)
next
  assume h: "partitionInvariant s \<and> resolveBattles rnd s = (Inr rs, s1)"
  then show inv: "partitionInvariant s1" using resolveBattles_invariant by blast
  from partition_of_invariant [OF inv] resolveBattles_keys h
  show "mset (ownedLists s1 @ unowned s1) = mset (map fst (territories s))"
    by metis
qed

theorem partition_invariant_maintained_witness:
  "pristine pristineToy \<and> agents pristineToy \<noteq> []
   \<and> fst (distributeTerritories zeroRnd pristineToy) = Inr ()
   \<and> mset (ownedLists distributedToy @ unowned distributedToy)
       = mset (map fst (territories pristineToy))
   \<and> ownedLists distributedToy = [''t2'', ''t1'', ''t3'', ''t4'']
   \<and> mset (ownedLists (removeAgent ''agent-1'' distributedToy)
            @ unowned (removeAgent ''agent-1'' distributedToy))
       = mset (map fst (territories distributedToy))
   \<and> ownedLists (removeAgent ''agent-1'' distributedToy) = [''t3'', ''t4'']
   \<and> isl (fst (resolveBattles attackerLucky battleToy)) = False
   \<and> mset (ownedLists (snd (resolveBattles attackerLucky battleToy))
            @ unowned (snd (resolveBattles attackerLucky battleToy)))
       = mset (map fst (territories battleToy))
   \<and> ownedLists (snd (resolveBattles attackerLucky battleToy)) = [''t2'', ''t1'', ''t3'', ''t4'']"
proof -
  have p: "pristine pristineToy" by (rule pristineToy_parts)
  have a: "agents pristineToy \<noteq> []" using pristineToy_parts(2) by auto
  note T = partition_invariant_maintained
  from T [where s = pristineToy and rnd = zeroRnd, THEN conjunct2, THEN conjunct2, THEN conjunct1]
       p a zeroRnd_unit
  obtain s' where s': "distributeTerritories zeroRnd pristineToy = (Inr (), s')"
      "partitionInvariant s'"
      "mset (ownedLists s' @ unowned s') = mset (map fst (territories pristineToy))"
    by blast
  from s'(1) have ds: "distributedToy = s'" by (simp add: distributedToy_def)
  from s' ds have d: "fst (distributeTerritories zeroRnd pristineToy) = Inr ()"
    "partitionInvariant distributedToy"
    "mset (ownedLists distributedToy @ unowned distributedToy)
       = mset (map fst (territories pristineToy))"
    by simp_all
  from T [where s = distributedToy and aid = "''agent-1''", THEN conjunct2, THEN conjunct2,
          THEN conjunct2, THEN conjunct1] d(2)
  have r: "mset (ownedLists (removeAgent ''agent-1'' distributedToy)
            @ unowned (removeAgent ''agent-1'' distributedToy))
       = mset (map fst (territories distributedToy))"
    by blast
  have ib: "partitionInvariant battleToy"
    using d(2) invariant_only_map [of battleToy distributedToy] by (simp add: battleToy_def)
  obtain rs s1 where run: "resolveBattles attackerLucky battleToy = (Inr rs, s1)"
    using battleToy_run(1) by (cases "resolveBattles attackerLucky battleToy"; cases "fst (resolveBattles attackerLucky battleToy)") auto
  from T [where s = battleToy and rnd = attackerLucky and rs = rs and ?s1.0 = s1, THEN conjunct2,
          THEN conjunct2, THEN conjunct2, THEN conjunct2] ib run
  have "mset (ownedLists s1 @ unowned s1) = mset (map fst (territories battleToy))"
    by blast
  with run have b: "mset (ownedLists (snd (resolveBattles attackerLucky battleToy))
            @ unowned (snd (resolveBattles attackerLucky battleToy)))
       = mset (map fst (territories battleToy))"
    by simp
  show ?thesis
    using p a d(1,3) distributedToy_lists(2) r battleToy_run(3) battleToy_run(1) b battleToy_run(2)
    by (intro conjI)
qed

text \<open>
  A second \<open>distributeTerritories\<close> appends to the lists of the first: on the toy match
  the four territories are then listed eight times, \<open>t2\<close> by \<open>agent-1\<close> and by \<open>agent-3\<close>.
\<close>

theorem distributeTerritories_twice_breaks_partition:
  "mset (ownedLists distributedToy @ unowned distributedToy)
     = mset (map fst (territories distributedToy))
   \<and> fst (distributeTerritories halfRnd distributedToy) = Inr ()
   \<and> twiceToy = snd (distributeTerritories halfRnd distributedToy)
   \<and> map fst (territories twiceToy) = [''t1'', ''t2'', ''t3'', ''t4'']
   \<and> ownedLists twiceToy = [''t2'', ''t1'', ''t1'', ''t3'', ''t3'', ''t4'', ''t4'', ''t2'']
   \<and> \<not> partitionInvariant twiceToy"
proof -
  have "\<not> partitionInvariant twiceToy"
  proof
    assume "partitionInvariant twiceToy"
    from partition_of_invariant [OF this]
    have "size (mset (ownedLists twiceToy @ unowned twiceToy))
            = size (mset (map fst (territories twiceToy)))" by simp
    then show False by (simp add: twiceToy_lists)
  qed
  moreover have "mset (ownedLists distributedToy @ unowned distributedToy)
     = mset (map fst (territories distributedToy))"
    by (simp add: distributedToy_lists)
  ultimately show ?thesis
    using twiceToy_lists by (simp add: twiceToy_def)
qed

subsection \<open>Win conditions\<close>

lemma phase_declareWinner:
  "declareWinner now wt a s = (r, s') \<Longrightarrow>
     r = Inr (Some (wt, a_id a)) \<and> phase s' = Ended \<and> winner s' = Some (a_id a)"
  by (auto simp: declareWinner_def setPhase_def emit_def Let_def)

lemma dominates_iff: "dominates (length (territories s)) a = holdsSixtyPercent s a"
proof (cases "length (territories s) = 0")
  case True
  then show ?thesis by (simp add: dominates_def holdsSixtyPercent_def)
next
  case False
  define n where "n = length (territories s)"
  define k where "k = length (a_territories a)"
  have n: "0 < n" using False by (simp add: n_def)
  have "((6::rat) / 10 \<le> of_nat k / of_nat n) = ((6::rat) * of_nat n \<le> 10 * of_nat k)"
    using n by (simp add: field_simps)
  also have "\<dots> = ((of_nat (6 * n) :: rat) \<le> of_nat (10 * k))" by simp
  also have "\<dots> = (6 * n \<le> 10 * k)" by (simp only: of_nat_le_iff)
  finally have "dominates n a = (6 * n \<le> 10 * k)"
    using n by (simp add: dominates_def k_def)
  moreover have "6 * n \<le> 10 * k \<Longrightarrow> 0 < k" using n by simp
  ultimately show ?thesis unfolding holdsSixtyPercent_def n_def k_def by blast
qed

lemma find_first:
  assumes "\<forall>b \<in> set pre. \<not> P b" and "P a"
  shows "find P (pre @ a # post) = Some a"
  using assms by (induction pre) auto

text \<open>
  Claim C3 (as the code has it). \<open>checkWinCondition\<close> tries three rules in order, all of
  them over the non-eliminated participants. (1) Exactly one of them is left: it wins by
  elimination, whatever anybody else holds. (2) Otherwise the first of them, in joining
  order, that lists at least 60% of the territories wins by domination. (3) Otherwise,
  when the turn counter has reached the maximum and at least one of them exists, one of
  them with the highest number of listed territories wins. (4) Otherwise, below the
  maximum, the result is null and the state is the one given. Declaring a winner records
  it and sets the phase to ended.
\<close>

theorem checkWinCondition_priority:
  "(\<forall>a. getActiveAgents s = [a] \<longrightarrow>
        checkWinCondition now s = declareWinner now Elimination a s)
   \<and> (\<forall>pre a post.
        length (getActiveAgents s) \<noteq> 1 \<and> getActiveAgents s = pre @ a # post
        \<and> (\<forall>b \<in> set pre. \<not> holdsSixtyPercent s b) \<and> holdsSixtyPercent s a
      \<longrightarrow> checkWinCondition now s = declareWinner now Domination a s)
   \<and> (length (getActiveAgents s) \<noteq> 1
        \<and> (\<forall>a \<in> set (getActiveAgents s). \<not> holdsSixtyPercent s a)
        \<and> maxTurns s \<le> turn s \<and> getActiveAgents s \<noteq> []
      \<longrightarrow> (\<exists>w \<in> set (getActiveAgents s).
              (\<forall>a \<in> set (getActiveAgents s). length (a_territories a) \<le> length (a_territories w))
             \<and> checkWinCondition now s = declareWinner now Turns w s))
   \<and> (length (getActiveAgents s) \<noteq> 1
        \<and> (\<forall>a \<in> set (getActiveAgents s). \<not> holdsSixtyPercent s a)
        \<and> turn s < maxTurns s
      \<longrightarrow> checkWinCondition now s = (Inr None, s))
   \<and> (\<forall>wt a. declareWinner now wt a s =
                 (Inr (Some (wt, a_id a)), setPhase now Ended (s\<lparr>winner := Some (a_id a)\<rparr>))
               \<and> phase (snd (declareWinner now wt a s)) = Ended
               \<and> winner (snd (declareWinner now wt a s)) = Some (a_id a))"
proof (intro conjI allI impI)
  fix a assume "getActiveAgents s = [a]"
  then show "checkWinCondition now s = declareWinner now Elimination a s"
    by (simp add: checkWinCondition_def)
next
  fix pre a post
  assume h: "length (getActiveAgents s) \<noteq> 1 \<and> getActiveAgents s = pre @ a # post
        \<and> (\<forall>b \<in> set pre. \<not> holdsSixtyPercent s b) \<and> holdsSixtyPercent s a"
  then have "find (dominates (length (territories s))) (pre @ a # post) = Some a"
    by (intro find_first) (simp_all add: dominates_iff)
  with h have a: "find (dominates (length (territories s))) (getActiveAgents s) = Some a"
    by simp
  show "checkWinCondition now s = declareWinner now Domination a s"
    using h a by (auto simp: checkWinCondition_def Let_def split: list.splits)
next
  assume h: "length (getActiveAgents s) \<noteq> 1
        \<and> (\<forall>a \<in> set (getActiveAgents s). \<not> holdsSixtyPercent s a)
        \<and> maxTurns s \<le> turn s \<and> getActiveAgents s \<noteq> []"
  then have none: "find (dominates (length (territories s))) (getActiveAgents s) = None"
    by (auto simp: find_None_iff dominates_iff)
  from h obtain w ws where ws: "sortByTerritories (getActiveAgents s) = w # ws"
    using sort_key_nonempty [of "getActiveAgents s"] unfolding sortByTerritories_def
    by (metis list.exhaust)
  from sort_key_head [OF ws [unfolded sortByTerritories_def]]
  have "w \<in> set (getActiveAgents s)"
       "\<forall>a \<in> set (getActiveAgents s). length (a_territories a) \<le> length (a_territories w)"
    by auto
  moreover have "checkWinCondition now s = declareWinner now Turns w s"
    using h none ws by (auto simp: checkWinCondition_def Let_def split: list.splits)
  ultimately show "\<exists>w \<in> set (getActiveAgents s).
              (\<forall>a \<in> set (getActiveAgents s). length (a_territories a) \<le> length (a_territories w))
             \<and> checkWinCondition now s = declareWinner now Turns w s"
    by blast
next
  assume h: "length (getActiveAgents s) \<noteq> 1
        \<and> (\<forall>a \<in> set (getActiveAgents s). \<not> holdsSixtyPercent s a)
        \<and> turn s < maxTurns s"
  then have none: "find (dominates (length (territories s))) (getActiveAgents s) = None"
    by (auto simp: find_None_iff dominates_iff)
  show "checkWinCondition now s = (Inr None, s)"
    using h none by (auto simp: checkWinCondition_def Let_def split: list.splits)
next
  fix wt a
  show "declareWinner now wt a s =
          (Inr (Some (wt, a_id a)), setPhase now Ended (s\<lparr>winner := Some (a_id a)\<rparr>))"
    by (simp add: declareWinner_def)
  show "phase (snd (declareWinner now wt a s)) = Ended"
    by (simp add: declareWinner_def setPhase_def emit_def Let_def)
  show "winner (snd (declareWinner now wt a s)) = Some (a_id a)"
    by (simp add: declareWinner_def setPhase_def emit_def Let_def)
qed

theorem checkWinCondition_priority_witness:
  "getActiveAgents survivorGame = [mkAgent ''agent-2'' [''t4''] 3 False]
   \<and> map_of (agents survivorGame) ''agent-1'' = Some (mkAgent ''agent-1'' [''t1'', ''t2'', ''t3''] 9 True)
   \<and> length (territories survivorGame) = 5
   \<and> fst (checkWinCondition 7 survivorGame) = Inr (Some (Elimination, ''agent-2''))
   \<and> phase (snd (checkWinCondition 7 survivorGame)) = Ended
   \<and> getActiveAgents dominantGame
       = [mkAgent ''agent-1'' [''t1'', ''t2'', ''t3''] 9 False, mkAgent ''agent-2'' [''t4''] 3 False,
          mkAgent ''agent-3'' [''t5''] 3 False]
   \<and> length (territories dominantGame) = 5
   \<and> fst (checkWinCondition 7 dominantGame) = Inr (Some (Domination, ''agent-1''))
   \<and> phase (snd (checkWinCondition 7 dominantGame)) = Ended
   \<and> map (\<lambda>a. length (a_territories a)) (getActiveAgents lastTurnGame) = [2, 1, 1]
   \<and> length (territories lastTurnGame) = 4
   \<and> maxTurns lastTurnGame \<le> turn lastTurnGame
   \<and> fst (checkWinCondition 7 lastTurnGame) = Inr (Some (Turns, ''agent-1''))
   \<and> phase (snd (checkWinCondition 7 lastTurnGame)) = Ended
   \<and> map (\<lambda>a. length (a_territories a)) (getActiveAgents closeGame) = [4, 3]
   \<and> length (territories closeGame) = 7
   \<and> turn closeGame < maxTurns closeGame
   \<and> checkWinCondition 7 closeGame = (Inr None, closeGame)"
proof -
  have act: "getActiveAgents survivorGame = [mkAgent ''agent-2'' [''t4''] 3 False]"
       "map_of (agents survivorGame) ''agent-1'' = Some (mkAgent ''agent-1'' [''t1'', ''t2'', ''t3''] 9 True)"
       "length (territories survivorGame) = 5"
    by code_simp+
  have "checkWinCondition 7 survivorGame
          = declareWinner 7 Elimination (mkAgent ''agent-2'' [''t4''] 3 False) survivorGame"
    using checkWinCondition_priority [of survivorGame 7] act(1) by blast
  then have e: "fst (checkWinCondition 7 survivorGame) = Inr (Some (Elimination, ''agent-2''))"
               "phase (snd (checkWinCondition 7 survivorGame)) = Ended"
    by (simp_all add: declareWinner_def setPhase_def emit_def Let_def mkAgent_def)
  have d0: "getActiveAgents dominantGame
       = [] @ mkAgent ''agent-1'' [''t1'', ''t2'', ''t3''] 9 False
            # [mkAgent ''agent-2'' [''t4''] 3 False, mkAgent ''agent-3'' [''t5''] 3 False]"
           "length (territories dominantGame) = 5"
    by code_simp+
  then have "length (getActiveAgents dominantGame) \<noteq> 1
     \<and> getActiveAgents dominantGame
       = [] @ mkAgent ''agent-1'' [''t1'', ''t2'', ''t3''] 9 False
            # [mkAgent ''agent-2'' [''t4''] 3 False, mkAgent ''agent-3'' [''t5''] 3 False]
     \<and> (\<forall>b \<in> set []. \<not> holdsSixtyPercent dominantGame b)
     \<and> holdsSixtyPercent dominantGame (mkAgent ''agent-1'' [''t1'', ''t2'', ''t3''] 9 False)"
    by (simp add: holdsSixtyPercent_def mkAgent_def)
  with checkWinCondition_priority [of dominantGame 7, THEN conjunct2, THEN conjunct1]
  have "checkWinCondition 7 dominantGame
          = declareWinner 7 Domination (mkAgent ''agent-1'' [''t1'', ''t2'', ''t3''] 9 False) dominantGame"
    by blast
  then have d: "fst (checkWinCondition 7 dominantGame) = Inr (Some (Domination, ''agent-1''))"
               "phase (snd (checkWinCondition 7 dominantGame)) = Ended"
    by (simp_all add: declareWinner_def setPhase_def emit_def Let_def mkAgent_def)
  have t0: "map (\<lambda>a. length (a_territories a)) (getActiveAgents lastTurnGame) = [2, 1, 1]"
       "length (territories lastTurnGame) = 4"
       "maxTurns lastTurnGame \<le> turn lastTurnGame"
       "fst (checkWinCondition 7 lastTurnGame) = Inr (Some (Turns, ''agent-1''))"
    by code_simp+
  have tl: "length (getActiveAgents lastTurnGame) = 3"
    using arg_cong [OF t0(1), of length] by simp
  have "\<forall>k \<in> set (map (\<lambda>a. length (a_territories a)) (getActiveAgents lastTurnGame)).
          \<not> (0 < k \<and> 6 * length (territories lastTurnGame) \<le> 10 * k)"
    unfolding t0 by simp
  then have tn: "\<forall>a \<in> set (getActiveAgents lastTurnGame). \<not> holdsSixtyPercent lastTurnGame a"
    by (simp add: holdsSixtyPercent_def)
  from tl have "getActiveAgents lastTurnGame \<noteq> []" by auto
  with tl tn t0(3) have
    "length (getActiveAgents lastTurnGame) \<noteq> 1
     \<and> (\<forall>a \<in> set (getActiveAgents lastTurnGame). \<not> holdsSixtyPercent lastTurnGame a)
     \<and> maxTurns lastTurnGame \<le> turn lastTurnGame \<and> getActiveAgents lastTurnGame \<noteq> []"
    by simp
  with checkWinCondition_priority [of lastTurnGame 7, THEN conjunct2, THEN conjunct2, THEN conjunct1]
  obtain w where
    "checkWinCondition 7 lastTurnGame = declareWinner 7 Turns w lastTurnGame"
    by blast
  then have t: "phase (snd (checkWinCondition 7 lastTurnGame)) = Ended"
    by (simp add: declareWinner_def setPhase_def emit_def Let_def)
  have n0: "map (\<lambda>a. length (a_territories a)) (getActiveAgents closeGame) = [4, 3]"
       "length (territories closeGame) = 7"
       "turn closeGame < maxTurns closeGame"
    by code_simp+
  have nl: "length (getActiveAgents closeGame) = 2"
    using arg_cong [OF n0(1), of length] by simp
  have "\<forall>k \<in> set (map (\<lambda>a. length (a_territories a)) (getActiveAgents closeGame)).
          \<not> (0 < k \<and> 6 * length (territories closeGame) \<le> 10 * k)"
    unfolding n0 by simp
  then have "\<forall>a \<in> set (getActiveAgents closeGame). \<not> holdsSixtyPercent closeGame a"
    by (simp add: holdsSixtyPercent_def)
  with nl n0(3) have
    "length (getActiveAgents closeGame) \<noteq> 1
     \<and> (\<forall>a \<in> set (getActiveAgents closeGame). \<not> holdsSixtyPercent closeGame a)
     \<and> turn closeGame < maxTurns closeGame"
    by simp
  with checkWinCondition_priority [of closeGame 7, THEN conjunct2, THEN conjunct2, THEN conjunct2,
         THEN conjunct1]
  have n: "checkWinCondition 7 closeGame = (Inr None, closeGame)"
    by blast
  have d1: "getActiveAgents dominantGame
       = [mkAgent ''agent-1'' [''t1'', ''t2'', ''t3''] 9 False, mkAgent ''agent-2'' [''t4''] 3 False,
          mkAgent ''agent-3'' [''t5''] 3 False]"
    using d0(1) by simp
  show ?thesis
    using act e d1 d0(2) d t0 t n0 n by (intro conjI)
qed

text \<open>
  A saved match in which \<open>agent-1\<close> is flagged as eliminated and lists three of the five
  territories, which is 60%: loaded by \<open>fromJSON\<close>, with two other participants active
  and the turn counter below the maximum, \<open>checkWinCondition\<close> declares no winner, where
  the claim has the participant with a share of 60% win by domination.
\<close>

theorem checkWinCondition_ignores_eliminated_holder:
  "map_of (agents dominatedGame) ''agent-1'' = Some (mkAgent ''agent-1'' [''t1'', ''t2'', ''t3''] 9 True)
   \<and> length (a_territories (mkAgent ''agent-1'' [''t1'', ''t2'', ''t3''] 9 True)) = 3
   \<and> length (territories dominatedGame) = 5
   \<and> length (getActiveAgents dominatedGame) = 2
   \<and> checkWinCondition 7 dominatedGame = (Inr None, dominatedGame)"
proof -
  have "map_of (agents dominatedGame) ''agent-1'' = Some (mkAgent ''agent-1'' [''t1'', ''t2'', ''t3''] 9 True)"
       "length (a_territories (mkAgent ''agent-1'' [''t1'', ''t2'', ''t3''] 9 True)) = 3"
       "length (territories dominatedGame) = 5"
       "length (getActiveAgents dominatedGame) = 2"
       "checkWinCondition 7 dominatedGame = (Inr None, dominatedGame)"
    by code_simp+
  then show ?thesis by (intro conjI)
qed

section \<open>Properties of ReputationEngine\<close>

lemma updateDealCounts_same:
  "map_of (agentReputations e) a = Some r \<Longrightarrow>
   map_of (agentReputations (updateDealCounts a kind e)) a = Some (recalculateTrust (bumpDealCount kind r))"
  by (simp add: updateDealCounts_def map_of_map_entry_if)

lemma updateDealCounts_other:
  "k \<noteq> a \<Longrightarrow> map_of (agentReputations (updateDealCounts a kind e)) k = map_of (agentReputations e) k"
  by (simp add: updateDealCounts_def map_of_map_entry_if)

lemma deals_updateDealCounts [simp]: "deals (updateDealCounts a kind e) = deals e"
  by (simp add: updateDealCounts_def)

lemma alliances_updateDealCounts [simp]: "alliances (updateDealCounts a kind e) = alliances e"
  by (simp add: updateDealCounts_def)

lemma recordBetrayal_betrayer:
  "map_of (agentReputations e) b = Some r \<Longrightarrow> b \<noteq> v \<Longrightarrow>
   map_of (agentReputations (recordBetrayal now b v ty e)) b =
     Some (r\<lparr>betrayals := betrayals r @ [\<lparr>bt_party = v, bt_type = ty, bt_timestamp = now\<rparr>],
             trustScore := max 0 (trustScore r - 10)\<rparr>)"
  by (simp add: recordBetrayal_def Let_def map_of_map_entry_if)

lemma recordBetrayal_victim:
  "map_of (agentReputations e) v = Some r \<Longrightarrow> b \<noteq> v \<Longrightarrow>
   map_of (agentReputations (recordBetrayal now b v ty e)) v =
     Some (r\<lparr>betrayedBy := betrayedBy r @ [\<lparr>bt_party = b, bt_type = ty, bt_timestamp = now\<rparr>]\<rparr>)"
  by (simp add: recordBetrayal_def Let_def map_of_map_entry_if)

lemma recordBetrayal_self:
  "map_of (agentReputations e) b = Some r \<Longrightarrow>
   map_of (agentReputations (recordBetrayal now b b ty e)) b =
     Some (r\<lparr>betrayals := betrayals r @ [\<lparr>bt_party = b, bt_type = ty, bt_timestamp = now\<rparr>],
             trustScore := max 0 (trustScore r - 10),
             betrayedBy := betrayedBy r @ [\<lparr>bt_party = b, bt_type = ty, bt_timestamp = now\<rparr>]\<rparr>)"
  by (simp add: recordBetrayal_def Let_def map_of_map_entry_if)

lemma deals_recordBetrayal [simp]: "deals (recordBetrayal now b v ty e) = deals e"
  by (simp add: recordBetrayal_def Let_def)

lemma alliances_recordBetrayal [simp]: "alliances (recordBetrayal now b v ty e) = alliances e"
  by (simp add: recordBetrayal_def Let_def)

lemma recalculateTrust_fields [simp]:
  "dealsKept (recalculateTrust r) = dealsKept r"
  "dealsBroken (recalculateTrust r) = dealsBroken r"
  "dealsMade (recalculateTrust r) = dealsMade r"
  "betrayals (recalculateTrust r) = betrayals r"
  "betrayedBy (recalculateTrust r) = betrayedBy r"
  by (simp_all add: recalculateTrust_def Let_def)

lemma bumpDealCount_fields [simp]:
  "betrayals (bumpDealCount k r) = betrayals r"
  "betrayedBy (bumpDealCount k r) = betrayedBy r"
  "trustScore (bumpDealCount k r) = trustScore r"
  by (cases k; simp)+

lemma trust_after_broken:
  "trustScore (recalculateTrust (bumpDealCount BrokenCount r)) =
     js_round (fl (fl (trustScore r * fl (3 / 10))
                   + fl (fl (fl (of_nat (dealsKept r) / of_nat (dealsKept r + (dealsBroken r + 1)))
                             * 100) * fl (7 / 10))))"
  by (simp add: recalculateTrust_def Let_def)

lemma breakDeal_unfold:
  assumes "map_of (deals e) dealId = Some d"
      and "d_status d = Active \<or> d_status d = Pending"
  shows "breakDeal now dealId agentId reason e =
          (let d' = d\<lparr>d_status := Broken, d_brokenBy := Some agentId, d_brokenAt := Some now,
                       d_breakReason := Some reason\<rparr>;
               other = (if d_proposer d = agentId then d_acceptor d else d_proposer d)
           in (Some d',
               updateDealCounts other Kept
                 (updateDealCounts agentId BrokenCount
                    (recordBetrayal now agentId other (d_type d)
                       (e\<lparr>deals := AList.update dealId d' (deals e)\<rparr>)))))"
  using assms by (auto simp: breakDeal_def Let_def)

lemma broken_is_refused:
  assumes "map_of (deals e) dealId = Some d" and "d_status d = Broken"
  shows "breakDeal now dealId agentId reason e = (None, e)"
    and "fulfillDeal now dealId agentId e = (False, e)"
  using assms by (simp_all add: breakDeal_def fulfillDeal_def)

lemma toyLedger_value:
  "toyLedger =
     \<lparr>agentReputations = [(''agent-1'', freshReputation ''agent-1'' ''Alexander'' 1),
                          (''agent-2'', freshReputation ''agent-2'' ''Bismarck'' 1),
                          (''agent-3'', freshReputation ''agent-3'' ''Iago'' 0)],
      deals = [(''deal-1'', activeDeal)],
      alliances = [(''alliance-1'', pairAlliance)]\<rparr>"
  by (simp add: toyLedger_def toyCalls_def calls_def newReputationEngine_def initializeAgent_def recordDeal_def
     acceptDeal_def formAlliance_def toyDeal_def toyAlliance_def updateDealCounts_def updateAllianceCounts_def
     recalculateTrust_def Let_def freshReputation_def activeDeal_def pairAlliance_def)

text \<open>
  What \<open>breakDeal\<close> does when a party to a deal that is active or pending breaks it and
  both parties have a reputation record: it returns the deal with status broken, the
  breaker's \<open>dealsBroken\<close> and the counterpart's \<open>dealsKept\<close> each grow by one, the
  breaker's list of betrayals gains exactly one entry, naming the counterpart, and the
  breaker's trust is charged the betrayal penalty of 10 (not below 0) before it is blended
  with the new deal ratio. Afterwards \<open>breakDeal\<close> and \<open>fulfillDeal\<close> refuse the deal without
  changing the ledger.
\<close>

lemma breakDeal_changes:
  assumes d: "map_of (deals e) dealId = Some d"
      and st: "d_status d = Active \<or> d_status d = Pending"
      and party: "agentId = d_proposer d \<or> agentId = d_acceptor d"
      and other: "other = (if d_proposer d = agentId then d_acceptor d else d_proposer d)"
      and rb: "map_of (agentReputations e) agentId = Some rb"
      and ro: "map_of (agentReputations e) other = Some ro"
  shows "\<exists>d' e' rb' ro'.
           breakDeal now dealId agentId reason e = (Some d', e')
         \<and> d_status d' = Broken \<and> d_brokenBy d' = Some agentId
         \<and> map_of (deals e') dealId = Some d'
         \<and> map_of (agentReputations e') agentId = Some rb'
         \<and> map_of (agentReputations e') other = Some ro'
         \<and> dealsBroken rb' = dealsBroken rb + 1
         \<and> dealsKept ro' = dealsKept ro + 1
         \<and> betrayals rb' = betrayals rb @ [\<lparr>bt_party = other, bt_type = d_type d, bt_timestamp = now\<rparr>]
         \<and> (agentId \<noteq> other \<longrightarrow>
              dealsKept rb' = dealsKept rb
            \<and> trustScore rb' =
                js_round (fl (fl (max 0 (trustScore rb - 10) * fl (3 / 10))
                              + fl (fl (fl (of_nat (dealsKept rb)
                                            / of_nat (dealsKept rb + (dealsBroken rb + 1))) * 100)
                                    * fl (7 / 10)))))
         \<and> breakDeal now' dealId agentId' reason' e' = (None, e')
         \<and> fulfillDeal now' dealId agentId' e' = (False, e')"
proof -
  define d' where "d' = d\<lparr>d_status := Broken, d_brokenBy := Some agentId, d_brokenAt := Some now,
                          d_breakReason := Some reason\<rparr>"
  define e1 where "e1 = e\<lparr>deals := AList.update dealId d' (deals e)\<rparr>"
  define e2 where "e2 = recordBetrayal now agentId other (d_type d) e1"
  define e3 where "e3 = updateDealCounts agentId BrokenCount e2"
  define e4 where "e4 = updateDealCounts other Kept e3"
  have res: "breakDeal now dealId agentId reason e = (Some d', e4)"
    unfolding breakDeal_unfold [OF d st] e4_def e3_def e2_def e1_def d'_def other Let_def ..
  have deals4: "map_of (deals e4) dealId = Some d'"
    by (simp add: e4_def e3_def e2_def e1_def update_conv')
  have st': "d_status d' = Broken" "d_brokenBy d' = Some agentId"
    by (simp_all add: d'_def)
  have reps1: "agentReputations e1 = agentReputations e" by (simp add: e1_def)
  note refused = broken_is_refused [OF deals4 st'(1)]
  show ?thesis
  proof (cases "agentId = other")
    case False
    have b2: "map_of (agentReputations e2) agentId =
               Some (rb\<lparr>betrayals := betrayals rb @ [\<lparr>bt_party = other, bt_type = d_type d, bt_timestamp = now\<rparr>],
                        trustScore := max 0 (trustScore rb - 10)\<rparr>)"
      unfolding e2_def using rb False by (intro recordBetrayal_betrayer) (simp_all add: reps1)
    have o2: "map_of (agentReputations e2) other =
               Some (ro\<lparr>betrayedBy := betrayedBy ro @ [\<lparr>bt_party = agentId, bt_type = d_type d, bt_timestamp = now\<rparr>]\<rparr>)"
      unfolding e2_def using ro False by (intro recordBetrayal_victim) (simp_all add: reps1)
    have b3: "map_of (agentReputations e3) agentId = Some (recalculateTrust (bumpDealCount BrokenCount
               (rb\<lparr>betrayals := betrayals rb @ [\<lparr>bt_party = other, bt_type = d_type d, bt_timestamp = now\<rparr>],
                   trustScore := max 0 (trustScore rb - 10)\<rparr>)))"
      unfolding e3_def by (rule updateDealCounts_same [OF b2])
    have o3: "map_of (agentReputations e3) other =
               Some (ro\<lparr>betrayedBy := betrayedBy ro @ [\<lparr>bt_party = agentId, bt_type = d_type d, bt_timestamp = now\<rparr>]\<rparr>)"
      unfolding e3_def using False o2 by (simp add: updateDealCounts_other)
    have b4: "map_of (agentReputations e4) agentId = Some (recalculateTrust (bumpDealCount BrokenCount
               (rb\<lparr>betrayals := betrayals rb @ [\<lparr>bt_party = other, bt_type = d_type d, bt_timestamp = now\<rparr>],
                   trustScore := max 0 (trustScore rb - 10)\<rparr>)))"
      unfolding e4_def using False b3 by (simp add: updateDealCounts_other)
    have o4: "map_of (agentReputations e4) other = Some (recalculateTrust (bumpDealCount Kept
               (ro\<lparr>betrayedBy := betrayedBy ro @ [\<lparr>bt_party = agentId, bt_type = d_type d, bt_timestamp = now\<rparr>]\<rparr>)))"
      unfolding e4_def by (rule updateDealCounts_same [OF o3])
    show ?thesis
      apply (intro exI conjI)
      apply (rule res)
      apply (rule st')+
      apply (rule deals4)
      apply (rule b4)
      apply (rule o4)
      apply simp
      apply simp
      apply simp
      apply (intro impI conjI)
      apply simp
      apply (subst trust_after_broken, simp)
      apply (rule refused)+
      done
  next
    case True
    have ro_rb: "ro = rb" using rb ro True by simp
    have b2: "map_of (agentReputations e2) agentId =
               Some (rb\<lparr>betrayals := betrayals rb @ [\<lparr>bt_party = agentId, bt_type = d_type d, bt_timestamp = now\<rparr>],
                        trustScore := max 0 (trustScore rb - 10),
                        betrayedBy := betrayedBy rb @ [\<lparr>bt_party = agentId, bt_type = d_type d, bt_timestamp = now\<rparr>]\<rparr>)"
      unfolding e2_def True [symmetric] using rb by (intro recordBetrayal_self) (simp add: reps1)
    note b3 = updateDealCounts_same [OF b2, of BrokenCount, folded e3_def]
    have e4': "e4 = updateDealCounts agentId Kept e3" by (simp add: e4_def True)
    note b4 = updateDealCounts_same [OF b3, of Kept, folded e4']
    show ?thesis
      apply (intro exI conjI)
      apply (rule res)
      apply (rule st')+
      apply (rule deals4)
      apply (rule b4)
      apply (simp add: True [symmetric] b4)
      apply simp
      apply (simp add: ro_rb)
      apply (simp add: True [symmetric])
      apply (simp add: True)
      apply (rule refused)+
      done
  qed
qed

lemma brokenLedger_run:
  "(let e = brokenLedger;
        e2 = snd (acceptDeal 5 ''deal-1'' ''agent-2'' e);
        r = breakDeal 6 ''deal-1'' ''agent-1'' ''again'' e2
    in (map_option d_status (map_of (deals e) ''deal-1''),
        map_option (\<lambda>r. (dealsBroken r, length (betrayals r), trustScore r))
          (map_of (agentReputations e) ''agent-1''),
        map_option dealsKept (map_of (agentReputations e) ''agent-2''),
        isl (fst (acceptDeal 5 ''deal-1'' ''agent-2'' e)),
        map_option d_status (map_of (deals e2) ''deal-1''),
        map_option d_status (fst r),
        map_option (\<lambda>r. (dealsBroken r, length (betrayals r)))
          (map_of (agentReputations (snd r)) ''agent-1'')))
   = (Some Broken, Some (1, 1, 12), Some 1, False, Some Active, Some Broken, Some (2, 2))"
  by code_simp

lemma brokenLedger_deal:
  "map_option d_status (map_of (deals brokenLedger) ''deal-1'') = Some Broken"
  "map_option (\<lambda>r. (dealsBroken r, length (betrayals r), trustScore r))
     (map_of (agentReputations brokenLedger) ''agent-1'') = Some (1, 1, 12)"
  "map_option dealsKept (map_of (agentReputations brokenLedger) ''agent-2'') = Some 1"
  "isl (fst (acceptDeal 5 ''deal-1'' ''agent-2'' brokenLedger)) = False"
  "map_option d_status (map_of (deals reacceptedLedger) ''deal-1'') = Some Active"
  "map_option d_status (fst (breakDeal 6 ''deal-1'' ''agent-1'' ''again'' reacceptedLedger))
     = Some Broken"
  "map_option (\<lambda>r. (dealsBroken r, length (betrayals r)))
     (map_of (agentReputations (snd (breakDeal 6 ''deal-1'' ''agent-1'' ''again'' reacceptedLedger)))
        ''agent-1'') = Some (2, 2)"
  using brokenLedger_run unfolding Let_def reacceptedLedger_def [symmetric] prod.inject
  by blast+

lemma brokenLedger_refuses:
  "breakDeal 5 ''deal-1'' ''agent-2'' ''again'' brokenLedger = (None, brokenLedger)"
  "fulfillDeal 5 ''deal-1'' ''agent-2'' brokenLedger = (False, brokenLedger)"
proof -
  from brokenLedger_deal(1) obtain d where
    "map_of (deals brokenLedger) ''deal-1'' = Some d" "d_status d = Broken"
    by (cases "map_of (deals brokenLedger) ''deal-1''") auto
  then show "breakDeal 5 ''deal-1'' ''agent-2'' ''again'' brokenLedger = (None, brokenLedger)"
    and "fulfillDeal 5 ''deal-1'' ''agent-2'' brokenLedger = (False, brokenLedger)"
    by (rule broken_is_refused)+
qed

lemma toyLedger_deal: "map_option d_status (map_of (deals toyLedger) ''deal-1'') = Some Active"
  by (simp add: toyLedger_value activeDeal_def)

text \<open>
  Claim C8, where the code departs from it. Broken is not a terminal status. In the toy
  ledger \<open>agent-1\<close> breaks the active deal with \<open>agent-2\<close>: the status is broken, the
  breaker has one broken deal, one betrayal and, after the penalty and the blend, trust
  12, the counterpart one kept deal, and \<open>breakDeal\<close> and \<open>fulfillDeal\<close> refuse the deal as
  the claim says. But \<open>acceptDeal\<close>, which unlike them does not look at the status, sets
  the broken deal to active again, after which it is broken a second time, with a second
  betrayal and a second broken deal counted for the same deal.
\<close>

theorem acceptDeal_reactivates_broken_deal:
  "map_option d_status (map_of (deals toyLedger) ''deal-1'') = Some Active
   \<and> map_option d_status (map_of (deals brokenLedger) ''deal-1'') = Some Broken
   \<and> map_option (\<lambda>r. (dealsBroken r, length (betrayals r), trustScore r))
        (map_of (agentReputations brokenLedger) ''agent-1'') = Some (1, 1, 12)
   \<and> map_option dealsKept (map_of (agentReputations brokenLedger) ''agent-2'') = Some 1
   \<and> breakDeal 5 ''deal-1'' ''agent-2'' ''again'' brokenLedger = (None, brokenLedger)
   \<and> fulfillDeal 5 ''deal-1'' ''agent-2'' brokenLedger = (False, brokenLedger)
   \<and> isl (fst (acceptDeal 5 ''deal-1'' ''agent-2'' brokenLedger)) = False
   \<and> map_option d_status (map_of (deals reacceptedLedger) ''deal-1'') = Some Active
   \<and> map_option d_status (fst (breakDeal 6 ''deal-1'' ''agent-1'' ''again'' reacceptedLedger))
       = Some Broken
   \<and> map_option (\<lambda>r. (dealsBroken r, length (betrayals r)))
        (map_of (agentReputations (snd (breakDeal 6 ''deal-1'' ''agent-1'' ''again'' reacceptedLedger)))
           ''agent-1'') = Some (2, 2)"
  using toyLedger_deal brokenLedger_deal(1-3) brokenLedger_refuses brokenLedger_deal(4-7)
  by (intro conjI)

subsection \<open>Leaving an alliance\<close>

text \<open>
  Claim C10. On every alliance id of the ledger \<open>leaveAlliance\<close> returns true, whoever
  calls and whatever the status; reputations (betrayals, trust) and deals are untouched;
  the caller is removed from the members, which changes nothing for a non-member; and
  the status becomes dissolved exactly when fewer than two members remain, and is kept
  otherwise.
\<close>

theorem leaveAlliance_effect:
  assumes "map_of (alliances e) allianceId = Some a"
  shows "fst (leaveAlliance allianceId agentId e) = True
       \<and> agentReputations (snd (leaveAlliance allianceId agentId e)) = agentReputations e
       \<and> deals (snd (leaveAlliance allianceId agentId e)) = deals e
       \<and> (\<exists>a'. map_of (alliances (snd (leaveAlliance allianceId agentId e))) allianceId = Some a'
              \<and> al_members a' = filter (\<lambda>m. m \<noteq> agentId) (al_members a)
              \<and> (agentId \<notin> set (al_members a) \<longrightarrow> al_members a' = al_members a)
              \<and> al_status a' = (if length (filter (\<lambda>m. m \<noteq> agentId) (al_members a)) < 2
                                then Dissolved else al_status a))
       \<and> (\<forall>k. k \<noteq> allianceId \<longrightarrow>
              map_of (alliances (snd (leaveAlliance allianceId agentId e))) k = map_of (alliances e) k)"
  using assms
  by (auto simp: leaveAlliance_def Let_def update_conv' filter_id_conv)

theorem leaveAlliance_effect_witness:
  "map_of (alliances toyLedger) ''alliance-1'' = Some pairAlliance
   \<and> ''agent-3'' \<notin> set (al_members pairAlliance)
   \<and> fst (leaveAlliance ''alliance-1'' ''agent-3'' toyLedger) = True
   \<and> agentReputations (snd (leaveAlliance ''alliance-1'' ''agent-3'' toyLedger))
       = agentReputations toyLedger"
  using leaveAlliance_effect [of toyLedger "''alliance-1''" pairAlliance "''agent-3''"]
  by (simp add: toyLedger_value pairAlliance_def)

subsection \<open>The trust score stays in range\<close>

lemma trustInRange_alt: "trustInRange e = (\<forall>(k, r) \<in> set (agentReputations e). inRange r)"
  by (auto simp: trustInRange_def inRange_def list_all_iff)

lemma range_map_entry:
  assumes "\<forall>(k, r) \<in> set xs. inRange r" and "\<And>r. inRange r \<Longrightarrow> inRange (f r)"
  shows "\<forall>(k, r) \<in> set (AList.map_entry a f xs). inRange r"
  using assms by (auto dest!: set_map_entry_subset)

lemma range_update:
  assumes "\<forall>(k, r) \<in> set xs. inRange r" and "inRange v"
  shows "\<forall>(k, r) \<in> set (AList.update a v xs). inRange r"
  using assms by (auto dest!: set_update_subset)

lemma js_round_bounds:
  assumes "0 \<le> x" and "x \<le> 100"
  shows "0 \<le> js_round x" and "js_round x \<le> 100"
proof -
  have "0 \<le> \<lfloor>x + 1 / 2\<rfloor>" using assms by (simp add: le_floor_iff)
  then show "0 \<le> js_round x" by (simp add: js_round_def)
  have "x + 1 / 2 < 101" using assms by simp
  then have "\<lfloor>x + 1 / 2\<rfloor> < 101" by (simp add: floor_less_iff)
  then have "\<lfloor>x + 1 / 2\<rfloor> \<le> 100" by simp
  then show "js_round x \<le> 100" unfolding js_round_def
    by (metis of_int_le_iff of_int_numeral)
qed

lemma ratio_bounds:
  fixes k b :: nat
  assumes "0 < k + b"
  shows "0 \<le> (of_nat k :: rat) / of_nat (k + b)" and "(of_nat k :: rat) / of_nat (k + b) \<le> 1"
  using assms by (simp_all add: divide_le_eq)

lemma blend_bounds:
  fixes t q :: rat
  assumes t: "0 \<le> t" "t \<le> 100" and q: "0 \<le> q" "q \<le> 1"
  shows "0 \<le> fl (fl (t * fl (3 / 10)) + fl (fl (fl q * 100) * fl (7 / 10)))"
    and "fl (fl (t * fl (3 / 10)) + fl (fl (fl q * 100) * fl (7 / 10))) \<le> 100"
proof -
  have a0: "0 \<le> t * fl (3 / 10)" using t fl_tenths by simp
  have "t * fl (3 / 10) \<le> 100 * (3 / 10)"
    using t fl_tenths by (intro mult_mono) simp_all
  then have a1: "t * fl (3 / 10) \<le> 30" by simp
  have A: "0 \<le> fl (t * fl (3 / 10))" "fl (t * fl (3 / 10)) \<le> 30"
    using a0 a1 by (auto intro: fl_nonneg fl_le_double fl_whole)
  have Q: "0 \<le> fl q" "fl q \<le> 1"
    using q by (auto intro: fl_nonneg fl_le_double fl_whole)
  then have "0 \<le> fl q * 100" "fl q * 100 \<le> 100" by simp_all
  then have B0: "0 \<le> fl (fl q * 100)" "fl (fl q * 100) \<le> 100"
    by (auto intro: fl_nonneg fl_le_double fl_whole)
  have b0: "0 \<le> fl (fl q * 100) * fl (7 / 10)" using B0 fl_tenths by simp
  have "fl (fl q * 100) * fl (7 / 10) \<le> 100 * (7 / 10)"
    using B0 fl_tenths by (intro mult_mono) simp_all
  then have b1: "fl (fl q * 100) * fl (7 / 10) \<le> 70" by simp
  have B: "0 \<le> fl (fl (fl q * 100) * fl (7 / 10))" "fl (fl (fl q * 100) * fl (7 / 10)) \<le> 70"
    using b0 b1 by (auto intro: fl_nonneg fl_le_double fl_whole)
  have s0: "0 \<le> fl (t * fl (3 / 10)) + fl (fl (fl q * 100) * fl (7 / 10))"
    using A B by simp
  have s1: "fl (t * fl (3 / 10)) + fl (fl (fl q * 100) * fl (7 / 10)) \<le> 100"
    using A B by simp
  show "0 \<le> fl (fl (t * fl (3 / 10)) + fl (fl (fl q * 100) * fl (7 / 10)))"
    using s0 by (rule fl_nonneg)
  show "fl (fl (t * fl (3 / 10)) + fl (fl (fl q * 100) * fl (7 / 10))) \<le> 100"
    using s0 s1 by (rule fl_le_double) (rule fl_whole)
qed

lemma inRange_recalculateTrust: "inRange r \<Longrightarrow> inRange (recalculateTrust r)"
proof (cases "0 < dealsKept r + dealsBroken r")
  case False
  assume "inRange r"
  with False show ?thesis by (simp add: recalculateTrust_def)
next
  case True
  assume r: "inRange r"
  let ?q = "(of_nat (dealsKept r) :: rat) / of_nat (dealsKept r + dealsBroken r)"
  let ?x = "fl (fl (trustScore r * fl (3 / 10)) + fl (fl (fl ?q * 100) * fl (7 / 10)))"
  have q: "0 \<le> ?q" "?q \<le> 1" using ratio_bounds [OF True] by auto
  have t: "0 \<le> trustScore r" "trustScore r \<le> 100" using r by (auto simp: inRange_def)
  have "0 \<le> ?x" "?x \<le> 100" using blend_bounds [OF t q] by auto
  then have "0 \<le> js_round ?x" "js_round ?x \<le> 100" by (rule js_round_bounds)+
  with True show ?thesis by (simp add: recalculateTrust_def Let_def inRange_def)
qed

lemma inRange_bumpDealCount: "inRange r \<Longrightarrow> inRange (bumpDealCount k r)"
  by (cases k) (simp_all add: inRange_def)

lemma inRange_bumpAllianceCount: "inRange r \<Longrightarrow> inRange (bumpAllianceCount k r)"
  by (cases k) (simp_all add: inRange_def)

lemma range_updateDealCounts: "trustInRange e \<Longrightarrow> trustInRange (updateDealCounts a k e)"
  unfolding trustInRange_alt updateDealCounts_def
  by (simp, rule range_map_entry) (auto intro: inRange_recalculateTrust inRange_bumpDealCount)

lemma range_updateAllianceCounts: "trustInRange e \<Longrightarrow> trustInRange (updateAllianceCounts a k e)"
  unfolding trustInRange_alt updateAllianceCounts_def
  by (simp, rule range_map_entry) (auto intro: inRange_bumpAllianceCount)

lemma range_recordBetrayal: "trustInRange e \<Longrightarrow> trustInRange (recordBetrayal now b v ty e)"
  unfolding trustInRange_alt recordBetrayal_def Let_def
  by (simp, intro range_map_entry) (auto simp: inRange_def)

lemma range_initializeAgent: "trustInRange e \<Longrightarrow> trustInRange (initializeAgent now a n e)"
  unfolding trustInRange_alt initializeAgent_def
  by (simp, rule range_update) (auto simp: inRange_def)

lemma range_only_reputations:
  "agentReputations e' = agentReputations e \<Longrightarrow> trustInRange e \<Longrightarrow> trustInRange e'"
  by (simp add: trustInRange_def)

lemma range_recordDeal: "trustInRange e \<Longrightarrow> trustInRange (snd (recordDeal gen now d e))"
  unfolding recordDeal_def Let_def
  by (auto intro!: range_updateDealCounts elim: range_only_reputations [rotated])

lemma range_acceptDeal: "trustInRange e \<Longrightarrow> trustInRange (snd (acceptDeal now d a e))"
  unfolding acceptDeal_def Let_def
  by (auto split: option.splits elim: range_only_reputations [rotated])

lemma range_fulfillDeal: "trustInRange e \<Longrightarrow> trustInRange (snd (fulfillDeal now d a e))"
  unfolding fulfillDeal_def Let_def
  by (auto split: option.splits intro!: range_updateDealCounts elim: range_only_reputations [rotated])

lemma range_breakDeal: "trustInRange e \<Longrightarrow> trustInRange (snd (breakDeal now d a r e))"
  unfolding breakDeal_def Let_def
  by (auto split: option.splits intro!: range_updateDealCounts range_recordBetrayal
           elim: range_only_reputations [rotated])

lemma range_foldl:
  assumes "\<And>x acc. trustInRange acc \<Longrightarrow> trustInRange (f acc x)" and "trustInRange e"
  shows "trustInRange (foldl f e xs)"
  using assms(2) by (induction xs arbitrary: e) (auto intro: assms(1))

lemma range_formAlliance: "trustInRange e \<Longrightarrow> trustInRange (snd (formAlliance gen dflt now a e))"
  unfolding formAlliance_def Let_def
  by (auto intro!: range_foldl range_updateAllianceCounts elim: range_only_reputations [rotated])

lemma range_breakAlliance: "trustInRange e \<Longrightarrow> trustInRange (snd (breakAlliance now al a r e))"
  unfolding breakAlliance_def Let_def
  by (auto split: option.splits intro!: range_foldl range_updateAllianceCounts range_recordBetrayal
           elim: range_only_reputations [rotated])

lemma range_leaveAlliance: "trustInRange e \<Longrightarrow> trustInRange (snd (leaveAlliance al a e))"
  unfolding leaveAlliance_def Let_def
  by (auto split: option.splits elim: range_only_reputations [rotated])

lemma range_onRep:
  assumes "trustInRange e" and "\<And>r. inRange r \<Longrightarrow> inRange (f r)"
  shows "trustInRange (e\<lparr>agentReputations := AList.map_entry a f (agentReputations e)\<rparr>)"
  using assms unfolding trustInRange_alt by (simp, intro range_map_entry) auto

lemma range_classifyAction: "trustInRange e \<Longrightarrow> trustInRange (classifyAction now act e)"
  unfolding classifyAction_def Let_def
  by (auto split: option.splits intro!: range_onRep range_recordBetrayal simp: inRange_def)

lemma range_analyzeAction: "trustInRange e \<Longrightarrow> trustInRange (analyzeAction now act e)"
  unfolding analyzeAction_def Let_def
  by (auto split: option.splits intro!: range_onRep range_classifyAction simp: inRange_def)

lemma range_call: "trustInRange e \<Longrightarrow> trustInRange (call c e)"
  by (cases c)
     (simp_all add: range_initializeAgent range_recordDeal range_acceptDeal range_fulfillDeal
        range_breakDeal range_recordBetrayal range_formAlliance range_breakAlliance
        range_leaveAlliance range_analyzeAction range_updateDealCounts)

lemma range_calls: "trustInRange e \<Longrightarrow> trustInRange (calls cs e)"
  unfolding calls_def by (rule range_foldl) (auto intro: range_call)

lemma calls_snoc: "calls (cs @ [c]) e = call c (calls cs e)"
  by (simp add: calls_def)

lemma brokenLedger_agent1:
  "map_of (agentReputations (calls (toyCalls @ [BreakDeal 4 ''deal-1'' ''agent-1'' ''betrayal''])
                               newReputationEngine)) ''agent-1'' = Some brokenReputation"
  by code_simp

text \<open>
  Claim C6. Starting from the empty ledger, where \<open>initializeAgent\<close> gives every
  participant the trust score 50, after any sequence of calls of the ledger's methods
  (deals recorded, accepted, fulfilled and broken, betrayals, alliances, analysed
  keep-deal and break-deal actions, deal-count updates with the weighted blend) every
  reputation record has a trust score between 0 and 100.
\<close>

theorem trustScore_stays_in_range:
  "map_of (agentReputations (calls cs newReputationEngine)) agentId = Some r
     \<Longrightarrow> 0 \<le> trustScore r \<and> trustScore r \<le> 100"
proof -
  assume a: "map_of (agentReputations (calls cs newReputationEngine)) agentId = Some r"
  have "trustInRange newReputationEngine" by (simp add: trustInRange_def newReputationEngine_def)
  then have "trustInRange (calls cs newReputationEngine)" by (rule range_calls)
  moreover have "(agentId, r) \<in> set (agentReputations (calls cs newReputationEngine))"
    using a by (rule map_of_SomeD)
  ultimately show ?thesis by (auto simp: trustInRange_alt inRange_def)
qed

theorem trustScore_stays_in_range_witness:
  "map_of (agentReputations (calls (toyCalls @ [BreakDeal 4 ''deal-1'' ''agent-1'' ''betrayal''])
                               newReputationEngine)) ''agent-1'' = Some brokenReputation
   \<and> 0 \<le> trustScore brokenReputation \<and> trustScore brokenReputation \<le> 100"
  using trustScore_stays_in_range
          [of "toyCalls @ [BreakDeal 4 ''deal-1'' ''agent-1'' ''betrayal'']" "''agent-1''"
              brokenReputation]
        brokenLedger_agent1
  by simp

end
